theory Spec2Isabelle
  imports Complex_Main "HOL-Library.AList"
begin

section \<open>The word aligner \<open>fast_align\<close>: data model\<close>

text \<open>
  The development embeds \<open>main\<close> of the word-alignment trainer (the file that the
  build rules list as \<open>fast_align.cc\<close>), in two readings of the C++ type \<open>double\<close>.
  In the first, \<open>double\<close> is \<^typ>\<open>real\<close>: rounding, overflow to infinity and NaN are
  not part of it, so a statement about it is about the arithmetic the program writes
  down. In the second, further below, a \<open>double\<close> is a real number, an infinity or NaN,
  with the IEEE rules for these values and with the underflow and overflow of \<open>exp\<close>;
  the program is transcribed there a second time, and the two readings are proved to
  agree on the training of every corpus of valid lines when the priors are positive
  and the exponentials are in range. Statements that depend on a division by zero, on
  a logarithm outside its domain or on the range of \<open>exp\<close> are made in the second
  reading. Sizes and the line counter are \<^typ>\<open>nat\<close>; \<open>max_index\<close>,
  which starts at \<open>-1\<close>, is an \<^typ>\<open>int\<close>.
\<close>

type_synonym WordID = nat

text \<open>
  \<open>TTable::Word2Double\<close> and \<open>TTable::Word2Word2Double\<close> are hash maps that the
  program both looks up and iterates over. They are association lists here: a lookup
  is \<^const>\<open>map_of\<close>, the iteration order is the order of the list (an unordered map
  promises none), and \<open>m[k]\<close> on an absent key appends a fresh entry.
\<close>

type_synonym Word2Double = "(WordID \<times> real) list"
type_synonym Word2Word2Double = "(WordID \<times> Word2Double) list"

text \<open>\<open>m[e][f] += x\<close> on a two-level map whose missing values start at \<open>0.0\<close>.\<close>

definition add_to :: "Word2Word2Double \<Rightarrow> WordID \<Rightarrow> WordID \<Rightarrow> real \<Rightarrow> Word2Word2Double" where
  "add_to m e f x =
     AList.map_default e [(f, 0 + x)] (AList.map_default f (0 + x) (\<lambda>v. v + x)) m"

text \<open>\<open>m[e][f] = x\<close> on a two-level map.\<close>

definition assign :: "Word2Word2Double \<Rightarrow> WordID \<Rightarrow> WordID \<Rightarrow> real \<Rightarrow> Word2Word2Double" where
  "assign m e f x =
     AList.map_default e [(f, x)] (AList.map_default f x (\<lambda>v. x)) m"

text \<open>The pair \<open>(e, f)\<close> is a key of the two-level map.\<close>

definition lookup2 :: "Word2Word2Double \<Rightarrow> WordID \<Rightarrow> WordID \<Rightarrow> real option" where
  "lookup2 m e f = (case map_of m e of None \<Rightarrow> None | Some cpd \<Rightarrow> map_of cpd f)"

subsection \<open>The translation table\<close>

text \<open>
  Modelled from the spec: the class \<open>TTable\<close> (\<open>ttables.h\<close>, \<open>ttables.cc\<close>) is not among
  the sources; \<open>main\<close> uses its members \<open>prob\<close>, \<open>Increment\<close>, \<open>Normalize\<close>,
  \<open>NormalizeVB\<close> and reads its field \<open>ttable\<close> in the parameter dump. The spec says:
  \<open>prob(e, f)\<close> returns \<open>T[e][f]\<close> if present, else \<open>1e-9\<close>; \<open>increment(e, f, \<delta>)\<close> adds
  \<open>\<delta>\<close> to the entry, creating entries as needed; \<open>normalize()\<close> computes for every
  source word \<open>s = \<Sum>\<^sub>f T[e][f]\<close> and, if \<open>s > 0\<close>, divides the entries by \<open>s\<close>, while
  entries of an \<open>e\<close> with \<open>s = 0\<close> may be dropped (they are dropped here);
  \<open>normalize_vb(\<alpha>)\<close> computes \<open>s = \<Sum>\<^sub>f T[e][f] + \<alpha> \<cdot> |V\<^sub>f(e)|\<close> and sets
  \<open>T[e][f] \<leftarrow> exp(\<psi>(T[e][f] + \<alpha>) - \<psi>(s))\<close>. The spec also says that the table is
  empty before the first normalize, that the E-step of an iteration observes the
  normalized table of the iteration before, and that the updates of an iteration do
  not depend on the order of the sentences. Hence the expected counts of the running
  iteration are kept apart from the probabilities that \<open>prob\<close> reads: \<open>counts\<close> is
  the accumulator that \<open>Increment\<close> writes, \<open>ttable\<close> the probabilities, and a
  normalization turns the former into the latter and empties the accumulator.
  The digamma function \<open>\<psi>\<close> (\<open>Md::digamma\<close>) is a parameter.
\<close>

record TTable =
  ttable :: Word2Word2Double
  counts :: Word2Word2Double

definition empty_TTable :: TTable where
  "empty_TTable = \<lparr>ttable = [], counts = []\<rparr>"

definition prob :: "TTable \<Rightarrow> WordID \<Rightarrow> WordID \<Rightarrow> real" where
  "prob T e f = (case lookup2 (ttable T) e f of None \<Rightarrow> 1 / 10 ^ 9 | Some p \<Rightarrow> p)"

definition Increment :: "TTable \<Rightarrow> WordID \<Rightarrow> WordID \<Rightarrow> real \<Rightarrow> TTable" where
  "Increment T e f x = T\<lparr>counts := add_to (counts T) e f x\<rparr>"

definition normalize_row :: "WordID \<times> Word2Double \<Rightarrow> Word2Word2Double" where
  "normalize_row ec =
     (let s = sum_list (map snd (snd ec))
      in if s > 0 then [(fst ec, map (\<lambda>(f, v). (f, v / s)) (snd ec))] else [])"

definition Normalize :: "TTable \<Rightarrow> TTable" where
  "Normalize T = \<lparr>ttable = concat (map normalize_row (counts T)), counts = []\<rparr>"

definition normalize_vb_row :: "(real \<Rightarrow> real) \<Rightarrow> real \<Rightarrow> WordID \<times> Word2Double \<Rightarrow> WordID \<times> Word2Double" where
  "normalize_vb_row digamma a ec =
     (let s = sum_list (map snd (snd ec)) + a * real (length (snd ec))
      in (fst ec, map (\<lambda>(f, v). (f, exp (digamma (v + a) - digamma s))) (snd ec)))"

definition NormalizeVB :: "(real \<Rightarrow> real) \<Rightarrow> TTable \<Rightarrow> real \<Rightarrow> TTable" where
  "NormalizeVB digamma T a = \<lparr>ttable = map (normalize_vb_row digamma a) (counts T), counts = []\<rparr>"

subsection \<open>Configuration, collaborators, state and output\<close>

text \<open>
  The constants that \<open>main\<close> reads from the command line. \<open>ITERATIONS\<close> is the
  \<open>const int\<close> of the program; \<open>beam_threshold\<close> is the option, from which
  \<open>BEAM_THRESHOLD = pow(10.0, beam_threshold)\<close>; \<open>kNULL\<close> is the identifier that the
  vocabulary gives to \<open><eps>\<close>; \<open>testset\<close> is the path of the test set, empty when the
  option is absent.
\<close>

record conf =
  reverse :: bool
  ITERATIONS :: int
  beam_threshold :: real
  use_null :: bool
  kNULL :: WordID
  add_viterbi :: bool
  variational_bayes :: bool
  write_alignments :: bool
  diagonal_tension :: real
  prob_align_null :: real
  hide_training_alignments :: bool
  testset :: string
  alpha :: real
  favor_diagonal :: bool

definition BEAM_THRESHOLD :: "conf \<Rightarrow> real" where
  "BEAM_THRESHOLD cfg = 10 powr beam_threshold cfg"

definition prob_align_not_null :: "conf \<Rightarrow> real" where
  "prob_align_not_null cfg = 1 - prob_align_null cfg"

text \<open>
  The collaborators outside the aligner: the lines of the corpus file and of the test
  set (\<open>ReadFile\<close>, \<open>getline\<close>), the parser of a line into its two sides
  (\<open>CorpusTools::ReadLine\<close>), the Poisson log-probability (\<open>Md::log_poisson\<close>) and the
  digamma function.
\<close>

record env =
  input :: "string list"
  testset_lines :: "string list"
  ReadLine :: "string \<Rightarrow> WordID list \<times> WordID list"
  log_poisson :: "nat \<Rightarrow> real \<Rightarrow> real"
  digamma :: "real \<Rightarrow> real"

text \<open>
  What the program writes, as a sequence of items; the rendering of a number or of a
  word as characters is left to the stream and the vocabulary.
\<close>

datatype cout_item =
    AlignPoint int int
  | Space
  | Endl
  | TestPair "WordID list" "WordID list"
  | TestScore real
  | Param WordID WordID real

datatype cerr_item =
    AlphaError
  | IterationBanner nat bool
  | Dot
  | LineCount nat
  | Newline
  | FormatError nat string
  | ExpectedLength real
  | LogE real
  | Log2 real
  | CrossEntropy real
  | Perplexity real
  | TotalLogProb real

text \<open>
  The variables of \<open>main\<close> that live across sentences: those declared before the loop
  over the iterations, the locals of one pass (\<open>likelihood\<close>, \<open>denom\<close>, \<open>lc\<close>, \<open>flag\<close>,
  reset when a pass starts) and the two output streams.
\<close>

record state =
  s2t :: TTable
  s2t_viterbi :: Word2Word2Double
  tot_len_ratio :: real
  mean_srclen_multiplier :: real
  unnormed_a_i :: "real list"
  likelihood :: real
  denom :: real
  lc :: nat
  flag :: bool
  cout :: "cout_item list"
  cerr :: "cerr_item list"

definition init_state :: state where
  "init_state = \<lparr>s2t = empty_TTable, s2t_viterbi = [], tot_len_ratio = 0,
     mean_srclen_multiplier = 0, unnormed_a_i = [], likelihood = 0, denom = 0, lc = 0,
     flag = False, cout = [], cerr = []\<rparr>"

section \<open>The program\<close>

subsection \<open>The posterior of one target position\<close>

text \<open>
  The uniform prior \<open>1.0 / (src.size() + use_null)\<close>, replaced by \<open>prob_align_null\<close>
  for the NULL candidate when the diagonal is favoured; \<open>probs[0]\<close> is written only
  when the NULL word is used. The result is \<open>(prob_a_i, probs, sum)\<close>.
\<close>

definition null_candidate ::
  "conf \<Rightarrow> TTable \<Rightarrow> nat \<Rightarrow> WordID \<Rightarrow> real list \<Rightarrow> real \<times> real list \<times> real" where
  "null_candidate cfg T src_size f_j probs =
     (let prob_a_i = 1 / real (src_size + (if use_null cfg then 1 else 0))
      in if use_null cfg then
           (let prob_a_i = (if favor_diagonal cfg then prob_align_null cfg else prob_a_i);
                p0 = prob T (kNULL cfg) f_j * prob_a_i
            in (prob_a_i, probs[0 := p0], 0 + p0))
         else (prob_a_i, probs, 0))"

text \<open>
  The weight \<open>exp(-fabs(double(ta) / src.size() - j_over_ts) * diagonal_tension)\<close>, then the
  loop over \<open>ta\<close> that fills \<open>unnormed_a_i\<close> with it and sums it into \<open>az\<close>, followed by
  \<open>az /= prob_align_not_null\<close>. The result is the buffer and \<open>az\<close>.
\<close>

definition diag_weight :: "conf \<Rightarrow> nat \<Rightarrow> real \<Rightarrow> nat \<Rightarrow> real" where
  "diag_weight cfg src_size j_over_ts ta =
     exp (- \<bar>real ta / real src_size - j_over_ts\<bar> * diagonal_tension cfg)"

definition fill_body ::
  "conf \<Rightarrow> nat \<Rightarrow> real \<Rightarrow> nat \<Rightarrow> real list \<times> real \<Rightarrow> real list \<times> real" where
  "fill_body cfg src_size j_over_ts = (\<lambda>ta (buf, az).
     (buf[ta := diag_weight cfg src_size j_over_ts ta],
      az + diag_weight cfg src_size j_over_ts ta))"

definition diag_weights :: "conf \<Rightarrow> nat \<Rightarrow> real \<Rightarrow> real list \<Rightarrow> real list \<times> real" where
  "diag_weights cfg src_size j_over_ts buf =
     (if favor_diagonal cfg then
        (let (buf, az) = fold (fill_body cfg src_size j_over_ts) [0..<src_size] (buf, 0)
         in (buf, az / prob_align_not_null cfg))
      else (buf, 0))"

text \<open>The loop \<open>for (int i = 1; i <= src.size(); ++i)\<close> that fills \<open>probs[i]\<close>.\<close>

definition cand_body ::
  "conf \<Rightarrow> TTable \<Rightarrow> WordID list \<Rightarrow> WordID \<Rightarrow> real list \<Rightarrow> real \<Rightarrow> nat \<Rightarrow>
     real \<times> real list \<times> real \<Rightarrow> real \<times> real list \<times> real" where
  "cand_body cfg T src f_j buf az = (\<lambda>i (prob_a_i, probs, sum).
     let prob_a_i = (if favor_diagonal cfg then buf ! (i - 1) / az else prob_a_i);
         p = prob T (src ! (i - 1)) f_j * prob_a_i
     in (prob_a_i, probs[i := p], sum + p))"

definition candidates ::
  "conf \<Rightarrow> TTable \<Rightarrow> WordID list \<Rightarrow> WordID \<Rightarrow> real list \<Rightarrow> real \<Rightarrow>
     real \<times> real list \<times> real \<Rightarrow> real \<times> real list \<times> real" where
  "candidates cfg T src f_j buf az =
     fold (cand_body cfg T src f_j buf az) [1..<length src + 1]"

definition e_step ::
  "conf \<Rightarrow> TTable \<Rightarrow> WordID list \<Rightarrow> WordID list \<Rightarrow> nat \<Rightarrow> real list \<Rightarrow> real list \<Rightarrow>
     real list \<times> real \<times> real list" where
  "e_step cfg T src trg j buf probs =
     (let f_j = trg ! j;
          j_over_ts = real j / real (length trg);
          (prob_a_i, probs, sum) = null_candidate cfg T (length src) f_j probs;
          (buf, az) = diag_weights cfg (length src) j_over_ts buf;
          (prob_a_i, probs, sum) = candidates cfg T src f_j buf az (prob_a_i, probs, sum)
      in (probs, sum, buf))"

subsection \<open>The final iteration: Viterbi alignment\<close>

text \<open>The result is \<open>(max_i, max_p, max_index)\<close>.\<close>

definition argmax_body ::
  "WordID list \<Rightarrow> real list \<Rightarrow> nat \<Rightarrow> WordID \<times> real \<times> int \<Rightarrow> WordID \<times> real \<times> int" where
  "argmax_body src probs = (\<lambda>i (max_i, max_p, max_index).
     if probs ! i > max_p then (src ! (i - 1), probs ! i, int i)
     else (max_i, max_p, max_index))"

definition viterbi_argmax :: "conf \<Rightarrow> WordID list \<Rightarrow> real list \<Rightarrow> WordID \<times> real \<times> int" where
  "viterbi_argmax cfg src probs =
     fold (argmax_body src probs) [1..<length src + 1]
       (if use_null cfg then (kNULL cfg, probs ! 0, 0) else (0, - 1, - 1))"

definition align_token :: "conf \<Rightarrow> nat \<Rightarrow> int \<Rightarrow> cout_item" where
  "align_token cfg j idx =
     (if reverse cfg then AlignPoint (int j) (idx - 1) else AlignPoint (idx - 1) (int j))"

definition viterbi_step ::
  "conf \<Rightarrow> WordID list \<Rightarrow> nat \<Rightarrow> WordID \<Rightarrow> real list \<Rightarrow> bool \<times> state \<Rightarrow> bool \<times> state" where
  "viterbi_step cfg src j f_j probs = (\<lambda>(first_al, st).
     let (max_i, max_p, max_index) = viterbi_argmax cfg src probs;
         (first_al, st) =
           (if \<not> hide_training_alignments cfg \<and> write_alignments cfg then
              (if max_index > 0 then
                 (let st = (if first_al then st else st\<lparr>cout := cout st @ [Space]\<rparr>)
                  in (False, st\<lparr>cout := cout st @ [align_token cfg j max_index]\<rparr>))
               else (first_al, st))
            else (first_al, st))
     in (first_al, st\<lparr>s2t_viterbi := assign (s2t_viterbi st) max_i f_j 1\<rparr>))"

subsection \<open>The other iterations: expected counts\<close>

definition count_step ::
  "conf \<Rightarrow> WordID list \<Rightarrow> WordID \<Rightarrow> real list \<Rightarrow> real \<Rightarrow> TTable \<Rightarrow> TTable" where
  "count_step cfg src f_j probs sum_j T =
     fold (\<lambda>i T. Increment T (src ! (i - 1)) f_j (probs ! i / sum_j))
       [1..<length src + 1]
       (if use_null cfg then Increment T (kNULL cfg) f_j (probs ! 0 / sum_j) else T)"

subsection \<open>One sentence pair, one line, one pass\<close>

text \<open>
  The body of the loop over \<open>j\<close>. \<open>log(sum)\<close> is the natural logarithm \<^const>\<open>ln\<close>, and \<open>probs[i] / sum\<close>
  is the division of \<^typ>\<open>real\<close>: both mean what the program computes only where
  \<open>sum > 0\<close>.
\<close>

definition position ::
  "conf \<Rightarrow> bool \<Rightarrow> WordID list \<Rightarrow> WordID list \<Rightarrow> nat \<Rightarrow>
     real list \<times> bool \<times> state \<Rightarrow> real list \<times> bool \<times> state" where
  "position cfg final_iteration src trg j = (\<lambda>(probs, first_al, st).
     let f_j = trg ! j;
         (probs, sum, buf) = e_step cfg (s2t st) src trg j (unnormed_a_i st) probs;
         st = st\<lparr>unnormed_a_i := buf\<rparr>;
         (first_al, st) =
           (if final_iteration then
              (if add_viterbi cfg \<or> write_alignments cfg
               then viterbi_step cfg src j f_j probs (first_al, st)
               else (first_al, st))
            else (first_al, st\<lparr>s2t := count_step cfg src f_j probs sum (s2t st)\<rparr>))
     in (probs, first_al, st\<lparr>likelihood := likelihood st + ln sum\<rparr>))"

definition resize :: "real list \<Rightarrow> nat \<Rightarrow> real list" where
  "resize buf n = take n buf @ replicate (n - length buf) 0"

text \<open>
  The statements of the loop body before the loop over \<open>j\<close>: the scratch buffer grows
  to the source length, the length ratio is accumulated in the first iteration only,
  and \<open>denom\<close> grows by the target length.
\<close>

definition begin_pair :: "nat \<Rightarrow> WordID list \<Rightarrow> WordID list \<Rightarrow> state \<Rightarrow> state" where
  "begin_pair iter src trg st =
     (let st = (if length src > length (unnormed_a_i st)
                then st\<lparr>unnormed_a_i := resize (unnormed_a_i st) (length src)\<rparr> else st);
          st = (if iter = 0
                then st\<lparr>tot_len_ratio := tot_len_ratio st + real (length trg) / real (length src)\<rparr>
                else st)
      in st\<lparr>denom := denom st + real (length trg)\<rparr>)"

definition align_pair ::
  "conf \<Rightarrow> nat \<Rightarrow> bool \<Rightarrow> WordID list \<Rightarrow> WordID list \<Rightarrow> state \<Rightarrow> state" where
  "align_pair cfg iter final_iteration src trg st =
     (let (probs, first_al, st) =
             fold (position cfg final_iteration src trg) [0..<length trg]
               (replicate (length src + 1) 0, True, begin_pair iter src trg st)
      in if write_alignments cfg \<and> final_iteration \<and> \<not> hide_training_alignments cfg
         then st\<lparr>cout := cout st @ [Endl]\<rparr> else st)"

text \<open>The two sides of a line as the pass sees them: swapped when \<open>reverse\<close> is set.\<close>

definition sides :: "env \<Rightarrow> conf \<Rightarrow> string \<Rightarrow> WordID list \<times> WordID list" where
  "sides en cfg line =
     (let (src, trg) = ReadLine en line in if reverse cfg then (trg, src) else (src, trg))"

text \<open>\<open>++lc\<close> and the progress marks on \<open>cerr\<close>.\<close>

definition count_line :: "state \<Rightarrow> state" where
  "count_line st =
     (let st = st\<lparr>lc := lc st + 1\<rparr>;
          st = (if lc st mod 1000 = 0 then st\<lparr>cerr := cerr st @ [Dot], flag := True\<rparr> else st)
      in if lc st mod 50000 = 0
         then st\<lparr>cerr := cerr st @ [LineCount (lc st)], flag := False\<rparr> else st)"

text \<open>
  The body of the \<open>while\<close> loop for one line that \<open>getline\<close> delivered. \<open>Inl\<close> is
  \<open>return 1\<close> from \<open>main\<close>, with the state at that moment.
\<close>

definition process_line ::
  "env \<Rightarrow> conf \<Rightarrow> nat \<Rightarrow> bool \<Rightarrow> string \<Rightarrow> state \<Rightarrow> state + state" where
  "process_line en cfg iter final_iteration line st =
     (let st = count_line st;
          (src, trg) = sides en cfg line
      in if length src = 0 \<or> length trg = 0
         then Inl (st\<lparr>cerr := cerr st @ [FormatError (lc st) line]\<rparr>)
         else Inr (align_pair cfg iter final_iteration src trg st))"

fun read_loop :: "env \<Rightarrow> conf \<Rightarrow> nat \<Rightarrow> bool \<Rightarrow> string list \<Rightarrow> state \<Rightarrow> state + state" where
  "read_loop en cfg iter final_iteration [] st = Inr st"
| "read_loop en cfg iter final_iteration (line # rest) st =
     (case process_line en cfg iter final_iteration line st of
        Inl st' \<Rightarrow> Inl st'
      | Inr st' \<Rightarrow> read_loop en cfg iter final_iteration rest st')"

definition end_of_iteration :: "env \<Rightarrow> conf \<Rightarrow> nat \<Rightarrow> bool \<Rightarrow> state \<Rightarrow> state" where
  "end_of_iteration en cfg iter final_iteration st =
     (let base2_likelihood = likelihood st / ln 2;
          st = (if flag st then st\<lparr>cerr := cerr st @ [Newline]\<rparr> else st);
          st = (if iter = 0
                then (let st = st\<lparr>mean_srclen_multiplier := tot_len_ratio st / real (lc st)\<rparr>
                      in st\<lparr>cerr := cerr st @ [ExpectedLength (mean_srclen_multiplier st)]\<rparr>)
                else st);
          st = st\<lparr>cerr := cerr st @
                 [LogE (likelihood st), Log2 base2_likelihood,
                  CrossEntropy (- base2_likelihood / denom st),
                  Perplexity (2 powr (- base2_likelihood / denom st))]\<rparr>
      in if \<not> final_iteration
         then st\<lparr>s2t := (if variational_bayes cfg
                          then NormalizeVB (digamma en) (s2t st) (alpha cfg)
                          else Normalize (s2t st))\<rparr>
         else st)"

text \<open>The banner of a pass and its fresh locals.\<close>

definition final_iteration_of :: "conf \<Rightarrow> nat \<Rightarrow> bool" where
  "final_iteration_of cfg iter = (int iter = ITERATIONS cfg - 1)"

definition begin_pass :: "conf \<Rightarrow> nat \<Rightarrow> state \<Rightarrow> state" where
  "begin_pass cfg iter st =
     st\<lparr>cerr := cerr st @ [IterationBanner (iter + 1) (final_iteration_of cfg iter)],
        likelihood := 0, denom := 0, lc := 0, flag := False\<rparr>"

definition iteration :: "env \<Rightarrow> conf \<Rightarrow> nat \<Rightarrow> state \<Rightarrow> state + state" where
  "iteration en cfg iter st =
     (let final_iteration = final_iteration_of cfg iter
      in case read_loop en cfg iter final_iteration (input en) (begin_pass cfg iter st) of
           Inl st' \<Rightarrow> Inl st'
         | Inr st' \<Rightarrow> Inr (end_of_iteration en cfg iter final_iteration st'))"

fun iterations :: "env \<Rightarrow> conf \<Rightarrow> nat list \<Rightarrow> state \<Rightarrow> state + state" where
  "iterations en cfg [] st = Inr st"
| "iterations en cfg (iter # rest) st =
     (case iteration en cfg iter st of
        Inl st' \<Rightarrow> Inl st'
      | Inr st' \<Rightarrow> iterations en cfg rest st')"

text \<open>The loop \<open>for (int iter = 0; iter < ITERATIONS; ++iter)\<close> from the initial state.\<close>

definition training :: "env \<Rightarrow> conf \<Rightarrow> state + state" where
  "training en cfg = iterations en cfg [0..<nat (ITERATIONS cfg)] init_state"

subsection \<open>The test scorer\<close>

text \<open>
  The scorer repeats the arithmetic of the E-step with its own variables: \<open>max_pat\<close>
  starts at \<open>0\<close> (at the NULL candidate when the NULL word is used) and \<open>a_j\<close> at \<open>0\<close>.
\<close>

definition test_cand_body ::
  "conf \<Rightarrow> TTable \<Rightarrow> WordID list \<Rightarrow> WordID \<Rightarrow> real list \<Rightarrow> real \<Rightarrow> nat \<Rightarrow>
     real \<times> real \<times> nat \<times> real \<Rightarrow> real \<times> real \<times> nat \<times> real" where
  "test_cand_body cfg T src f_j buf az = (\<lambda>i (prob_a_i, max_pat, a_j, sum).
     let prob_a_i = (if favor_diagonal cfg then buf ! (i - 1) / az else prob_a_i);
         pat = prob T (src ! (i - 1)) f_j * prob_a_i;
         (max_pat, a_j) = (if pat > max_pat then (pat, i) else (max_pat, a_j))
     in (prob_a_i, max_pat, a_j, sum + pat))"

definition test_candidates ::
  "conf \<Rightarrow> TTable \<Rightarrow> WordID list \<Rightarrow> WordID \<Rightarrow> real list \<Rightarrow> real \<Rightarrow>
     real \<times> real \<times> nat \<times> real \<Rightarrow> real \<times> real \<times> nat \<times> real" where
  "test_candidates cfg T src f_j buf az =
     fold (test_cand_body cfg T src f_j buf az) [1..<length src + 1]"

definition test_position ::
  "conf \<Rightarrow> WordID list \<Rightarrow> WordID list \<Rightarrow> nat \<Rightarrow> real \<times> state \<Rightarrow> real \<times> state" where
  "test_position cfg src trg j = (\<lambda>(log_prob, st).
     let f_j = trg ! j;
         j_over_ts = real j / real (length trg);
         prob_a_i = 1 / real (length src + (if use_null cfg then 1 else 0));
         (prob_a_i, max_pat, sum) =
           (if use_null cfg then
              (let prob_a_i = (if favor_diagonal cfg then prob_align_null cfg else prob_a_i);
                   max_pat = prob (s2t st) (kNULL cfg) f_j * prob_a_i
               in (prob_a_i, max_pat, 0 + max_pat))
            else (prob_a_i, 0, 0));
         (buf, az) = diag_weights cfg (length src) j_over_ts (unnormed_a_i st);
         st = st\<lparr>unnormed_a_i := buf\<rparr>;
         (prob_a_i, max_pat, a_j, sum) =
           test_candidates cfg (s2t st) src f_j buf az (prob_a_i, max_pat, 0, sum);
         log_prob = log_prob + ln sum;
         st = (if write_alignments cfg \<and> a_j > 0
               then st\<lparr>cout := cout st @ [Space, align_token cfg j (int a_j)]\<rparr> else st)
     in (log_prob, st))"

definition test_line :: "env \<Rightarrow> conf \<Rightarrow> string \<Rightarrow> real \<times> state \<Rightarrow> real \<times> state" where
  "test_line en cfg line = (\<lambda>(tlp, st).
     let (src, trg) = ReadLine en line;
         st = st\<lparr>cout := cout st @ [TestPair src trg]\<rparr>;
         (src, trg) = (if reverse cfg then (trg, src) else (src, trg));
         log_prob = log_poisson en (length trg)
                      (5 / 100 + real (length src) * mean_srclen_multiplier st);
         st = (if length src > length (unnormed_a_i st)
               then st\<lparr>unnormed_a_i := resize (unnormed_a_i st) (length src)\<rparr> else st);
         (log_prob, st) = fold (test_position cfg src trg) [0..<length trg] (log_prob, st)
     in (tlp + log_prob, st\<lparr>cout := cout st @ [TestScore log_prob]\<rparr>))"

definition test_scorer :: "env \<Rightarrow> conf \<Rightarrow> state \<Rightarrow> state" where
  "test_scorer en cfg st =
     (let (tlp, st) = fold (test_line en cfg) (testset_lines en) (0, st)
      in st\<lparr>cerr := cerr st @ [TotalLogProb tlp]\<rparr>)"

subsection \<open>The parameter dump and \<open>main\<close>\<close>

text \<open>
  One pass of the outer loop of the dump, for the entry \<open>ei\<close> of \<open>s2t.ttable\<close>.
  \<open>s2t_viterbi[ei->first]\<close> inserts an empty inner map when the source word has none.
\<close>

definition dump_max_p :: "Word2Double \<Rightarrow> real" where
  "dump_max_p cpd = fold (\<lambda>fi max_p. if snd fi > max_p then snd fi else max_p) cpd (- 1)"

definition dump_entry :: "conf \<Rightarrow> WordID \<times> Word2Double \<Rightarrow> state \<Rightarrow> state" where
  "dump_entry cfg ei st =
     (let cpd = snd ei;
          st = st\<lparr>s2t_viterbi := AList.map_default (fst ei) [] (\<lambda>v. v) (s2t_viterbi st)\<rparr>;
          vit = (case map_of (s2t_viterbi st) (fst ei) of None \<Rightarrow> [] | Some v \<Rightarrow> v);
          max_p = dump_max_p cpd;
          threshold = max_p * BEAM_THRESHOLD cfg
      in fold (\<lambda>fi st.
                 if snd fi > threshold \<or> map_of vit (fst fi) \<noteq> None
                 then st\<lparr>cout := cout st @ [Param (fst ei) (fst fi) (ln (snd fi))]\<rparr>
                 else st)
           cpd st)"

definition dump :: "conf \<Rightarrow> state \<Rightarrow> state" where
  "dump cfg st = fold (dump_entry cfg) (ttable (s2t st)) st"

text \<open>The exit status of \<open>main\<close> and the state when it returns.\<close>

definition main :: "env \<Rightarrow> conf \<Rightarrow> int \<times> state" where
  "main en cfg =
     (if variational_bayes cfg \<and> alpha cfg \<le> 0
      then (1, init_state\<lparr>cerr := [AlphaError]\<rparr>)
      else case training en cfg of
             Inl st \<Rightarrow> (1, st)
           | Inr st \<Rightarrow>
               (let st = (if testset cfg \<noteq> [] then test_scorer en cfg st else st)
                in if write_alignments cfg then (0, st) else (0, dump cfg st)))"

section \<open>Notions used in the statements\<close>

subsection \<open>The alignment prior in closed form\<close>

text \<open>
  The weight \<open>w\<^sub>i\<close> of the source position \<open>i\<close> (counted from 1) is
  \<^term>\<open>diag_weight cfg I jt (i - 1)\<close>, where \<open>jt\<close> is \<open>j / J\<close>. The names below are
  the quantities of the design description; the lemmas relate them to what the loops
  compute.
\<close>

definition weight_sum :: "conf \<Rightarrow> nat \<Rightarrow> real \<Rightarrow> real" where
  "weight_sum cfg I jt = (\<Sum>ta<I. diag_weight cfg I jt ta)"

definition prior_Z :: "conf \<Rightarrow> nat \<Rightarrow> real \<Rightarrow> real" where
  "prior_Z cfg I jt = weight_sum cfg I jt / (1 - prob_align_null cfg)"

definition prior_null :: "conf \<Rightarrow> nat \<Rightarrow> real" where
  "prior_null cfg I = (if favor_diagonal cfg then prob_align_null cfg else 1 / real (I + 1))"

definition prior_at :: "conf \<Rightarrow> nat \<Rightarrow> real \<Rightarrow> nat \<Rightarrow> real" where
  "prior_at cfg I jt i =
     (if favor_diagonal cfg
      then diag_weight cfg I jt (i - 1) / prior_Z cfg I jt
      else 1 / real (I + (if use_null cfg then 1 else 0)))"

definition cand_term ::
  "conf \<Rightarrow> TTable \<Rightarrow> WordID list \<Rightarrow> WordID \<Rightarrow> real list \<Rightarrow> real \<Rightarrow> real \<Rightarrow> nat \<Rightarrow> real" where
  "cand_term cfg T src f_j buf az pa i =
     prob T (src ! (i - 1)) f_j * (if favor_diagonal cfg then buf ! (i - 1) / az else pa)"

subsection \<open>Runs over a corpus\<close>

text \<open>A line is valid when neither side is empty after the swap of \<open>reverse\<close>.\<close>

definition valid_line :: "env \<Rightarrow> conf \<Rightarrow> string \<Rightarrow> bool" where
  "valid_line en cfg line = (fst (sides en cfg line) \<noteq> [] \<and> snd (sides en cfg line) \<noteq> [])"

text \<open>The state with which a pass, an iteration or the training ends or is left.\<close>

definition outcome :: "state + state \<Rightarrow> state" where
  "outcome r = (case r of Inl st \<Rightarrow> st | Inr st \<Rightarrow> st)"

text \<open>
  On a corpus of valid lines no pass returns early; then a line, a pass and an
  iteration are the following state transformers.
\<close>

definition line_step :: "env \<Rightarrow> conf \<Rightarrow> nat \<Rightarrow> bool \<Rightarrow> string \<Rightarrow> state \<Rightarrow> state" where
  "line_step en cfg iter fin line st =
     align_pair cfg iter fin (fst (sides en cfg line)) (snd (sides en cfg line)) (count_line st)"

definition pass_lines :: "env \<Rightarrow> conf \<Rightarrow> nat \<Rightarrow> state \<Rightarrow> state" where
  "pass_lines en cfg iter st =
     fold (line_step en cfg iter (final_iteration_of cfg iter)) (input en) (begin_pass cfg iter st)"

definition pass_result :: "env \<Rightarrow> conf \<Rightarrow> nat \<Rightarrow> state \<Rightarrow> state" where
  "pass_result en cfg iter st =
     end_of_iteration en cfg iter (final_iteration_of cfg iter) (pass_lines en cfg iter st)"

text \<open>The ratio \<open>|trg| / |src|\<close> of a line.\<close>

definition len_ratio :: "env \<Rightarrow> conf \<Rightarrow> string \<Rightarrow> real" where
  "len_ratio en cfg line =
     real (length (snd (sides en cfg line))) / real (length (fst (sides en cfg line)))"

text \<open>
  The state in which the scorer enters its loop over the target positions of a test
  line: the pair is printed and the scratch buffer has grown.
\<close>

definition begin_test_line :: "env \<Rightarrow> conf \<Rightarrow> string \<Rightarrow> state \<Rightarrow> state" where
  "begin_test_line en cfg line st =
     (let st = st\<lparr>cout := cout st @ [TestPair (fst (ReadLine en line)) (snd (ReadLine en line))]\<rparr>
      in if length (fst (sides en cfg line)) > length (unnormed_a_i st)
         then st\<lparr>unnormed_a_i := resize (unnormed_a_i st) (length (fst (sides en cfg line)))\<rparr>
         else st)"

subsection \<open>Invariants\<close>

text \<open>
  A configuration in which every alignment prior is positive: when the diagonal is
  favoured, \<open>prob_align_null\<close> is below \<open>1\<close>, and above \<open>0\<close> when the NULL word is used.
\<close>

definition config_ok :: "conf \<Rightarrow> bool" where
  "config_ok cfg =
     (favor_diagonal cfg \<longrightarrow>
        prob_align_null cfg < 1 \<and> (use_null cfg \<longrightarrow> 0 < prob_align_null cfg))"

text \<open>
  A two-level map with positive values, and one whose keys are distinct at both
  levels, as those of a hash map are.
\<close>

definition positive :: "Word2Word2Double \<Rightarrow> bool" where
  "positive m = (\<forall>ec\<in>set m. \<forall>fv\<in>set (snd ec). 0 < snd fv)"

definition keys_ok :: "Word2Word2Double \<Rightarrow> bool" where
  "keys_ok m = (distinct (map fst m) \<and> (\<forall>ec\<in>set m. distinct (map fst (snd ec))))"

text \<open>The invariants of the table, of the state and of the loop over the target positions.\<close>

definition table_inv :: "TTable \<Rightarrow> bool" where
  "table_inv T = (positive (ttable T) \<and> keys_ok (ttable T) \<and>
                  positive (counts T) \<and> keys_ok (counts T))"

definition state_inv :: "state \<Rightarrow> bool" where
  "state_inv st = (table_inv (s2t st) \<and> keys_ok (s2t_viterbi st))"

definition loop_inv :: "WordID list \<Rightarrow> real list \<times> bool \<times> state \<Rightarrow> bool" where
  "loop_inv src pfs =
     (length (fst pfs) = length src + 1 \<and> length src \<le> length (unnormed_a_i (snd (snd pfs))) \<and>
      state_inv (snd (snd pfs)))"

subsection \<open>The shape of the alignment output\<close>






subsection \<open>The contents of the parameter dump\<close>

text \<open>
  The lines that the dump writes for one entry of the table, given the lookup in the
  Viterbi map; the largest value of a row of the table; and the items of the output
  that are lines of the dump.
\<close>

definition row_out ::
  "conf \<Rightarrow> (WordID \<Rightarrow> WordID \<Rightarrow> real option) \<Rightarrow> WordID \<times> Word2Double \<Rightarrow> cout_item list" where
  "row_out cfg look ei =
     map (\<lambda>fi. Param (fst ei) (fst fi) (ln (snd fi)))
       (filter (\<lambda>fi. snd fi > dump_max_p (snd ei) * BEAM_THRESHOLD cfg \<or>
                      look (fst ei) (fst fi) \<noteq> None) (snd ei))"



subsection \<open>Exchanging the two sides\<close>

text \<open>An output item with the two sides exchanged: the indices of an alignment token, the two
  sentences of an echoed test pair.\<close>

fun swap_point :: "cout_item \<Rightarrow> cout_item" where
  "swap_point (AlignPoint a b) = AlignPoint b a"
| "swap_point (TestPair s t) = TestPair t s"
| "swap_point Space = Space"
| "swap_point Endl = Endl"
| "swap_point (TestScore x) = TestScore x"
| "swap_point (Param e f v) = Param e f v"

text \<open>The state whose standard output has every item exchanged.\<close>

definition swap_output :: "state \<Rightarrow> state" where
  "swap_output st = st\<lparr>cout := map swap_point (cout st)\<rparr>"

text \<open>The configuration with \<open>reverse\<close> switched off and every other option kept.\<close>

definition forward :: "conf \<Rightarrow> conf" where
  "forward cfg = cfg\<lparr>reverse := False\<rparr>"

text \<open>The exchange on the state component of the loop variables.\<close>

definition lift3 :: "real list \<times> bool \<times> state \<Rightarrow> real list \<times> bool \<times> state" where
  "lift3 pfs = (fst pfs, fst (snd pfs), swap_output (snd (snd pfs)))"

text \<open>The line \<open>l'\<close> of the second corpus holds the two sides of the line \<open>l\<close> of the first,
  exchanged.\<close>

definition swapped_line :: "env \<Rightarrow> env \<Rightarrow> string \<Rightarrow> string \<Rightarrow> bool" where
  "swapped_line en en' l l' = (ReadLine en' l' = prod.swap (ReadLine en l))"

text \<open>The second environment holds the corpus and the test set of the first with the two sides of
  every line exchanged, and the same numeric functions.\<close>

definition swapped_corpus :: "env \<Rightarrow> env \<Rightarrow> bool" where
  "swapped_corpus en en' =
     (list_all2 (swapped_line en en') (input en) (input en') \<and>
      list_all2 (swapped_line en en') (testset_lines en) (testset_lines en') \<and>
      digamma en' = digamma en \<and> log_poisson en' = log_poisson en)"

text \<open>Two outcomes of the training agree up to the exchange on standard output; when the training
  stopped at a malformed line, the two error messages echo the corresponding lines.\<close>

definition related :: "string list \<Rightarrow> string list \<Rightarrow> state + state \<Rightarrow> state + state \<Rightarrow> bool" where
  "related ls ls' r r' =
     (case r of
        Inr st \<Rightarrow> r' = Inr (swap_output st)
      | Inl a \<Rightarrow>
          (\<exists>st l l'. (l, l') \<in> set (zip ls ls') \<and>
             a = st\<lparr>cerr := cerr st @ [FormatError (lc st) l]\<rparr> \<and>
             r' = Inl ((swap_output st)\<lparr>cerr := cerr st @ [FormatError (lc st) l']\<rparr>)))"

text \<open>The natural-log likelihoods reported on standard error, one per iteration.\<close>

definition likelihood_reports :: "cerr_item list \<Rightarrow> real list" where
  "likelihood_reports es = concat (map (\<lambda>e. case e of LogE x \<Rightarrow> [x] | _ \<Rightarrow> []) es)"

text \<open>The environment whose reader returns the two sides of every line exchanged.\<close>

definition swapped_env :: "env \<Rightarrow> env" where
  "swapped_env en = en\<lparr>ReadLine := (\<lambda>line. prod.swap (ReadLine en line))\<rparr>"

text \<open>The exchange on the state component of the variables of the test scorer.\<close>

definition lift2 :: "real \<times> state \<Rightarrow> real \<times> state" where
  "lift2 ls = (fst ls, swap_output (snd ls))"

subsection \<open>Example inputs\<close>

text \<open>The default values of the options, with \<open>0\<close> for the identifier of \<open><eps>\<close>.\<close>

definition default_conf :: conf where
  "default_conf = \<lparr>reverse = False, ITERATIONS = 5, beam_threshold = - 4, use_null = True,
     kNULL = 0, add_viterbi = True, variational_bayes = False, write_alignments = True,
     diagonal_tension = 4, prob_align_null = 8 / 100, hide_training_alignments = False,
     testset = [], alpha = 1 / 100, favor_diagonal = False\<rparr>"

text \<open>A reader for the lines of the examples, and an environment with one sentence pair.\<close>

definition example_ReadLine :: "string \<Rightarrow> WordID list \<times> WordID list" where
  "example_ReadLine line =
     (if line = ''a ||| x'' then ([1], [2])
      else if line = ''a b ||| x y'' then ([1, 3], [2, 4])
      else if line = ''b ||| y'' then ([3], [4])
      else if line = ''a b ||| '' then ([1, 3], [])
      else ([], []))"

definition example_env :: env where
  "example_env = \<lparr>input = [''a ||| x''], testset_lines = [], ReadLine = example_ReadLine,
     log_poisson = (\<lambda>n x. 0), digamma = (\<lambda>x. x)\<rparr>"

section \<open>The program with the special values of \<open>double\<close>\<close>

subsection \<open>Not-a-number, the infinities, and the range of \<open>exp\<close>\<close>

text \<open>
  A second reading of the type \<open>double\<close>: a real number, \<open>+inf\<close>, \<open>-inf\<close> or NaN. The
  operations follow IEEE 754 on the special values: NaN is absorbing and compares
  false with everything, \<open>x / 0\<close> is an infinity for \<open>x \<noteq> 0\<close> and NaN for \<open>x = 0\<close>,
  \<open>inf - inf\<close>, \<open>0 \<cdot> inf\<close> and \<open>inf / inf\<close> are NaN, \<open>log(0)\<close> is \<open>-inf\<close> and the logarithm
  of a negative number is NaN. \<open>exp\<close> returns \<open>0\<close> when the exact value rounds to zero
  (it is at most \<open>2\<^sup>-\<^sup>1\<^sup>0\<^sup>7\<^sup>5\<close>) and \<open>+inf\<close> when it rounds to infinity (it is at least
  \<open>2\<^sup>1\<^sup>0\<^sup>2\<^sup>4 - 2\<^sup>9\<^sup>7\<^sup>0\<close>). A finite result of any operation is the exact real number:
  the rounding of finite values, the overflow of sums, products and quotients, and
  the sign of zero (a zero divisor counts as \<open>+0\<close>) are not modelled.
\<close>

datatype double = Fin real | PInf | NInf | NaN

fun dneg :: "double \<Rightarrow> double" where
  "dneg (Fin a) = Fin (- a)"
| "dneg PInf = NInf"
| "dneg NInf = PInf"
| "dneg NaN = NaN"

fun dabs :: "double \<Rightarrow> double" where
  "dabs (Fin a) = Fin \<bar>a\<bar>"
| "dabs PInf = PInf"
| "dabs NInf = PInf"
| "dabs NaN = NaN"

fun dadd :: "double \<Rightarrow> double \<Rightarrow> double" where
  "dadd (Fin a) (Fin b) = Fin (a + b)"
| "dadd NaN y = NaN"
| "dadd x NaN = NaN"
| "dadd PInf NInf = NaN"
| "dadd NInf PInf = NaN"
| "dadd PInf y = PInf"
| "dadd x PInf = PInf"
| "dadd NInf y = NInf"
| "dadd x NInf = NInf"

definition dsub :: "double \<Rightarrow> double \<Rightarrow> double" where
  "dsub x y = dadd x (dneg y)"

fun dmul :: "double \<Rightarrow> double \<Rightarrow> double" where
  "dmul (Fin a) (Fin b) = Fin (a * b)"
| "dmul NaN y = NaN"
| "dmul x NaN = NaN"
| "dmul (Fin a) PInf = (if a = 0 then NaN else if 0 < a then PInf else NInf)"
| "dmul (Fin a) NInf = (if a = 0 then NaN else if 0 < a then NInf else PInf)"
| "dmul PInf (Fin b) = (if b = 0 then NaN else if 0 < b then PInf else NInf)"
| "dmul NInf (Fin b) = (if b = 0 then NaN else if 0 < b then NInf else PInf)"
| "dmul PInf PInf = PInf"
| "dmul NInf NInf = PInf"
| "dmul PInf NInf = NInf"
| "dmul NInf PInf = NInf"

fun ddiv :: "double \<Rightarrow> double \<Rightarrow> double" where
  "ddiv (Fin a) (Fin b) =
     (if b = 0 then (if a = 0 then NaN else if 0 < a then PInf else NInf) else Fin (a / b))"
| "ddiv NaN y = NaN"
| "ddiv x NaN = NaN"
| "ddiv (Fin a) PInf = Fin 0"
| "ddiv (Fin a) NInf = Fin 0"
| "ddiv PInf (Fin b) = (if 0 \<le> b then PInf else NInf)"
| "ddiv NInf (Fin b) = (if 0 \<le> b then NInf else PInf)"
| "ddiv PInf PInf = NaN"
| "ddiv PInf NInf = NaN"
| "ddiv NInf PInf = NaN"
| "ddiv NInf NInf = NaN"

text \<open>\<open>x < y\<close>; the program's \<open>x > y\<close> is \<open>dless y x\<close>.\<close>

fun dless :: "double \<Rightarrow> double \<Rightarrow> bool" where
  "dless (Fin a) (Fin b) = (a < b)"
| "dless NaN y = False"
| "dless x NaN = False"
| "dless PInf y = False"
| "dless x PInf = True"
| "dless NInf y = True"
| "dless x NInf = False"

fun dexp :: "double \<Rightarrow> double" where
  "dexp (Fin a) =
     (if 2 ^ 1024 - 2 ^ 970 \<le> exp a then PInf
      else if exp a \<le> 1 / 2 ^ 1075 then Fin 0 else Fin (exp a))"
| "dexp PInf = PInf"
| "dexp NInf = Fin 0"
| "dexp NaN = NaN"

fun dlog :: "double \<Rightarrow> double" where
  "dlog (Fin a) = (if 0 < a then Fin (ln a) else if a = 0 then NInf else NaN)"
| "dlog PInf = PInf"
| "dlog NInf = NaN"
| "dlog NaN = NaN"

text \<open>\<open>pow(b, y)\<close> for a constant base \<open>b > 1\<close>, as \<open>exp(y \<cdot> ln b)\<close>.\<close>

definition dpow :: "real \<Rightarrow> double \<Rightarrow> double" where
  "dpow b y = dexp (dmul y (Fin (ln b)))"

text \<open>
  Modelled from the spec: \<open>Md::log_poisson\<close> and \<open>Md::digamma\<close> are not among the
  sources; the spec names them as the Poisson log-probability and the digamma
  function. They are parameters on the real numbers, and applied to NaN or to an
  infinity they are taken to return NaN.
\<close>

fun dlift :: "(real \<Rightarrow> real) \<Rightarrow> double \<Rightarrow> double" where
  "dlift g (Fin a) = Fin (g a)"
| "dlift g PInf = NaN"
| "dlift g NInf = NaN"
| "dlift g NaN = NaN"

text \<open>The sum of the values of a row, from \<open>0.0\<close>.\<close>

definition dsum :: "double list \<Rightarrow> double" where
  "dsum xs = foldr dadd xs (Fin 0)"

subsection \<open>The translation table over \<open>double\<close>\<close>

type_synonym Word2Double_fp = "(WordID \<times> double) list"
type_synonym Word2Word2Double_fp = "(WordID \<times> Word2Double_fp) list"

definition add_to_fp ::
  "Word2Word2Double_fp \<Rightarrow> WordID \<Rightarrow> WordID \<Rightarrow> double \<Rightarrow> Word2Word2Double_fp" where
  "add_to_fp m e f x =
     AList.map_default e [(f, dadd (Fin 0) x)]
       (AList.map_default f (dadd (Fin 0) x) (\<lambda>v. dadd v x)) m"

definition assign_fp ::
  "Word2Word2Double_fp \<Rightarrow> WordID \<Rightarrow> WordID \<Rightarrow> double \<Rightarrow> Word2Word2Double_fp" where
  "assign_fp m e f x =
     AList.map_default e [(f, x)] (AList.map_default f x (\<lambda>v. x)) m"

definition lookup2_fp :: "Word2Word2Double_fp \<Rightarrow> WordID \<Rightarrow> WordID \<Rightarrow> double option" where
  "lookup2_fp m e f = (case map_of m e of None \<Rightarrow> None | Some cpd \<Rightarrow> map_of cpd f)"

text \<open>
  Modelled from the spec: the class \<open>TTable\<close> as above, with the arithmetic of
  \<open>double\<close>. A row whose sum is not greater than \<open>0\<close>, NaN included, is dropped by
  \<open>normalize()\<close>.
\<close>

record TTable_fp =
  ttable_fp :: Word2Word2Double_fp
  counts_fp :: Word2Word2Double_fp

definition empty_TTable_fp :: TTable_fp where
  "empty_TTable_fp = \<lparr>ttable_fp = [], counts_fp = []\<rparr>"

definition prob_fp :: "TTable_fp \<Rightarrow> WordID \<Rightarrow> WordID \<Rightarrow> double" where
  "prob_fp T e f = (case lookup2_fp (ttable_fp T) e f of None \<Rightarrow> Fin (1 / 10 ^ 9) | Some p \<Rightarrow> p)"

definition Increment_fp :: "TTable_fp \<Rightarrow> WordID \<Rightarrow> WordID \<Rightarrow> double \<Rightarrow> TTable_fp" where
  "Increment_fp T e f x = T\<lparr>counts_fp := add_to_fp (counts_fp T) e f x\<rparr>"

definition normalize_row_fp :: "WordID \<times> Word2Double_fp \<Rightarrow> Word2Word2Double_fp" where
  "normalize_row_fp ec =
     (let s = dsum (map snd (snd ec))
      in if dless (Fin 0) s then [(fst ec, map (\<lambda>(f, v). (f, ddiv v s)) (snd ec))] else [])"

definition Normalize_fp :: "TTable_fp \<Rightarrow> TTable_fp" where
  "Normalize_fp T = \<lparr>ttable_fp = concat (map normalize_row_fp (counts_fp T)), counts_fp = []\<rparr>"

definition normalize_vb_row_fp ::
  "(real \<Rightarrow> real) \<Rightarrow> real \<Rightarrow> WordID \<times> Word2Double_fp \<Rightarrow> WordID \<times> Word2Double_fp" where
  "normalize_vb_row_fp psi a ec =
     (let s = dadd (dsum (map snd (snd ec))) (Fin (a * real (length (snd ec))))
      in (fst ec, map (\<lambda>(f, v). (f, dexp (dsub (dlift psi (dadd v (Fin a))) (dlift psi s))))
                    (snd ec)))"

definition NormalizeVB_fp :: "(real \<Rightarrow> real) \<Rightarrow> TTable_fp \<Rightarrow> real \<Rightarrow> TTable_fp" where
  "NormalizeVB_fp psi T a =
     \<lparr>ttable_fp = map (normalize_vb_row_fp psi a) (counts_fp T), counts_fp = []\<rparr>"

subsection \<open>State and output over \<open>double\<close>\<close>

text \<open>
  The options are the real numbers of the command line. \<open>BEAM_THRESHOLD\<close> is
  \<open>pow(10.0, beam_threshold)\<close>.
\<close>

definition BEAM_THRESHOLD_fp :: "conf \<Rightarrow> double" where
  "BEAM_THRESHOLD_fp cfg = dpow 10 (Fin (beam_threshold cfg))"

datatype cout_item_fp =
    AlignPoint_fp int int
  | Space_fp
  | Endl_fp
  | TestPair_fp "WordID list" "WordID list"
  | TestScore_fp double
  | Param_fp WordID WordID double

datatype cerr_item_fp =
    AlphaError_fp
  | IterationBanner_fp nat bool
  | Dot_fp
  | LineCount_fp nat
  | Newline_fp
  | FormatError_fp nat string
  | ExpectedLength_fp double
  | LogE_fp double
  | Log2_fp double
  | CrossEntropy_fp double
  | Perplexity_fp double
  | TotalLogProb_fp double

record state_fp =
  s2t_fp :: TTable_fp
  s2t_viterbi_fp :: Word2Word2Double_fp
  tot_len_ratio_fp :: double
  mean_srclen_multiplier_fp :: double
  unnormed_a_i_fp :: "double list"
  likelihood_fp :: double
  denom_fp :: double
  lc_fp :: nat
  flag_fp :: bool
  cout_fp :: "cout_item_fp list"
  cerr_fp :: "cerr_item_fp list"

definition init_state_fp :: state_fp where
  "init_state_fp = \<lparr>s2t_fp = empty_TTable_fp, s2t_viterbi_fp = [], tot_len_ratio_fp = Fin 0,
     mean_srclen_multiplier_fp = Fin 0, unnormed_a_i_fp = [], likelihood_fp = Fin 0,
     denom_fp = Fin 0, lc_fp = 0, flag_fp = False, cout_fp = [], cerr_fp = []\<rparr>"

subsection \<open>The posterior of one target position over \<open>double\<close>\<close>

text \<open>
  The definitions of this and the following subsections are those of the program
  above, statement by statement, with the operations of \<open>double\<close>.
\<close>

definition null_candidate_fp ::
  "conf \<Rightarrow> TTable_fp \<Rightarrow> nat \<Rightarrow> WordID \<Rightarrow> double list \<Rightarrow> double \<times> double list \<times> double" where
  "null_candidate_fp cfg T src_size f_j probs =
     (let prob_a_i = ddiv (Fin 1) (Fin (real (src_size + (if use_null cfg then 1 else 0))))
      in if use_null cfg then
           (let prob_a_i = (if favor_diagonal cfg then Fin (prob_align_null cfg) else prob_a_i);
                p0 = dmul (prob_fp T (kNULL cfg) f_j) prob_a_i
            in (prob_a_i, probs[0 := p0], dadd (Fin 0) p0))
         else (prob_a_i, probs, Fin 0))"

definition diag_weight_fp :: "conf \<Rightarrow> nat \<Rightarrow> double \<Rightarrow> nat \<Rightarrow> double" where
  "diag_weight_fp cfg src_size j_over_ts ta =
     dexp (dmul (dneg (dabs (dsub (ddiv (Fin (real ta)) (Fin (real src_size))) j_over_ts)))
             (Fin (diagonal_tension cfg)))"

definition fill_body_fp ::
  "conf \<Rightarrow> nat \<Rightarrow> double \<Rightarrow> nat \<Rightarrow> double list \<times> double \<Rightarrow> double list \<times> double" where
  "fill_body_fp cfg src_size j_over_ts = (\<lambda>ta (buf, az).
     (buf[ta := diag_weight_fp cfg src_size j_over_ts ta],
      dadd az (diag_weight_fp cfg src_size j_over_ts ta)))"

definition diag_weights_fp ::
  "conf \<Rightarrow> nat \<Rightarrow> double \<Rightarrow> double list \<Rightarrow> double list \<times> double" where
  "diag_weights_fp cfg src_size j_over_ts buf =
     (if favor_diagonal cfg then
        (let (buf, az) = fold (fill_body_fp cfg src_size j_over_ts) [0..<src_size] (buf, Fin 0)
         in (buf, ddiv az (Fin (prob_align_not_null cfg))))
      else (buf, Fin 0))"

definition cand_body_fp ::
  "conf \<Rightarrow> TTable_fp \<Rightarrow> WordID list \<Rightarrow> WordID \<Rightarrow> double list \<Rightarrow> double \<Rightarrow> nat \<Rightarrow>
     double \<times> double list \<times> double \<Rightarrow> double \<times> double list \<times> double" where
  "cand_body_fp cfg T src f_j buf az = (\<lambda>i (prob_a_i, probs, sum).
     let prob_a_i = (if favor_diagonal cfg then ddiv (buf ! (i - 1)) az else prob_a_i);
         p = dmul (prob_fp T (src ! (i - 1)) f_j) prob_a_i
     in (prob_a_i, probs[i := p], dadd sum p))"

definition candidates_fp ::
  "conf \<Rightarrow> TTable_fp \<Rightarrow> WordID list \<Rightarrow> WordID \<Rightarrow> double list \<Rightarrow> double \<Rightarrow>
     double \<times> double list \<times> double \<Rightarrow> double \<times> double list \<times> double" where
  "candidates_fp cfg T src f_j buf az =
     fold (cand_body_fp cfg T src f_j buf az) [1..<length src + 1]"

definition e_step_fp ::
  "conf \<Rightarrow> TTable_fp \<Rightarrow> WordID list \<Rightarrow> WordID list \<Rightarrow> nat \<Rightarrow> double list \<Rightarrow> double list \<Rightarrow>
     double list \<times> double \<times> double list" where
  "e_step_fp cfg T src trg j buf probs =
     (let f_j = trg ! j;
          j_over_ts = ddiv (Fin (real j)) (Fin (real (length trg)));
          (prob_a_i, probs, sum) = null_candidate_fp cfg T (length src) f_j probs;
          (buf, az) = diag_weights_fp cfg (length src) j_over_ts buf;
          (prob_a_i, probs, sum) = candidates_fp cfg T src f_j buf az (prob_a_i, probs, sum)
      in (probs, sum, buf))"

subsection \<open>The final iteration and the other iterations over \<open>double\<close>\<close>

definition argmax_body_fp ::
  "WordID list \<Rightarrow> double list \<Rightarrow> nat \<Rightarrow> WordID \<times> double \<times> int \<Rightarrow> WordID \<times> double \<times> int" where
  "argmax_body_fp src probs = (\<lambda>i (max_i, max_p, max_index).
     if dless max_p (probs ! i) then (src ! (i - 1), probs ! i, int i)
     else (max_i, max_p, max_index))"

definition viterbi_argmax_fp ::
  "conf \<Rightarrow> WordID list \<Rightarrow> double list \<Rightarrow> WordID \<times> double \<times> int" where
  "viterbi_argmax_fp cfg src probs =
     fold (argmax_body_fp src probs) [1..<length src + 1]
       (if use_null cfg then (kNULL cfg, probs ! 0, 0) else (0, Fin (- 1), - 1))"

definition align_token_fp :: "conf \<Rightarrow> nat \<Rightarrow> int \<Rightarrow> cout_item_fp" where
  "align_token_fp cfg j idx =
     (if reverse cfg then AlignPoint_fp (int j) (idx - 1) else AlignPoint_fp (idx - 1) (int j))"

definition viterbi_step_fp ::
  "conf \<Rightarrow> WordID list \<Rightarrow> nat \<Rightarrow> WordID \<Rightarrow> double list \<Rightarrow> bool \<times> state_fp \<Rightarrow> bool \<times> state_fp" where
  "viterbi_step_fp cfg src j f_j probs = (\<lambda>(first_al, st).
     let (max_i, max_p, max_index) = viterbi_argmax_fp cfg src probs;
         (first_al, st) =
           (if \<not> hide_training_alignments cfg \<and> write_alignments cfg then
              (if max_index > 0 then
                 (let st = (if first_al then st else st\<lparr>cout_fp := cout_fp st @ [Space_fp]\<rparr>)
                  in (False, st\<lparr>cout_fp := cout_fp st @ [align_token_fp cfg j max_index]\<rparr>))
               else (first_al, st))
            else (first_al, st))
     in (first_al, st\<lparr>s2t_viterbi_fp := assign_fp (s2t_viterbi_fp st) max_i f_j (Fin 1)\<rparr>))"

definition count_step_fp ::
  "conf \<Rightarrow> WordID list \<Rightarrow> WordID \<Rightarrow> double list \<Rightarrow> double \<Rightarrow> TTable_fp \<Rightarrow> TTable_fp" where
  "count_step_fp cfg src f_j probs sum_j T =
     fold (\<lambda>i T. Increment_fp T (src ! (i - 1)) f_j (ddiv (probs ! i) sum_j))
       [1..<length src + 1]
       (if use_null cfg then Increment_fp T (kNULL cfg) f_j (ddiv (probs ! 0) sum_j) else T)"

subsection \<open>One sentence pair, one line, one pass over \<open>double\<close>\<close>

definition position_fp ::
  "conf \<Rightarrow> bool \<Rightarrow> WordID list \<Rightarrow> WordID list \<Rightarrow> nat \<Rightarrow>
     double list \<times> bool \<times> state_fp \<Rightarrow> double list \<times> bool \<times> state_fp" where
  "position_fp cfg final_iteration src trg j = (\<lambda>(probs, first_al, st).
     let f_j = trg ! j;
         (probs, sum, buf) = e_step_fp cfg (s2t_fp st) src trg j (unnormed_a_i_fp st) probs;
         st = st\<lparr>unnormed_a_i_fp := buf\<rparr>;
         (first_al, st) =
           (if final_iteration then
              (if add_viterbi cfg \<or> write_alignments cfg
               then viterbi_step_fp cfg src j f_j probs (first_al, st)
               else (first_al, st))
            else (first_al, st\<lparr>s2t_fp := count_step_fp cfg src f_j probs sum (s2t_fp st)\<rparr>))
     in (probs, first_al, st\<lparr>likelihood_fp := dadd (likelihood_fp st) (dlog sum)\<rparr>))"

definition resize_fp :: "double list \<Rightarrow> nat \<Rightarrow> double list" where
  "resize_fp buf n = take n buf @ replicate (n - length buf) (Fin 0)"

definition begin_pair_fp :: "nat \<Rightarrow> WordID list \<Rightarrow> WordID list \<Rightarrow> state_fp \<Rightarrow> state_fp" where
  "begin_pair_fp iter src trg st =
     (let st = (if length src > length (unnormed_a_i_fp st)
                then st\<lparr>unnormed_a_i_fp := resize_fp (unnormed_a_i_fp st) (length src)\<rparr> else st);
          st = (if iter = 0
                then st\<lparr>tot_len_ratio_fp :=
                          dadd (tot_len_ratio_fp st)
                            (ddiv (Fin (real (length trg))) (Fin (real (length src))))\<rparr>
                else st)
      in st\<lparr>denom_fp := dadd (denom_fp st) (Fin (real (length trg)))\<rparr>)"

definition align_pair_fp ::
  "conf \<Rightarrow> nat \<Rightarrow> bool \<Rightarrow> WordID list \<Rightarrow> WordID list \<Rightarrow> state_fp \<Rightarrow> state_fp" where
  "align_pair_fp cfg iter final_iteration src trg st =
     (let (probs, first_al, st) =
             fold (position_fp cfg final_iteration src trg) [0..<length trg]
               (replicate (length src + 1) (Fin 0), True, begin_pair_fp iter src trg st)
      in if write_alignments cfg \<and> final_iteration \<and> \<not> hide_training_alignments cfg
         then st\<lparr>cout_fp := cout_fp st @ [Endl_fp]\<rparr> else st)"

definition count_line_fp :: "state_fp \<Rightarrow> state_fp" where
  "count_line_fp st =
     (let st = st\<lparr>lc_fp := lc_fp st + 1\<rparr>;
          st = (if lc_fp st mod 1000 = 0
                then st\<lparr>cerr_fp := cerr_fp st @ [Dot_fp], flag_fp := True\<rparr> else st)
      in if lc_fp st mod 50000 = 0
         then st\<lparr>cerr_fp := cerr_fp st @ [LineCount_fp (lc_fp st)], flag_fp := False\<rparr> else st)"

definition process_line_fp ::
  "env \<Rightarrow> conf \<Rightarrow> nat \<Rightarrow> bool \<Rightarrow> string \<Rightarrow> state_fp \<Rightarrow> state_fp + state_fp" where
  "process_line_fp en cfg iter final_iteration line st =
     (let st = count_line_fp st;
          (src, trg) = sides en cfg line
      in if length src = 0 \<or> length trg = 0
         then Inl (st\<lparr>cerr_fp := cerr_fp st @ [FormatError_fp (lc_fp st) line]\<rparr>)
         else Inr (align_pair_fp cfg iter final_iteration src trg st))"

fun read_loop_fp ::
  "env \<Rightarrow> conf \<Rightarrow> nat \<Rightarrow> bool \<Rightarrow> string list \<Rightarrow> state_fp \<Rightarrow> state_fp + state_fp" where
  "read_loop_fp en cfg iter final_iteration [] st = Inr st"
| "read_loop_fp en cfg iter final_iteration (line # rest) st =
     (case process_line_fp en cfg iter final_iteration line st of
        Inl st' \<Rightarrow> Inl st'
      | Inr st' \<Rightarrow> read_loop_fp en cfg iter final_iteration rest st')"

definition end_of_iteration_fp :: "env \<Rightarrow> conf \<Rightarrow> nat \<Rightarrow> bool \<Rightarrow> state_fp \<Rightarrow> state_fp" where
  "end_of_iteration_fp en cfg iter final_iteration st =
     (let base2_likelihood = ddiv (likelihood_fp st) (dlog (Fin 2));
          st = (if flag_fp st then st\<lparr>cerr_fp := cerr_fp st @ [Newline_fp]\<rparr> else st);
          st = (if iter = 0
                then (let st = st\<lparr>mean_srclen_multiplier_fp :=
                                    ddiv (tot_len_ratio_fp st) (Fin (real (lc_fp st)))\<rparr>
                      in st\<lparr>cerr_fp := cerr_fp st @
                              [ExpectedLength_fp (mean_srclen_multiplier_fp st)]\<rparr>)
                else st);
          st = st\<lparr>cerr_fp := cerr_fp st @
                 [LogE_fp (likelihood_fp st), Log2_fp base2_likelihood,
                  CrossEntropy_fp (ddiv (dneg base2_likelihood) (denom_fp st)),
                  Perplexity_fp (dpow 2 (ddiv (dneg base2_likelihood) (denom_fp st)))]\<rparr>
      in if \<not> final_iteration
         then st\<lparr>s2t_fp := (if variational_bayes cfg
                             then NormalizeVB_fp (digamma en) (s2t_fp st) (alpha cfg)
                             else Normalize_fp (s2t_fp st))\<rparr>
         else st)"

definition begin_pass_fp :: "conf \<Rightarrow> nat \<Rightarrow> state_fp \<Rightarrow> state_fp" where
  "begin_pass_fp cfg iter st =
     st\<lparr>cerr_fp := cerr_fp st @ [IterationBanner_fp (iter + 1) (final_iteration_of cfg iter)],
        likelihood_fp := Fin 0, denom_fp := Fin 0, lc_fp := 0, flag_fp := False\<rparr>"

definition iteration_fp :: "env \<Rightarrow> conf \<Rightarrow> nat \<Rightarrow> state_fp \<Rightarrow> state_fp + state_fp" where
  "iteration_fp en cfg iter st =
     (let final_iteration = final_iteration_of cfg iter
      in case read_loop_fp en cfg iter final_iteration (input en) (begin_pass_fp cfg iter st) of
           Inl st' \<Rightarrow> Inl st'
         | Inr st' \<Rightarrow> Inr (end_of_iteration_fp en cfg iter final_iteration st'))"

fun iterations_fp :: "env \<Rightarrow> conf \<Rightarrow> nat list \<Rightarrow> state_fp \<Rightarrow> state_fp + state_fp" where
  "iterations_fp en cfg [] st = Inr st"
| "iterations_fp en cfg (iter # rest) st =
     (case iteration_fp en cfg iter st of
        Inl st' \<Rightarrow> Inl st'
      | Inr st' \<Rightarrow> iterations_fp en cfg rest st')"

definition training_fp :: "env \<Rightarrow> conf \<Rightarrow> state_fp + state_fp" where
  "training_fp en cfg = iterations_fp en cfg [0..<nat (ITERATIONS cfg)] init_state_fp"

subsection \<open>The test scorer, the dump and \<open>main\<close> over \<open>double\<close>\<close>

definition test_cand_body_fp ::
  "conf \<Rightarrow> TTable_fp \<Rightarrow> WordID list \<Rightarrow> WordID \<Rightarrow> double list \<Rightarrow> double \<Rightarrow> nat \<Rightarrow>
     double \<times> double \<times> nat \<times> double \<Rightarrow> double \<times> double \<times> nat \<times> double" where
  "test_cand_body_fp cfg T src f_j buf az = (\<lambda>i (prob_a_i, max_pat, a_j, sum).
     let prob_a_i = (if favor_diagonal cfg then ddiv (buf ! (i - 1)) az else prob_a_i);
         pat = dmul (prob_fp T (src ! (i - 1)) f_j) prob_a_i;
         (max_pat, a_j) = (if dless max_pat pat then (pat, i) else (max_pat, a_j))
     in (prob_a_i, max_pat, a_j, dadd sum pat))"

definition test_candidates_fp ::
  "conf \<Rightarrow> TTable_fp \<Rightarrow> WordID list \<Rightarrow> WordID \<Rightarrow> double list \<Rightarrow> double \<Rightarrow>
     double \<times> double \<times> nat \<times> double \<Rightarrow> double \<times> double \<times> nat \<times> double" where
  "test_candidates_fp cfg T src f_j buf az =
     fold (test_cand_body_fp cfg T src f_j buf az) [1..<length src + 1]"

definition test_position_fp ::
  "conf \<Rightarrow> WordID list \<Rightarrow> WordID list \<Rightarrow> nat \<Rightarrow> double \<times> state_fp \<Rightarrow> double \<times> state_fp" where
  "test_position_fp cfg src trg j = (\<lambda>(log_prob, st).
     let f_j = trg ! j;
         j_over_ts = ddiv (Fin (real j)) (Fin (real (length trg)));
         prob_a_i = ddiv (Fin 1) (Fin (real (length src + (if use_null cfg then 1 else 0))));
         (prob_a_i, max_pat, sum) =
           (if use_null cfg then
              (let prob_a_i = (if favor_diagonal cfg then Fin (prob_align_null cfg) else prob_a_i);
                   max_pat = dmul (prob_fp (s2t_fp st) (kNULL cfg) f_j) prob_a_i
               in (prob_a_i, max_pat, dadd (Fin 0) max_pat))
            else (prob_a_i, Fin 0, Fin 0));
         (buf, az) = diag_weights_fp cfg (length src) j_over_ts (unnormed_a_i_fp st);
         st = st\<lparr>unnormed_a_i_fp := buf\<rparr>;
         (prob_a_i, max_pat, a_j, sum) =
           test_candidates_fp cfg (s2t_fp st) src f_j buf az (prob_a_i, max_pat, 0, sum);
         log_prob = dadd log_prob (dlog sum);
         st = (if write_alignments cfg \<and> a_j > 0
               then st\<lparr>cout_fp := cout_fp st @ [Space_fp, align_token_fp cfg j (int a_j)]\<rparr>
               else st)
     in (log_prob, st))"

definition test_line_fp :: "env \<Rightarrow> conf \<Rightarrow> string \<Rightarrow> double \<times> state_fp \<Rightarrow> double \<times> state_fp" where
  "test_line_fp en cfg line = (\<lambda>(tlp, st).
     let (src, trg) = ReadLine en line;
         st = st\<lparr>cout_fp := cout_fp st @ [TestPair_fp src trg]\<rparr>;
         (src, trg) = (if reverse cfg then (trg, src) else (src, trg));
         log_prob = dlift (log_poisson en (length trg))
                      (dadd (Fin (5 / 100))
                         (dmul (Fin (real (length src))) (mean_srclen_multiplier_fp st)));
         st = (if length src > length (unnormed_a_i_fp st)
               then st\<lparr>unnormed_a_i_fp := resize_fp (unnormed_a_i_fp st) (length src)\<rparr> else st);
         (log_prob, st) = fold (test_position_fp cfg src trg) [0..<length trg] (log_prob, st)
     in (dadd tlp log_prob, st\<lparr>cout_fp := cout_fp st @ [TestScore_fp log_prob]\<rparr>))"

definition test_scorer_fp :: "env \<Rightarrow> conf \<Rightarrow> state_fp \<Rightarrow> state_fp" where
  "test_scorer_fp en cfg st =
     (let (tlp, st) = fold (test_line_fp en cfg) (testset_lines en) (Fin 0, st)
      in st\<lparr>cerr_fp := cerr_fp st @ [TotalLogProb_fp tlp]\<rparr>)"

definition dump_max_p_fp :: "Word2Double_fp \<Rightarrow> double" where
  "dump_max_p_fp cpd =
     fold (\<lambda>fi max_p. if dless max_p (snd fi) then snd fi else max_p) cpd (Fin (- 1))"

definition dump_entry_fp :: "conf \<Rightarrow> WordID \<times> Word2Double_fp \<Rightarrow> state_fp \<Rightarrow> state_fp" where
  "dump_entry_fp cfg ei st =
     (let cpd = snd ei;
          st = st\<lparr>s2t_viterbi_fp :=
                   AList.map_default (fst ei) [] (\<lambda>v. v) (s2t_viterbi_fp st)\<rparr>;
          vit = (case map_of (s2t_viterbi_fp st) (fst ei) of None \<Rightarrow> [] | Some v \<Rightarrow> v);
          max_p = dump_max_p_fp cpd;
          threshold = dmul max_p (BEAM_THRESHOLD_fp cfg)
      in fold (\<lambda>fi st.
                 if dless threshold (snd fi) \<or> map_of vit (fst fi) \<noteq> None
                 then st\<lparr>cout_fp := cout_fp st @ [Param_fp (fst ei) (fst fi) (dlog (snd fi))]\<rparr>
                 else st)
           cpd st)"

definition dump_fp :: "conf \<Rightarrow> state_fp \<Rightarrow> state_fp" where
  "dump_fp cfg st = fold (dump_entry_fp cfg) (ttable_fp (s2t_fp st)) st"

definition main_fp :: "env \<Rightarrow> conf \<Rightarrow> int \<times> state_fp" where
  "main_fp en cfg =
     (if variational_bayes cfg \<and> alpha cfg \<le> 0
      then (1, init_state_fp\<lparr>cerr_fp := [AlphaError_fp]\<rparr>)
      else case training_fp en cfg of
             Inl st \<Rightarrow> (1, st)
           | Inr st \<Rightarrow>
               (let st = (if testset cfg \<noteq> [] then test_scorer_fp en cfg st else st)
                in if write_alignments cfg then (0, st) else (0, dump_fp cfg st)))"

subsection \<open>Runs over a corpus, over \<open>double\<close>\<close>

definition outcome_fp :: "state_fp + state_fp \<Rightarrow> state_fp" where
  "outcome_fp r = (case r of Inl st \<Rightarrow> st | Inr st \<Rightarrow> st)"

definition line_step_fp :: "env \<Rightarrow> conf \<Rightarrow> nat \<Rightarrow> bool \<Rightarrow> string \<Rightarrow> state_fp \<Rightarrow> state_fp" where
  "line_step_fp en cfg iter fin line st =
     align_pair_fp cfg iter fin (fst (sides en cfg line)) (snd (sides en cfg line))
       (count_line_fp st)"

definition pass_lines_fp :: "env \<Rightarrow> conf \<Rightarrow> nat \<Rightarrow> state_fp \<Rightarrow> state_fp" where
  "pass_lines_fp en cfg iter st =
     fold (line_step_fp en cfg iter (final_iteration_of cfg iter)) (input en)
       (begin_pass_fp cfg iter st)"

definition pass_result_fp :: "env \<Rightarrow> conf \<Rightarrow> nat \<Rightarrow> state_fp \<Rightarrow> state_fp" where
  "pass_result_fp en cfg iter st =
     end_of_iteration_fp en cfg iter (final_iteration_of cfg iter) (pass_lines_fp en cfg iter st)"

definition begin_test_line_fp :: "env \<Rightarrow> conf \<Rightarrow> string \<Rightarrow> state_fp \<Rightarrow> state_fp" where
  "begin_test_line_fp en cfg line st =
     (let st = st\<lparr>cout_fp := cout_fp st @
                   [TestPair_fp (fst (ReadLine en line)) (snd (ReadLine en line))]\<rparr>
      in if length (fst (sides en cfg line)) > length (unnormed_a_i_fp st)
         then st\<lparr>unnormed_a_i_fp :=
                   resize_fp (unnormed_a_i_fp st) (length (fst (sides en cfg line)))\<rparr>
         else st)"

text \<open>
  The scores that the test scorer wrote, in order; the state in which the scorer
  reaches the line \<open>k\<close> of the test set when it starts in \<open>st\<close>; and the score of a line
  computed with the value \<open>m\<close> for \<open>mean_srclen_multiplier\<close>: the initial value of
  \<open>log_prob\<close> is \<open>log_poisson(trg.size(), 0.05 + src.size() * m)\<close>, to which the loop over
  the target positions adds \<open>log(sum)\<close>.
\<close>

definition scores :: "cout_item_fp list \<Rightarrow> double list" where
  "scores out = concat (map (\<lambda>x. case x of TestScore_fp d \<Rightarrow> [d] | _ \<Rightarrow> []) out)"

definition scorer_state :: "env \<Rightarrow> conf \<Rightarrow> state_fp \<Rightarrow> nat \<Rightarrow> state_fp" where
  "scorer_state en cfg st k =
     snd (fold (test_line_fp en cfg) (take k (testset_lines en)) (Fin 0, st))"

definition line_score :: "env \<Rightarrow> conf \<Rightarrow> double \<Rightarrow> string \<Rightarrow> state_fp \<Rightarrow> double" where
  "line_score en cfg m line st =
     fst (fold (test_position_fp cfg (fst (sides en cfg line)) (snd (sides en cfg line)))
            [0..<length (snd (sides en cfg line))]
            (dlift (log_poisson en (length (snd (sides en cfg line))))
               (dadd (Fin (5 / 100)) (dmul (Fin (real (length (fst (sides en cfg line))))) m)),
             begin_test_line_fp en cfg line st))"

subsection \<open>Where the two readings of \<open>double\<close> agree\<close>

text \<open>
  \<open>exp(x)\<close> is well inside the range of \<open>double\<close>: between \<open>2\<^sup>-\<^sup>5\<^sup>1\<^sup>2\<close> and \<open>2\<^sup>5\<^sup>1\<^sup>2\<close>, that is
  \<open>|x| \<le> 512 \<cdot> ln 2\<close>, about \<open>354.9\<close>. The tension is in range when this holds for
  \<open>exp(-|\<tau>|)\<close> and \<open>exp(|\<tau>|)\<close>: then every weight \<open>exp(-|(i-1)/I - j/J| \<cdot> \<tau>)\<close> is a
  normal number, none underflows to zero or overflows, and the sums and quotients of
  the weights of a sentence stay finite. The run is in range when the tension is (if
  the diagonal is favoured) and the exponentials of \<open>normalize_vb\<close> are (if it is used).
\<close>

definition exp_ok :: "real \<Rightarrow> bool" where
  "exp_ok x = (1 / 2 ^ 512 \<le> exp x \<and> exp x \<le> 2 ^ 512)"

definition tension_ok :: "conf \<Rightarrow> bool" where
  "tension_ok cfg = (exp_ok (- \<bar>diagonal_tension cfg\<bar>) \<and> exp_ok \<bar>diagonal_tension cfg\<bar>)"

definition range_ok :: "env \<Rightarrow> conf \<Rightarrow> bool" where
  "range_ok en cfg =
     ((favor_diagonal cfg \<longrightarrow> tension_ok cfg) \<and>
      (variational_bayes cfg \<longrightarrow> (\<forall>x y. exp_ok (digamma en x - digamma en y))))"

text \<open>
  The embedding of the real numbers into \<open>double\<close>, on rows, maps, tables and output
  items; and the relation between a state of the real reading and one of the
  \<open>double\<close> reading: they agree on everything but \<open>cerr\<close> and
  \<open>mean_srclen_multiplier\<close>, which the training never reads.
\<close>

definition emb_row :: "Word2Double \<Rightarrow> Word2Double_fp" where
  "emb_row cpd = map (\<lambda>fv. (fst fv, Fin (snd fv))) cpd"

definition emb_map :: "Word2Word2Double \<Rightarrow> Word2Word2Double_fp" where
  "emb_map m = map (\<lambda>ec. (fst ec, emb_row (snd ec))) m"

definition emb_table :: "TTable \<Rightarrow> TTable_fp" where
  "emb_table T = \<lparr>ttable_fp = emb_map (ttable T), counts_fp = emb_map (counts T)\<rparr>"

fun emb_out :: "cout_item \<Rightarrow> cout_item_fp" where
  "emb_out (AlignPoint a b) = AlignPoint_fp a b"
| "emb_out Space = Space_fp"
| "emb_out Endl = Endl_fp"
| "emb_out (TestPair s t) = TestPair_fp s t"
| "emb_out (TestScore x) = TestScore_fp (Fin x)"
| "emb_out (Param e f v) = Param_fp e f (Fin v)"

definition sim :: "state \<Rightarrow> state_fp \<Rightarrow> bool" where
  "sim st sf =
     (s2t_fp sf = emb_table (s2t st) \<and> s2t_viterbi_fp sf = emb_map (s2t_viterbi st) \<and>
      tot_len_ratio_fp sf = Fin (tot_len_ratio st) \<and>
      unnormed_a_i_fp sf = map Fin (unnormed_a_i st) \<and>
      likelihood_fp sf = Fin (likelihood st) \<and> denom_fp sf = Fin (denom st) \<and>
      lc_fp sf = lc st \<and> flag_fp sf = flag st \<and> cout_fp sf = map emb_out (cout st))"

definition sim3 :: "real list \<times> bool \<times> state \<Rightarrow> double list \<times> bool \<times> state_fp \<Rightarrow> bool" where
  "sim3 p q =
     (fst q = map Fin (fst p) \<and> fst (snd q) = fst (snd p) \<and> sim (snd (snd p)) (snd (snd q)))"

subsection \<open>The shape of the alignment output, over \<open>double\<close>\<close>






subsection \<open>Example inputs with a large tension\<close>



section \<open>Properties\<close>

subsection \<open>The loops of the E-step\<close>

lemma fold_from_1_Suc: "fold f [1..<Suc n + 1] s = f (Suc n) (fold f [1..<n + 1] s)"
  by simp

lemma fold_from_0_Suc: "fold f [0..<Suc n] s = f n (fold f [0..<n] s)"
  by simp

lemma fill_fold:
  "n \<le> length buf \<Longrightarrow> fold (fill_body cfg N jt) [0..<n] (buf, az) = (buf', az') \<Longrightarrow>
   length buf' = length buf \<and> (\<forall>ta<n. buf' ! ta = diag_weight cfg N jt ta) \<and>
   az' = az + (\<Sum>ta<n. diag_weight cfg N jt ta)"
proof (induction n arbitrary: buf' az')
  case 0
  then show ?case by simp
next
  case (Suc n)
  obtain b a where prev: "fold (fill_body cfg N jt) [0..<n] (buf, az) = (b, a)"
    by (metis surj_pair)
  from Suc.prems have "n \<le> length buf" by simp
  from Suc.IH[OF this prev] have L: "length b = length buf"
    and V: "\<forall>ta<n. b ! ta = diag_weight cfg N jt ta"
    and A: "a = az + (\<Sum>ta<n. diag_weight cfg N jt ta)" by blast+
  have "fold (fill_body cfg N jt) [0..<Suc n] (buf, az) = fill_body cfg N jt n (b, a)"
    by (simp only: fold_from_0_Suc prev)
  with Suc.prems have eq: "buf' = b[n := diag_weight cfg N jt n]" "az' = a + diag_weight cfg N jt n"
    by (simp_all add: fill_body_def)
  have "n < length b" using Suc.prems L by simp
  then have "\<forall>ta<Suc n. buf' ! ta = diag_weight cfg N jt ta"
    using V eq by (auto simp: nth_list_update less_Suc_eq)
  moreover have "length buf' = length buf" using eq L by simp
  moreover have "az' = az + (\<Sum>ta<Suc n. diag_weight cfg N jt ta)" using eq A by simp
  ultimately show ?case by blast
qed

lemma cand_fold:
  "n < length probs \<Longrightarrow>
   fold (cand_body cfg T src f buf az) [1..<n + 1] (pa, probs, s) = (pa', probs', s') \<Longrightarrow>
   length probs' = length probs \<and> probs' ! 0 = probs ! 0 \<and>
   (\<forall>i. 1 \<le> i \<and> i \<le> n \<longrightarrow> probs' ! i = cand_term cfg T src f buf az pa i) \<and>
   s' = s + (\<Sum>i = 1..n. cand_term cfg T src f buf az pa i) \<and>
   (\<not> favor_diagonal cfg \<longrightarrow> pa' = pa)"
proof (induction n arbitrary: pa' probs' s')
  case 0
  then show ?case by simp
next
  case (Suc n)
  obtain a b c where prev: "fold (cand_body cfg T src f buf az) [1..<n + 1] (pa, probs, s) = (a, b, c)"
    by (metis prod_cases3)
  from Suc.prems have "n < length probs" by simp
  from Suc.IH[OF this prev] have L: "length b = length probs" and Z: "b ! 0 = probs ! 0"
    and V: "\<forall>i. 1 \<le> i \<and> i \<le> n \<longrightarrow> b ! i = cand_term cfg T src f buf az pa i"
    and S: "c = s + (\<Sum>i = 1..n. cand_term cfg T src f buf az pa i)"
    and P: "\<not> favor_diagonal cfg \<longrightarrow> a = pa" by blast+
  have "fold (cand_body cfg T src f buf az) [1..<Suc n + 1] (pa, probs, s)
          = cand_body cfg T src f buf az (Suc n) (a, b, c)"
    by (simp only: fold_from_1_Suc prev)
  with Suc.prems have eq0: "cand_body cfg T src f buf az (Suc n) (a, b, c) = (pa', probs', s')"
    by simp
  have ct: "prob T (src ! n) f * (if favor_diagonal cfg then buf ! n / az else a)
              = cand_term cfg T src f buf az pa (Suc n)"
    using P by (simp add: cand_term_def)
  from eq0 have eq: "probs' = b[Suc n := cand_term cfg T src f buf az pa (Suc n)]"
    "s' = c + cand_term cfg T src f buf az pa (Suc n)"
    "\<not> favor_diagonal cfg \<longrightarrow> pa' = pa"
    using P by (auto simp add: cand_body_def Let_def cand_term_def)
  have lt: "Suc n < length b" using Suc.prems L by simp
  have v: "\<forall>i. 1 \<le> i \<and> i \<le> Suc n \<longrightarrow> probs' ! i = cand_term cfg T src f buf az pa i"
    using V eq(1) lt by (auto simp: nth_list_update le_Suc_eq)
  have z: "probs' ! 0 = probs ! 0" using Z eq(1) by simp
  have l: "length probs' = length probs" using L eq(1) by simp
  have s: "s' = s + (\<Sum>i = 1..Suc n. cand_term cfg T src f buf az pa i)"
    using S eq(2) by simp
  show ?case using l z v s eq(3) by blast
qed

lemma null_candidate_facts:
  assumes "0 < length probs" "null_candidate cfg T I f probs = (pa0, probs0, s0)"
  shows "length probs0 = length probs"
    and "probs0 ! 0 = (if use_null cfg then prob T (kNULL cfg) f * prior_null cfg I else probs ! 0)"
    and "s0 = (if use_null cfg then prob T (kNULL cfg) f * prior_null cfg I else 0)"
    and "\<not> favor_diagonal cfg \<Longrightarrow> pa0 = 1 / real (I + (if use_null cfg then 1 else 0))"
  using assms by (auto simp: null_candidate_def Let_def prior_null_def split: if_splits)

lemma diag_weights_facts:
  assumes "I \<le> length buf" "diag_weights cfg I jt buf = (buf1, az)"
  shows "length buf1 = length buf"
    and "favor_diagonal cfg \<Longrightarrow> \<forall>ta<I. buf1 ! ta = diag_weight cfg I jt ta"
    and "favor_diagonal cfg \<Longrightarrow> az = prior_Z cfg I jt"
proof -
  obtain b a where f: "fold (fill_body cfg I jt) [0..<I] (buf, 0) = (b, a)"
    by (metis surj_pair)
  note ff = fill_fold[OF assms(1) f]
  show "length buf1 = length buf"
    using assms(2) ff f by (auto simp: diag_weights_def split: if_splits)
  show "favor_diagonal cfg \<Longrightarrow> \<forall>ta<I. buf1 ! ta = diag_weight cfg I jt ta"
    using assms(2) ff f by (auto simp: diag_weights_def split: if_splits)
  show "favor_diagonal cfg \<Longrightarrow> az = prior_Z cfg I jt"
    using assms(2) ff f by (auto simp: diag_weights_def weight_sum_def prior_Z_def prob_align_not_null_def split: if_splits)
qed

lemma e_step_char:
  assumes lp: "length probs = length src + 1" and lb: "length src \<le> length buf"
    and es: "e_step cfg T src trg j buf probs = (probs', sm, buf')"
  shows "length probs' = length probs \<and> length buf' = length buf \<and>
     probs' ! 0 = (if use_null cfg then prob T (kNULL cfg) (trg ! j) * prior_null cfg (length src)
                   else probs ! 0) \<and>
     (\<forall>i. 1 \<le> i \<and> i \<le> length src \<longrightarrow>
        probs' ! i = prob T (src ! (i - 1)) (trg ! j) *
                       prior_at cfg (length src) (real j / real (length trg)) i) \<and>
     sm = (if use_null cfg then prob T (kNULL cfg) (trg ! j) * prior_null cfg (length src) else 0)
            + (\<Sum>i = 1..length src. prob T (src ! (i - 1)) (trg ! j) *
                       prior_at cfg (length src) (real j / real (length trg)) i)"
proof -
  let ?f = "trg ! j" and ?jt = "real j / real (length trg)" and ?I = "length src"
  obtain pa0 probs0 s0 where nc: "null_candidate cfg T ?I ?f probs = (pa0, probs0, s0)"
    by (metis prod_cases3)
  obtain buf1 az where dw: "diag_weights cfg ?I ?jt buf = (buf1, az)"
    by (metis surj_pair)
  obtain pa1 probs1 s1 where cd:
    "fold (cand_body cfg T src ?f buf1 az) [1..<?I + 1] (pa0, probs0, s0) = (pa1, probs1, s1)"
    by (metis prod_cases3)
  from es nc dw cd have res: "probs' = probs1" "sm = s1" "buf' = buf1"
    by (simp_all add: e_step_def candidates_def)
  have p0: "0 < length probs" using lp by simp
  note N = null_candidate_facts[OF p0 nc]
  note D = diag_weights_facts[OF lb dw]
  have "?I < length probs0" using N(1) lp by simp
  note C = cand_fold[OF this cd]
  have tm: "\<And>i. 1 \<le> i \<and> i \<le> ?I \<Longrightarrow>
       cand_term cfg T src ?f buf1 az pa0 i = prob T (src ! (i - 1)) ?f * prior_at cfg ?I ?jt i"
  proof -
    fix i assume i: "1 \<le> i \<and> i \<le> ?I"
    show "cand_term cfg T src ?f buf1 az pa0 i = prob T (src ! (i - 1)) ?f * prior_at cfg ?I ?jt i"
    proof (cases "favor_diagonal cfg")
      case True
      from i have "i - 1 < ?I" by linarith
      with D(2)[OF True] have "buf1 ! (i - 1) = diag_weight cfg ?I ?jt (i - 1)" by blast
      then show ?thesis using True D(3)[OF True] by (simp add: cand_term_def prior_at_def)
    next
      case False
      then show ?thesis using N(4)[OF False] by (simp add: cand_term_def prior_at_def)
    qed
  qed
  have a: "length probs' = length probs" using C N(1) res by simp
  have b: "length buf' = length buf" using D(1) res by simp
  have c: "probs' ! 0 = (if use_null cfg then prob T (kNULL cfg) ?f * prior_null cfg ?I else probs ! 0)"
    using C N(2) res by simp
  have d: "\<forall>i. 1 \<le> i \<and> i \<le> ?I \<longrightarrow> probs' ! i = prob T (src ! (i - 1)) ?f * prior_at cfg ?I ?jt i"
    using C tm res by simp
  have "(\<Sum>i = 1..?I. cand_term cfg T src ?f buf1 az pa0 i)
          = (\<Sum>i = 1..?I. prob T (src ! (i - 1)) ?f * prior_at cfg ?I ?jt i)"
    by (rule sum.cong) (simp_all add: tm)
  then have e: "sm = (if use_null cfg then prob T (kNULL cfg) ?f * prior_null cfg ?I else 0)
            + (\<Sum>i = 1..?I. prob T (src ! (i - 1)) ?f * prior_at cfg ?I ?jt i)"
    using C N(3) res by simp
  show ?thesis using a b c d e by blast
qed



lemma weight_sum_pos: "0 < I \<Longrightarrow> 0 < weight_sum cfg I jt"
  unfolding weight_sum_def
  by (rule sum_pos) (auto simp: diag_weight_def)


subsection \<open>The diagonal prior\<close>

text \<open>
  C3. Without the NULL word, with \<open>favor_diagonal\<close>, tension \<open>0\<close> and the default
  \<open>prob_align_null = 0.08\<close>, the E-step of the pair \<open>([1], [2])\<close> multiplies the only
  candidate by \<open>0.92\<close>, whereas with \<open>favor_diagonal\<close> off it multiplies it by the
  uniform \<open>1 / I = 1\<close>: the division \<open>az /= prob_align_not_null\<close> is not conditional on
  \<open>use_null\<close>.
\<close>

theorem tension_zero_prior_not_uniform:
  "(case e_step (default_conf\<lparr>use_null := False, favor_diagonal := True, diagonal_tension := 0\<rparr>)
           empty_TTable [1] [2] 0 [0] [0, 0] of
      (probs', sm, buf') \<Rightarrow> probs' ! 1 = prob empty_TTable 1 2 * (92 / 100)) \<and>
   (case e_step (default_conf\<lparr>use_null := False, favor_diagonal := False, diagonal_tension := 0\<rparr>)
           empty_TTable [1] [2] 0 [0] [0, 0] of
      (probs', sm, buf') \<Rightarrow> probs' ! 1 = prob empty_TTable 1 2 * 1)"
proof -
  let ?d = "default_conf\<lparr>use_null := False, favor_diagonal := True, diagonal_tension := 0\<rparr>"
  let ?u = "default_conf\<lparr>use_null := False, favor_diagonal := False, diagonal_tension := 0\<rparr>"
  obtain p s b where e: "e_step ?d empty_TTable [1] [2] 0 [0] [0, 0] = (p, s, b)"
    by (metis prod_cases3)
  obtain p' s' b' where e': "e_step ?u empty_TTable [1] [2] 0 [0] [0, 0] = (p', s', b')"
    by (metis prod_cases3)
  have l: "length [0, 0 :: real] = length [1 :: nat] + 1" "length [1 :: nat] \<le> length [0 :: real]"
    by simp_all
  have "prior_at ?d 1 0 1 = 92 / 100"
    by (simp add: prior_at_def prior_Z_def weight_sum_def diag_weight_def default_conf_def)
  moreover have "prior_at ?u 1 0 1 = 1"
    by (simp add: prior_at_def default_conf_def)
  ultimately show ?thesis
    using e_step_char[OF l e] e_step_char[OF l e'] unfolding e e' by simp
qed

subsection \<open>The Viterbi argmax\<close>

lemma argmax_fold:
  "fold (argmax_body src probs) [1..<n + 1] (i0, p0, x0) = (mi, mp, mx) \<Longrightarrow>
   (\<forall>i. 1 \<le> i \<and> i \<le> n \<longrightarrow> probs ! i \<le> mp) \<and> p0 \<le> mp \<and>
   ((mx = x0 \<and> mp = p0 \<and> mi = i0) \<or>
    (1 \<le> mx \<and> mx \<le> int n \<and> mp = probs ! nat mx \<and> p0 < mp \<and> mi = src ! (nat mx - 1) \<and>
     (\<forall>i. 1 \<le> i \<and> i < nat mx \<longrightarrow> probs ! i < mp)))"
proof (induction n arbitrary: mi mp mx)
  case 0
  then show ?case by simp
next
  case (Suc n)
  obtain mi' mp' mx' where prev:
    "fold (argmax_body src probs) [1..<n + 1] (i0, p0, x0) = (mi', mp', mx')"
    by (metis prod_cases3)
  from Suc.IH[OF prev] have
    A: "\<forall>i. 1 \<le> i \<and> i \<le> n \<longrightarrow> probs ! i \<le> mp'" and B: "p0 \<le> mp'" and
    C: "(mx' = x0 \<and> mp' = p0 \<and> mi' = i0) \<or>
    (1 \<le> mx' \<and> mx' \<le> int n \<and> mp' = probs ! nat mx' \<and> p0 < mp' \<and> mi' = src ! (nat mx' - 1) \<and>
     (\<forall>i. 1 \<le> i \<and> i < nat mx' \<longrightarrow> probs ! i < mp'))"
    by blast+
  have "fold (argmax_body src probs) [1..<Suc n + 1] (i0, p0, x0) = argmax_body src probs (Suc n) (mi', mp', mx')"
    by (simp only: fold_from_1_Suc prev)
  with Suc.prems have step: "argmax_body src probs (Suc n) (mi', mp', mx') = (mi, mp, mx)"
    by simp
  show ?case
  proof (cases "probs ! Suc n > mp'")
    case True
    with step have eq: "mi = src ! n" "mp = probs ! Suc n" "mx = int (Suc n)"
      by (simp_all add: argmax_body_def)
    have a: "\<forall>i. 1 \<le> i \<and> i \<le> Suc n \<longrightarrow> probs ! i \<le> mp"
    proof (intro allI impI)
      fix i assume "1 \<le> i \<and> i \<le> Suc n"
      then consider "i = Suc n" | "1 \<le> i \<and> i \<le> n" by linarith
      then show "probs ! i \<le> mp"
      proof cases
        case 1 then show ?thesis using eq by simp
      next
        case 2 then have "probs ! i \<le> mp'" using A by blast
        then show ?thesis using True eq by linarith
      qed
    qed
    have nx: "nat mx = Suc n" unfolding eq(3) by (rule nat_int)
    have b: "\<forall>i. 1 \<le> i \<and> i < nat mx \<longrightarrow> probs ! i < mp"
    proof (intro allI impI)
      fix i assume "1 \<le> i \<and> i < nat mx"
      then have "1 \<le> i \<and> i \<le> n" unfolding nx by simp
      then have "probs ! i \<le> mp'" using A by blast
      then show "probs ! i < mp" using True eq by linarith
    qed
    have c: "p0 < mp" using B True eq by linarith
    have d: "1 \<le> mx" "mx \<le> int (Suc n)" "mp = probs ! nat mx" "mi = src ! (nat mx - 1)"
      unfolding nx using eq by simp_all
    show ?thesis using a b c d by simp
  next
    case False
    with step have eq: "mi = mi'" "mp = mp'" "mx = mx'"
      by (simp_all add: argmax_body_def)
    have a: "\<forall>i. 1 \<le> i \<and> i \<le> Suc n \<longrightarrow> probs ! i \<le> mp"
    proof (intro allI impI)
      fix i assume "1 \<le> i \<and> i \<le> Suc n"
      then consider "i = Suc n" | "1 \<le> i \<and> i \<le> n" by linarith
      then show "probs ! i \<le> mp"
      proof cases
        case 1 then show ?thesis using eq False by simp
      next
        case 2 then show ?thesis using A eq by blast
      qed
    qed
    from C have c: "(mx = x0 \<and> mp = p0 \<and> mi = i0) \<or>
    (1 \<le> mx \<and> mx \<le> int (Suc n) \<and> mp = probs ! nat mx \<and> p0 < mp \<and> mi = src ! (nat mx - 1) \<and>
     (\<forall>i. 1 \<le> i \<and> i < nat mx \<longrightarrow> probs ! i < mp))"
      unfolding eq by (elim disjE conjE) simp_all
    show ?thesis using a B c unfolding eq by blast
  qed
qed



lemma viterbi_argmax_facts:
  assumes "viterbi_argmax cfg src probs = (max_i, max_p, max_index)"
  shows "(\<forall>i. 1 \<le> i \<and> i \<le> length src \<longrightarrow> probs ! i \<le> max_p)"
    and "use_null cfg \<Longrightarrow> probs ! 0 \<le> max_p"
    and "use_null cfg \<Longrightarrow> 0 \<le> max_index \<and> max_index \<le> int (length src) \<and>
           max_p = probs ! nat max_index \<and> (\<forall>i. i < nat max_index \<longrightarrow> probs ! i < max_p) \<and>
           max_i = (if max_index = 0 then kNULL cfg else src ! (nat max_index - 1))"
    and "\<not> use_null cfg \<Longrightarrow>
           (max_index = - 1 \<and> max_p = - 1 \<and> max_i = 0) \<or>
           (1 \<le> max_index \<and> max_index \<le> int (length src) \<and> max_p = probs ! nat max_index \<and>
            - 1 < max_p \<and> (\<forall>i. 1 \<le> i \<and> i < nat max_index \<longrightarrow> probs ! i < max_p) \<and>
            max_i = src ! (nat max_index - 1))"
proof -
  show "\<forall>i. 1 \<le> i \<and> i \<le> length src \<longrightarrow> probs ! i \<le> max_p"
  proof (cases "use_null cfg")
    case True
    with assms have "fold (argmax_body src probs) [1..<length src + 1] (kNULL cfg, probs ! 0, 0)
        = (max_i, max_p, max_index)" by (simp add: viterbi_argmax_def)
    from argmax_fold[OF this] show ?thesis by blast
  next
    case False
    with assms have "fold (argmax_body src probs) [1..<length src + 1] (0, - 1, - 1)
        = (max_i, max_p, max_index)" by (simp add: viterbi_argmax_def)
    from argmax_fold[OF this] show ?thesis by blast
  qed
next
  assume u: "use_null cfg"
  with assms have f: "fold (argmax_body src probs) [1..<length src + 1] (kNULL cfg, probs ! 0, 0)
        = (max_i, max_p, max_index)" by (simp add: viterbi_argmax_def)
  note A = argmax_fold[OF f]
  from A show "probs ! 0 \<le> max_p" by blast
  from A have C: "(max_index = 0 \<and> max_p = probs ! 0 \<and> max_i = kNULL cfg) \<or>
    (1 \<le> max_index \<and> max_index \<le> int (length src) \<and> max_p = probs ! nat max_index \<and>
     probs ! 0 < max_p \<and> max_i = src ! (nat max_index - 1) \<and>
     (\<forall>i. 1 \<le> i \<and> i < nat max_index \<longrightarrow> probs ! i < max_p))" by blast
  then show "0 \<le> max_index \<and> max_index \<le> int (length src) \<and>
           max_p = probs ! nat max_index \<and> (\<forall>i. i < nat max_index \<longrightarrow> probs ! i < max_p) \<and>
           max_i = (if max_index = 0 then kNULL cfg else src ! (nat max_index - 1))"
  proof (elim disjE conjE)
    assume "max_index = 0" "max_p = probs ! 0" "max_i = kNULL cfg"
    then show ?thesis by simp
  next
    assume h: "1 \<le> max_index" "max_index \<le> int (length src)" "max_p = probs ! nat max_index"
      "probs ! 0 < max_p" "max_i = src ! (nat max_index - 1)"
      "\<forall>i. 1 \<le> i \<and> i < nat max_index \<longrightarrow> probs ! i < max_p"
    have "\<forall>i. i < nat max_index \<longrightarrow> probs ! i < max_p"
    proof (intro allI impI)
      fix i assume "i < nat max_index"
      then show "probs ! i < max_p" using h(4) h(6) by (cases "i = 0") auto
    qed
    then show ?thesis using h by simp
  qed
next
  assume u: "\<not> use_null cfg"
  with assms have f: "fold (argmax_body src probs) [1..<length src + 1] (0, - 1, - 1)
        = (max_i, max_p, max_index)" by (simp add: viterbi_argmax_def)
  from argmax_fold[OF f] show "(max_index = - 1 \<and> max_p = - 1 \<and> max_i = 0) \<or>
           (1 \<le> max_index \<and> max_index \<le> int (length src) \<and> max_p = probs ! nat max_index \<and>
            - 1 < max_p \<and> (\<forall>i. 1 \<le> i \<and> i < nat max_index \<longrightarrow> probs ! i < max_p) \<and>
            max_i = src ! (nat max_index - 1))" by blast
qed

text \<open>
  C8. The argmax of the final iteration returns the first index that attains the
  maximum: every candidate is at most \<open>max_p\<close> and every candidate before \<open>max_index\<close>
  is strictly below it. With the NULL word the search starts from the NULL candidate
  \<open>probs[0]\<close> at index \<open>0\<close>; without it the search starts from \<open>max_p = -1\<close>,
  \<open>max_index = -1\<close> and looks at the indices from \<open>1\<close> only.
\<close>

theorem argmax_first_index_wins:
  "case viterbi_argmax cfg src probs of (max_i, max_p, max_index) \<Rightarrow>
     (\<forall>i. 1 \<le> i \<and> i \<le> length src \<longrightarrow> probs ! i \<le> max_p) \<and>
     (use_null cfg \<longrightarrow>
        0 \<le> max_index \<and> max_index \<le> int (length src) \<and> max_p = probs ! nat max_index \<and>
        probs ! 0 \<le> max_p \<and> (\<forall>i. i < nat max_index \<longrightarrow> probs ! i < max_p) \<and>
        max_i = (if max_index = 0 then kNULL cfg else src ! (nat max_index - 1))) \<and>
     (\<not> use_null cfg \<longrightarrow>
        (max_index = - 1 \<and> max_p = - 1 \<and> max_i = 0) \<or>
        (1 \<le> max_index \<and> max_index \<le> int (length src) \<and> max_p = probs ! nat max_index \<and>
         - 1 < max_p \<and> (\<forall>i. 1 \<le> i \<and> i < nat max_index \<longrightarrow> probs ! i < max_p) \<and>
         max_i = src ! (nat max_index - 1)))"
proof -
  obtain max_i max_p max_index where v: "viterbi_argmax cfg src probs = (max_i, max_p, max_index)"
    by (metis prod_cases3)
  note F = viterbi_argmax_facts[OF v]
  show ?thesis
  proof (cases "use_null cfg")
    case True
    from F(1) F(2)[OF True] F(3)[OF True] show ?thesis unfolding v using True by auto
  next
    case False
    from F(1) F(4)[OF False] show ?thesis unfolding v using False by auto
  qed
qed

theorem argmax_first_index_wins_witness:
  "use_null default_conf \<and>
   viterbi_argmax default_conf [5, 6] [1 / 4, 1 / 2, 1 / 2] = (5, 1 / 2, 1) \<and>
   [1 / 4, 1 / 2, 1 / 2 :: real] ! 2 \<le> 1 / 2 \<and> [1 / 4, 1 / 2, 1 / 2 :: real] ! 0 < 1 / 2"
proof -
  have v: "viterbi_argmax default_conf [5, 6] [1 / 4, 1 / 2, 1 / 2] = (5, 1 / 2, 1)"
    by (simp add: viterbi_argmax_def argmax_body_def default_conf_def)
  have u: "use_null default_conf" by (simp add: default_conf_def)
  from argmax_first_index_wins[where cfg = default_conf and src = "[5, 6]"
      and probs = "[1 / 4, 1 / 2, 1 / 2]"]
  have "(\<forall>i. 1 \<le> i \<and> i \<le> length [5::nat, 6] \<longrightarrow> [1 / 4, 1 / 2, 1 / 2 :: real] ! i \<le> 1 / 2) \<and>
        (\<forall>i. i < nat 1 \<longrightarrow> [1 / 4, 1 / 2, 1 / 2 :: real] ! i < 1 / 2)"
    unfolding v using u by simp
  then have "[1 / 4, 1 / 2, 1 / 2 :: real] ! 2 \<le> 1 / 2 \<and> [1 / 4, 1 / 2, 1 / 2 :: real] ! 0 < 1 / 2"
    by simp
  with u v show ?thesis by blast
qed

subsection \<open>Passes, lines and early return\<close>

lemma fold_preserves: "(\<And>x s. g (f x s) = g s) \<Longrightarrow> g (fold f xs s) = g s"
  by (induction xs arbitrary: s) simp_all

lemma outcome_simps [simp]: "outcome (Inl st) = st" "outcome (Inr st) = st"
  by (simp_all add: outcome_def)

lemma read_loop_append:
  "read_loop en cfg iter fin (xs @ ys) st =
     (case read_loop en cfg iter fin xs st of
        Inl st' \<Rightarrow> Inl st'
      | Inr st' \<Rightarrow> read_loop en cfg iter fin ys st')"
  by (induction xs arbitrary: st) (simp_all split: sum.splits)

lemma iterations_append:
  "iterations en cfg (xs @ ys) st =
     (case iterations en cfg xs st of
        Inl st' \<Rightarrow> Inl st'
      | Inr st' \<Rightarrow> iterations en cfg ys st')"
  by (induction xs arbitrary: st) (simp_all split: sum.splits)

lemma process_line_valid:
  "valid_line en cfg line \<Longrightarrow>
   process_line en cfg iter fin line st =
     Inr (align_pair cfg iter fin (fst (sides en cfg line)) (snd (sides en cfg line)) (count_line st))"
  by (simp add: process_line_def valid_line_def Let_def case_prod_beta)

lemma process_line_invalid:
  "\<not> valid_line en cfg line \<Longrightarrow>
   process_line en cfg iter fin line st =
     Inl ((count_line st)\<lparr>cerr := cerr (count_line st) @ [FormatError (lc (count_line st)) line]\<rparr>)"
  by (auto simp add: process_line_def valid_line_def Let_def case_prod_beta)

lemma lc_count_line: "lc (count_line st) = lc st + 1"
  by (simp add: count_line_def Let_def)

lemma s2t_count_line: "s2t (count_line st) = s2t st"
  by (simp add: count_line_def Let_def)

lemma s2t_begin_pair: "s2t (begin_pair iter src trg st) = s2t st"
  by (simp add: begin_pair_def Let_def)

lemma s2t_viterbi_step: "s2t (snd (viterbi_step cfg src j f probs (fa, st))) = s2t st"
  by (simp add: viterbi_step_def Let_def case_prod_beta)

lemma s2t_position_final:
  "s2t (snd (snd (position cfg True src trg j (probs, fa, st)))) = s2t st"
  by (simp add: position_def Let_def case_prod_beta s2t_viterbi_step)

lemma s2t_align_pair_final: "s2t (align_pair cfg iter True src trg st) = s2t st"
proof -
  have "s2t (snd (snd (fold (position cfg True src trg) js pfs))) = s2t (snd (snd pfs))" for js pfs
    by (rule fold_preserves[where g = "\<lambda>pfs. s2t (snd (snd pfs))"])
       (metis s2t_position_final prod.collapse)
  then show ?thesis
    by (simp add: align_pair_def Let_def case_prod_beta s2t_begin_pair)
qed

lemma s2t_process_line_final:
  "s2t (outcome (process_line en cfg iter True line st)) = s2t st"
  by (cases "valid_line en cfg line")
     (simp_all add: process_line_valid process_line_invalid s2t_align_pair_final s2t_count_line)

lemma s2t_read_loop_final:
  "s2t (outcome (read_loop en cfg iter True lines st)) = s2t st"
proof (induction lines arbitrary: st)
  case Nil
  then show ?case by simp
next
  case (Cons line lines)
  show ?case
  proof (cases "process_line en cfg iter True line st")
    case (Inl a)
    then show ?thesis using s2t_process_line_final[of en cfg iter line st] by simp
  next
    case (Inr b)
    then show ?thesis using s2t_process_line_final[of en cfg iter line st] Cons.IH[of b] by simp
  qed
qed

lemma s2t_begin_pass: "s2t (begin_pass cfg iter st) = s2t st"
  by (simp add: begin_pass_def)

lemma s2t_end_of_iteration_final: "s2t (end_of_iteration en cfg iter True st) = s2t st"
  by (simp add: end_of_iteration_def Let_def)

lemma s2t_iteration_final:
  assumes "final_iteration_of cfg iter"
  shows "s2t (outcome (iteration en cfg iter st)) = s2t st"
proof (cases "read_loop en cfg iter True (input en) (begin_pass cfg iter st)")
  case (Inl a)
  then show ?thesis
    using assms s2t_read_loop_final[of en cfg iter "input en" "begin_pass cfg iter st"]
    by (simp add: iteration_def s2t_begin_pass)
next
  case (Inr b)
  then show ?thesis
    using assms s2t_read_loop_final[of en cfg iter "input en" "begin_pass cfg iter st"]
    by (simp add: iteration_def s2t_begin_pass s2t_end_of_iteration_final)
qed

lemma read_loop_valid:
  "\<forall>l\<in>set lines. valid_line en cfg l \<Longrightarrow>
   read_loop en cfg iter fin lines st = Inr (fold (line_step en cfg iter fin) lines st)"
  by (induction lines arbitrary: st) (simp_all add: process_line_valid line_step_def)

lemma iteration_valid:
  "\<forall>l\<in>set (input en). valid_line en cfg l \<Longrightarrow>
   iteration en cfg iter st = Inr (pass_result en cfg iter st)"
  by (simp add: iteration_def read_loop_valid pass_result_def pass_lines_def Let_def)

lemma iterations_valid:
  "\<forall>l\<in>set (input en). valid_line en cfg l \<Longrightarrow>
   iterations en cfg its st = Inr (fold (pass_result en cfg) its st)"
  by (induction its arbitrary: st) (simp_all add: iteration_valid)

lemma training_valid:
  "\<forall>l\<in>set (input en). valid_line en cfg l \<Longrightarrow>
   training en cfg = Inr (fold (pass_result en cfg) [0..<nat (ITERATIONS cfg)] init_state)"
  by (simp add: training_def iterations_valid)

text \<open>Fields that the loop over the target positions leaves alone.\<close>

lemma position_frame:
  "lc (snd (snd (position cfg fin src trg j (probs, fa, st)))) = lc st"
  "tot_len_ratio (snd (snd (position cfg fin src trg j (probs, fa, st)))) = tot_len_ratio st"
  "mean_srclen_multiplier (snd (snd (position cfg fin src trg j (probs, fa, st))))
     = mean_srclen_multiplier st"
  "cerr (snd (snd (position cfg fin src trg j (probs, fa, st)))) = cerr st"
  "flag (snd (snd (position cfg fin src trg j (probs, fa, st)))) = flag st"
  "denom (snd (snd (position cfg fin src trg j (probs, fa, st)))) = denom st"
  by (simp_all add: position_def Let_def case_prod_beta viterbi_step_def)

lemma positions_frame:
  "lc (snd (snd (fold (position cfg fin src trg) js pfs))) = lc (snd (snd pfs))"
  "tot_len_ratio (snd (snd (fold (position cfg fin src trg) js pfs))) = tot_len_ratio (snd (snd pfs))"
  "mean_srclen_multiplier (snd (snd (fold (position cfg fin src trg) js pfs)))
     = mean_srclen_multiplier (snd (snd pfs))"
  "cerr (snd (snd (fold (position cfg fin src trg) js pfs))) = cerr (snd (snd pfs))"
  "flag (snd (snd (fold (position cfg fin src trg) js pfs))) = flag (snd (snd pfs))"
  "denom (snd (snd (fold (position cfg fin src trg) js pfs))) = denom (snd (snd pfs))"
proof -
  show "lc (snd (snd (fold (position cfg fin src trg) js pfs))) = lc (snd (snd pfs))"
    by (rule fold_preserves[where g = "\<lambda>pfs. lc (snd (snd pfs))"])
       (metis position_frame(1) prod.collapse)
  show "tot_len_ratio (snd (snd (fold (position cfg fin src trg) js pfs))) = tot_len_ratio (snd (snd pfs))"
    by (rule fold_preserves[where g = "\<lambda>pfs. tot_len_ratio (snd (snd pfs))"])
       (metis position_frame(2) prod.collapse)
  show "mean_srclen_multiplier (snd (snd (fold (position cfg fin src trg) js pfs)))
     = mean_srclen_multiplier (snd (snd pfs))"
    by (rule fold_preserves[where g = "\<lambda>pfs. mean_srclen_multiplier (snd (snd pfs))"])
       (metis position_frame(3) prod.collapse)
  show "cerr (snd (snd (fold (position cfg fin src trg) js pfs))) = cerr (snd (snd pfs))"
    by (rule fold_preserves[where g = "\<lambda>pfs. cerr (snd (snd pfs))"])
       (metis position_frame(4) prod.collapse)
  show "flag (snd (snd (fold (position cfg fin src trg) js pfs))) = flag (snd (snd pfs))"
    by (rule fold_preserves[where g = "\<lambda>pfs. flag (snd (snd pfs))"])
       (metis position_frame(5) prod.collapse)
  show "denom (snd (snd (fold (position cfg fin src trg) js pfs))) = denom (snd (snd pfs))"
    by (rule fold_preserves[where g = "\<lambda>pfs. denom (snd (snd pfs))"])
       (metis position_frame(6) prod.collapse)
qed

lemma align_pair_frame:
  "lc (align_pair cfg iter fin src trg st) = lc st"
  "mean_srclen_multiplier (align_pair cfg iter fin src trg st) = mean_srclen_multiplier st"
  "cerr (align_pair cfg iter fin src trg st) = cerr st"
  "flag (align_pair cfg iter fin src trg st) = flag st"
  "tot_len_ratio (align_pair cfg iter fin src trg st) =
     (if iter = 0 then tot_len_ratio st + real (length trg) / real (length src)
      else tot_len_ratio st)"
  by (simp_all add: align_pair_def Let_def case_prod_beta positions_frame begin_pair_def)

lemma line_step_frame:
  "lc (line_step en cfg iter fin line st) = lc st + 1"
  "mean_srclen_multiplier (line_step en cfg iter fin line st) = mean_srclen_multiplier st"
  "tot_len_ratio (line_step en cfg iter fin line st) =
     (if iter = 0 then tot_len_ratio st + len_ratio en cfg line else tot_len_ratio st)"
  by (simp_all add: line_step_def align_pair_frame count_line_def Let_def len_ratio_def)

lemma lines_frame:
  "lc (fold (line_step en cfg iter fin) lines st) = lc st + length lines"
  "mean_srclen_multiplier (fold (line_step en cfg iter fin) lines st) = mean_srclen_multiplier st"
  "tot_len_ratio (fold (line_step en cfg iter fin) lines st) =
     (if iter = 0 then tot_len_ratio st + (\<Sum>l\<leftarrow>lines. len_ratio en cfg l) else tot_len_ratio st)"
  by (induction lines arbitrary: st) (simp_all add: line_step_frame)

lemma pass_result_first:
  "tot_len_ratio (pass_result en cfg 0 st) = tot_len_ratio st + (\<Sum>l\<leftarrow>input en. len_ratio en cfg l)"
  "mean_srclen_multiplier (pass_result en cfg 0 st) =
     (tot_len_ratio st + (\<Sum>l\<leftarrow>input en. len_ratio en cfg l)) / real (length (input en))"
  by (simp_all add: pass_result_def pass_lines_def end_of_iteration_def Let_def lines_frame begin_pass_def)

lemma pass_result_later:
  "0 < iter \<Longrightarrow> tot_len_ratio (pass_result en cfg iter st) = tot_len_ratio st"
  "0 < iter \<Longrightarrow> mean_srclen_multiplier (pass_result en cfg iter st) = mean_srclen_multiplier st"
  by (simp_all add: pass_result_def pass_lines_def end_of_iteration_def Let_def lines_frame begin_pass_def)

lemma sides_input_update [simp]: "sides (en\<lparr>input := ls\<rparr>) cfg line = sides en cfg line"
  by (simp add: sides_def)

lemma process_line_input_update:
  "process_line (en\<lparr>input := ls\<rparr>) cfg iter fin line st = process_line en cfg iter fin line st"
  by (simp add: process_line_def)

lemma read_loop_input_update:
  "read_loop (en\<lparr>input := ls\<rparr>) cfg iter fin lines st = read_loop en cfg iter fin lines st"
  by (induction lines arbitrary: st) (simp_all add: process_line_input_update split: sum.splits)

lemma cerr_lines_frame: "lc (begin_pass cfg iter st) = 0"
  by (simp add: begin_pass_def)

lemma upt_0_pos: "0 < n \<Longrightarrow> [0..<n] = 0 # [1..<n]"
  by (simp add: upt_conv_Cons)

lemma abort_state:
  assumes "\<forall>l\<in>set pre. valid_line en cfg l" "\<not> valid_line en cfg line"
  shows "\<exists>st. read_loop en cfg iter fin (pre @ line # rest) (begin_pass cfg iter st0) = Inl st \<and>
              read_loop en cfg iter fin (pre @ [line]) (begin_pass cfg iter st0) = Inl st \<and>
              cerr st \<noteq> [] \<and> last (cerr st) = FormatError (length pre + 1) line"
proof -
  let ?s1 = "fold (line_step en cfg iter fin) pre (begin_pass cfg iter st0)"
  let ?X = "(count_line ?s1)\<lparr>cerr := cerr (count_line ?s1) @ [FormatError (lc (count_line ?s1)) line]\<rparr>"
  have pre: "read_loop en cfg iter fin pre (begin_pass cfg iter st0) = Inr ?s1"
    using assms(1) by (rule read_loop_valid)
  have a: "read_loop en cfg iter fin (pre @ line # rest) (begin_pass cfg iter st0) = Inl ?X"
    by (simp add: read_loop_append pre process_line_invalid[OF assms(2)])
  have b: "read_loop en cfg iter fin (pre @ [line]) (begin_pass cfg iter st0) = Inl ?X"
    by (simp add: read_loop_append pre process_line_invalid[OF assms(2)])
  have "lc (count_line ?s1) = length pre + 1"
    by (simp add: lc_count_line lines_frame cerr_lines_frame)
  then have c: "cerr ?X \<noteq> [] \<and> last (cerr ?X) = FormatError (length pre + 1) line"
    by simp
  show ?thesis using a b c by blast
qed

text \<open>
  C5. When the first line with an empty source or target side (after the swap of
  \<open>reverse\<close>) is line number \<open>length pre + 1\<close> of the corpus, a run of at least one
  iteration that passes the check of \<open>alpha\<close> exits with status 1, the last thing on
  \<open>cerr\<close> is the error with that line number and the text of the line, and the run is
  the run on the corpus cut after that line: no later line is processed.
\<close>

theorem empty_side_aborts:
  assumes "input en = pre @ line # rest"
    and "\<forall>l\<in>set pre. valid_line en cfg l" and "\<not> valid_line en cfg line"
    and "0 < ITERATIONS cfg" and "\<not> (variational_bayes cfg \<and> alpha cfg \<le> 0)"
  shows "fst (main en cfg) = 1 \<and> cerr (snd (main en cfg)) \<noteq> [] \<and>
         last (cerr (snd (main en cfg))) = FormatError (length pre + 1) line \<and>
         main en cfg = main (en\<lparr>input := pre @ [line]\<rparr>) cfg"
proof -
  from abort_state[OF assms(2,3), of 0 "final_iteration_of cfg 0" rest init_state]
  obtain st where
    a: "read_loop en cfg 0 (final_iteration_of cfg 0) (pre @ line # rest) (begin_pass cfg 0 init_state) = Inl st"
    and b: "read_loop en cfg 0 (final_iteration_of cfg 0) (pre @ [line]) (begin_pass cfg 0 init_state) = Inl st"
    and c: "cerr st \<noteq> []" "last (cerr st) = FormatError (length pre + 1) line"
    by blast
  have n: "[0..<nat (ITERATIONS cfg)] = 0 # [1..<nat (ITERATIONS cfg)]"
    using assms(4) by (simp add: upt_0_pos)
  have i1: "iteration en cfg 0 init_state = Inl st"
    using a assms(1) by (simp add: iteration_def Let_def)
  have i2: "iteration (en\<lparr>input := pre @ [line]\<rparr>) cfg 0 init_state = Inl st"
    using b by (simp add: iteration_def Let_def read_loop_input_update)
  have t1: "training en cfg = Inl st" by (simp add: training_def n i1)
  have t2: "training (en\<lparr>input := pre @ [line]\<rparr>) cfg = Inl st" by (simp add: training_def n i2)
  have m1: "main en cfg = (1, st)" using assms(5) t1 by (auto simp: main_def)
  have m2: "main (en\<lparr>input := pre @ [line]\<rparr>) cfg = (1, st)"
    using assms(5) t2 by (auto simp: main_def)
  show ?thesis using m1 m2 c by simp
qed

theorem empty_side_aborts_witness:
  "fst (main (example_env\<lparr>input := [''a ||| x'', ''a b ||| '', ''b ||| y'']\<rparr>) default_conf) = 1 \<and>
   last (cerr (snd (main (example_env\<lparr>input := [''a ||| x'', ''a b ||| '', ''b ||| y'']\<rparr>)
      default_conf))) = FormatError 2 ''a b ||| ''"
proof -
  let ?en = "example_env\<lparr>input := [''a ||| x'', ''a b ||| '', ''b ||| y'']\<rparr>"
  have h1: "input ?en = [''a ||| x''] @ ''a b ||| '' # [''b ||| y'']" by simp
  have h2: "\<forall>l\<in>set [''a ||| x'']. valid_line ?en default_conf l"
    by (simp add: valid_line_def sides_def example_env_def example_ReadLine_def default_conf_def)
  have h3: "\<not> valid_line ?en default_conf ''a b ||| ''"
    by (simp add: valid_line_def sides_def example_env_def example_ReadLine_def default_conf_def)
  have h4: "0 < ITERATIONS default_conf" by (simp add: default_conf_def)
  have h5: "\<not> (variational_bayes default_conf \<and> alpha default_conf \<le> 0)"
    by (simp add: default_conf_def)
  note T = empty_side_aborts[OF h1 h2 h3 h4 h5]
  from T have a: "fst (main ?en default_conf) = 1" by blast
  from T have b: "last (cerr (snd (main ?en default_conf)))
                    = FormatError (length [''a ||| x''] + 1) ''a b ||| ''" by blast
  show ?thesis using a b by simp
qed

subsection \<open>The test scorer and the dump leave the table alone\<close>

lemma s2t_test_position: "s2t (snd (test_position cfg src trg j (lp, st))) = s2t st"
  by (simp add: test_position_def Let_def case_prod_beta)

lemma mean_test_position:
  "mean_srclen_multiplier (snd (test_position cfg src trg j (lp, st))) = mean_srclen_multiplier st"
  by (simp add: test_position_def Let_def case_prod_beta)

lemma test_position_shift:
  "test_position cfg src trg j (lp, st) =
     (lp + fst (test_position cfg src trg j (0, st)), snd (test_position cfg src trg j (0, st)))"
  by (simp add: test_position_def Let_def case_prod_beta)

lemma test_positions_shift:
  "fold (test_position cfg src trg) js (lp, st) =
     (lp + fst (fold (test_position cfg src trg) js (0, st)),
      snd (fold (test_position cfg src trg) js (0, st)))"
proof (induction js arbitrary: lp st)
  case Nil
  then show ?case by simp
next
  case (Cons j js)
  let ?d = "fst (test_position cfg src trg j (0, st))"
  let ?s = "snd (test_position cfg src trg j (0, st))"
  have a: "test_position cfg src trg j (lp, st) = (lp + ?d, ?s)" by (rule test_position_shift)
  have b: "test_position cfg src trg j (0, st) = (?d, ?s)" by simp
  have c: "fold (test_position cfg src trg) js (lp + ?d, ?s)
             = (lp + ?d + fst (fold (test_position cfg src trg) js (0, ?s)),
                snd (fold (test_position cfg src trg) js (0, ?s)))"
    by (rule Cons.IH)
  have d: "fold (test_position cfg src trg) js (test_position cfg src trg j (0, st))
             = (?d + fst (fold (test_position cfg src trg) js (0, ?s)),
                snd (fold (test_position cfg src trg) js (0, ?s)))"
    using Cons.IH[of ?d ?s] by simp
  show ?case by (simp only: fold_simps comp_apply a c) (simp add: d)
qed

lemma test_positions_frame:
  "s2t (snd (fold (test_position cfg src trg) js ls)) = s2t (snd ls)"
  "mean_srclen_multiplier (snd (fold (test_position cfg src trg) js ls))
     = mean_srclen_multiplier (snd ls)"
proof -
  show "s2t (snd (fold (test_position cfg src trg) js ls)) = s2t (snd ls)"
    by (rule fold_preserves[where g = "\<lambda>ls. s2t (snd ls)"])
       (metis s2t_test_position prod.collapse)
  show "mean_srclen_multiplier (snd (fold (test_position cfg src trg) js ls))
     = mean_srclen_multiplier (snd ls)"
    by (rule fold_preserves[where g = "\<lambda>ls. mean_srclen_multiplier (snd ls)"])
       (metis mean_test_position prod.collapse)
qed

lemma test_line_frame:
  "s2t (snd (test_line en cfg line (tlp, st))) = s2t st"
  "mean_srclen_multiplier (snd (test_line en cfg line (tlp, st))) = mean_srclen_multiplier st"
  by (simp_all add: test_line_def Let_def case_prod_beta test_positions_frame)

lemma s2t_test_scorer: "s2t (test_scorer en cfg st) = s2t st"
proof -
  have "s2t (snd (fold (test_line en cfg) ls ts)) = s2t (snd ts)" for ls ts
    by (rule fold_preserves[where g = "\<lambda>ts. s2t (snd ts)"])
       (metis test_line_frame(1) prod.collapse)
  then show ?thesis by (simp add: test_scorer_def case_prod_beta)
qed

lemma s2t_dump_entry: "s2t (dump_entry cfg ei st) = s2t st"
  unfolding dump_entry_def Let_def by (subst fold_preserves[where g = s2t]) simp_all

lemma s2t_dump: "s2t (dump cfg st) = s2t st"
  unfolding dump_def by (rule fold_preserves[where g = s2t]) (rule s2t_dump_entry)

subsection \<open>The final iteration\<close>

lemma upt_snoc: "0 < n \<Longrightarrow> [0..<n] = [0..<n - 1] @ [n - 1]"
  by (cases n) simp_all

lemma s2t_pass_result_final:
  assumes "final_iteration_of cfg iter"
  shows "s2t (pass_result en cfg iter st) = s2t st"
proof -
  have "s2t (fold (line_step en cfg iter True) ls s) = s2t s" for ls s
    by (rule fold_preserves[where g = s2t])
       (simp add: line_step_def s2t_align_pair_final s2t_count_line)
  then show ?thesis
    using assms
    by (simp add: pass_result_def pass_lines_def s2t_end_of_iteration_final s2t_begin_pass)
qed

lemma s2t_pass_result_not_final:
  assumes "\<not> final_iteration_of cfg iter"
  shows "s2t (pass_result en cfg iter st) =
           (if variational_bayes cfg
            then NormalizeVB (digamma en) (s2t (pass_lines en cfg iter st)) (alpha cfg)
            else Normalize (s2t (pass_lines en cfg iter st)))"
  using assms by (simp add: pass_result_def end_of_iteration_def Let_def)

lemma s2t_main:
  assumes "training en cfg = Inr st" "\<not> (variational_bayes cfg \<and> alpha cfg \<le> 0)"
  shows "fst (main en cfg) = 0" "s2t (snd (main en cfg)) = s2t st"
  using assms by (auto simp: main_def Let_def s2t_test_scorer s2t_dump)

text \<open>
  C9. The final iteration (\<open>iter = ITERATIONS - 1\<close>) returns the translation table it
  was given, whatever the state it starts from: neither \<open>Increment\<close> nor a normalization
  is applied. Hence, on a corpus of valid lines and with \<open>ITERATIONS \<ge> 1\<close>, the table
  with which the training ends, which the test scorer and the parameter dump read and
  which \<open>main\<close> returns, is the table after the first \<open>ITERATIONS - 1\<close> iterations: the
  empty table when \<open>ITERATIONS = 1\<close>, and otherwise the normalization (variational or
  not) of the table with which the read loop of the iteration before the last ended.
\<close>

theorem final_iteration_leaves_table:
  assumes valid: "\<forall>l\<in>set (input en). valid_line en cfg l"
    and pos: "0 < ITERATIONS cfg"
    and al: "\<not> (variational_bayes cfg \<and> alpha cfg \<le> 0)"
  shows "(\<forall>st'. s2t (outcome (iteration en cfg (nat (ITERATIONS cfg) - 1) st')) = s2t st') \<and>
     (\<exists>st0 st.
        iterations en cfg [0..<nat (ITERATIONS cfg) - 1] init_state = Inr st0 \<and>
        training en cfg = Inr st \<and> s2t st = s2t st0 \<and>
        fst (main en cfg) = 0 \<and> s2t (snd (main en cfg)) = s2t st0 \<and>
        (ITERATIONS cfg = 1 \<longrightarrow> s2t st = empty_TTable) \<and>
        (2 \<le> ITERATIONS cfg \<longrightarrow>
           (\<exists>st2 st1.
              iterations en cfg [0..<nat (ITERATIONS cfg) - 2] init_state = Inr st2 \<and>
              read_loop en cfg (nat (ITERATIONS cfg) - 2) False (input en)
                (begin_pass cfg (nat (ITERATIONS cfg) - 2) st2) = Inr st1 \<and>
              s2t st0 = (if variational_bayes cfg
                         then NormalizeVB (digamma en) (s2t st1) (alpha cfg)
                         else Normalize (s2t st1)))))"
proof -
  let ?n = "nat (ITERATIONS cfg)"
  let ?sa = "fold (pass_result en cfg) [0..<?n - 1] init_state"
  let ?sz = "fold (pass_result en cfg) [0..<?n] init_state"
  have n: "0 < ?n" using pos by simp
  have fin: "final_iteration_of cfg (?n - 1)"
    using pos by (simp add: final_iteration_of_def)
  have A: "\<forall>st'. s2t (outcome (iteration en cfg (?n - 1) st')) = s2t st'"
    using s2t_iteration_final[OF fin] by simp
  have i0: "iterations en cfg [0..<?n - 1] init_state = Inr ?sa"
    using valid by (rule iterations_valid)
  have tr: "training en cfg = Inr ?sz" using valid by (rule training_valid)
  have "?sz = pass_result en cfg (?n - 1) ?sa"
    by (subst upt_snoc[OF n]) simp
  then have eq: "s2t ?sz = s2t ?sa" by (simp only: s2t_pass_result_final[OF fin])
  note M = s2t_main[OF tr al]
  have one: "ITERATIONS cfg = 1 \<longrightarrow> s2t ?sz = empty_TTable"
    using eq by (auto simp: init_state_def)
  have two: "2 \<le> ITERATIONS cfg \<longrightarrow>
           (\<exists>st2 st1.
              iterations en cfg [0..<?n - 2] init_state = Inr st2 \<and>
              read_loop en cfg (?n - 2) False (input en) (begin_pass cfg (?n - 2) st2) = Inr st1 \<and>
              s2t ?sa = (if variational_bayes cfg
                         then NormalizeVB (digamma en) (s2t st1) (alpha cfg)
                         else Normalize (s2t st1)))"
  proof
    assume ge: "2 \<le> ITERATIONS cfg"
    let ?sc = "fold (pass_result en cfg) [0..<?n - 2] init_state"
    let ?sb = "pass_lines en cfg (?n - 2) ?sc"
    have n1: "0 < ?n - 1" using ge by simp
    have nf: "\<not> final_iteration_of cfg (?n - 2)"
      using ge by (simp add: final_iteration_of_def)
    have "[0..<?n - 1] = [0..<?n - 2] @ [?n - 2]"
      using upt_snoc[OF n1] by (simp add: numeral_2_eq_2)
    then have "?sa = pass_result en cfg (?n - 2) ?sc" by simp
    then have a: "s2t ?sa = (if variational_bayes cfg
                         then NormalizeVB (digamma en) (s2t ?sb) (alpha cfg)
                         else Normalize (s2t ?sb))"
      by (simp only: s2t_pass_result_not_final[OF nf])
    have b: "iterations en cfg [0..<?n - 2] init_state = Inr ?sc"
      using valid by (rule iterations_valid)
    have c: "read_loop en cfg (?n - 2) False (input en) (begin_pass cfg (?n - 2) ?sc) = Inr ?sb"
      using nf by (simp add: read_loop_valid[OF valid] pass_lines_def)
    show "\<exists>st2 st1.
              iterations en cfg [0..<?n - 2] init_state = Inr st2 \<and>
              read_loop en cfg (?n - 2) False (input en) (begin_pass cfg (?n - 2) st2) = Inr st1 \<and>
              s2t ?sa = (if variational_bayes cfg
                         then NormalizeVB (digamma en) (s2t st1) (alpha cfg)
                         else Normalize (s2t st1))"
      using a b c by blast
  qed
  have B: "\<exists>st0 st.
        iterations en cfg [0..<?n - 1] init_state = Inr st0 \<and>
        training en cfg = Inr st \<and> s2t st = s2t st0 \<and>
        fst (main en cfg) = 0 \<and> s2t (snd (main en cfg)) = s2t st0 \<and>
        (ITERATIONS cfg = 1 \<longrightarrow> s2t st = empty_TTable) \<and>
        (2 \<le> ITERATIONS cfg \<longrightarrow>
           (\<exists>st2 st1.
              iterations en cfg [0..<?n - 2] init_state = Inr st2 \<and>
              read_loop en cfg (?n - 2) False (input en) (begin_pass cfg (?n - 2) st2) = Inr st1 \<and>
              s2t st0 = (if variational_bayes cfg
                         then NormalizeVB (digamma en) (s2t st1) (alpha cfg)
                         else Normalize (s2t st1))))"
    apply (rule exI[of _ ?sa])
    apply (rule exI[of _ ?sz])
    using i0 tr eq M one two by simp
  show ?thesis using A B by blast
qed

theorem final_iteration_leaves_table_witness:
  "\<exists>st. training example_env (default_conf\<lparr>ITERATIONS := 1\<rparr>) = Inr st \<and> s2t st = empty_TTable \<and>
        s2t (snd (main example_env (default_conf\<lparr>ITERATIONS := 1\<rparr>))) = empty_TTable"
proof -
  let ?cfg = "default_conf\<lparr>ITERATIONS := 1\<rparr>"
  have h1: "\<forall>l\<in>set (input example_env). valid_line example_env ?cfg l"
    by (simp add: valid_line_def sides_def example_env_def example_ReadLine_def default_conf_def)
  have h2: "0 < ITERATIONS ?cfg" by simp
  have h3: "\<not> (variational_bayes ?cfg \<and> alpha ?cfg \<le> 0)" by (simp add: default_conf_def)
  from final_iteration_leaves_table[OF h1 h2 h3]
  obtain st0 :: state and st :: state where "training example_env ?cfg = Inr st" "s2t st = s2t st0"
    "s2t (snd (main example_env ?cfg)) = s2t st0" "ITERATIONS ?cfg = 1 \<longrightarrow> s2t st = empty_TTable"
    by blast
  then show ?thesis by simp
qed

subsection \<open>The length ratio\<close>

lemma test_line_eq:
  "test_line en cfg line (tlp, st) =
     (let src = fst (sides en cfg line); trg = snd (sides en cfg line);
          r = fold (test_position cfg src trg) [0..<length trg]
                (log_poisson en (length trg) (5 / 100 + real (length src) * mean_srclen_multiplier st),
                 begin_test_line en cfg line st)
      in (tlp + fst r, (snd r)\<lparr>cout := cout (snd r) @ [TestScore (fst r)]\<rparr>))"
  by (simp add: test_line_def sides_def begin_test_line_def Let_def case_prod_beta)

lemma test_line_score:
  "last (cout (snd (test_line en cfg line (tlp, st)))) =
     TestScore (log_poisson en (length (snd (sides en cfg line)))
                  (5 / 100 + real (length (fst (sides en cfg line))) * mean_srclen_multiplier st)
                + fst (fold (test_position cfg (fst (sides en cfg line)) (snd (sides en cfg line)))
                        [0..<length (snd (sides en cfg line))] (0, begin_test_line en cfg line st)))"
  by (simp add: test_line_eq Let_def)
     (subst test_positions_shift, simp)

lemma len_ratio_iterations:
  assumes valid: "\<forall>l\<in>set (input en). valid_line en cfg l"
  shows "tot_len_ratio (fold (pass_result en cfg) [0..<Suc k] init_state)
           = (\<Sum>l\<leftarrow>input en. len_ratio en cfg l) \<and>
         mean_srclen_multiplier (fold (pass_result en cfg) [0..<Suc k] init_state)
           = (\<Sum>l\<leftarrow>input en. len_ratio en cfg l) / real (length (input en))"
proof (induction k)
  case 0
  show ?case by (simp add: pass_result_first init_state_def)
next
  case (Suc k)
  have "fold (pass_result en cfg) [0..<Suc (Suc k)] init_state
          = pass_result en cfg (Suc k) (fold (pass_result en cfg) [0..<Suc k] init_state)"
    by (rule fold_from_0_Suc)
  then show ?case using Suc.IH by (simp only: pass_result_later[of "Suc k"] zero_less_Suc)
qed

subsection \<open>Positive tables and positive posteriors\<close>

lemma map_default_set:
  "x \<in> set (AList.map_default k v f xs) \<Longrightarrow>
   x \<in> set xs \<or> x = (k, v) \<or> (\<exists>y. (k, y) \<in> set xs \<and> x = (k, f y))"
  by (induction xs) (auto split: if_splits)

lemma map_default_rows:
  assumes "\<forall>r\<in>set m. P (snd r)" "P v" "\<And>y. P y \<Longrightarrow> P (f y)"
  shows "\<forall>r\<in>set (AList.map_default k v f m). P (snd r)"
proof
  fix r assume "r \<in> set (AList.map_default k v f m)"
  from map_default_set[OF this] show "P (snd r)" using assms by auto
qed

lemma positive_add_to:
  assumes "positive m" "0 < x"
  shows "positive (add_to m e f x)"
proof -
  let ?P = "\<lambda>cpd :: Word2Double. \<forall>fv\<in>set cpd. 0 < snd fv"
  have 1: "\<forall>r\<in>set m. ?P (snd r)" using assms(1) by (simp add: positive_def)
  have 2: "?P [(f, 0 + x)]" using assms(2) by simp
  have 3: "\<And>cpd. ?P cpd \<Longrightarrow> ?P (AList.map_default f (0 + x) (\<lambda>v. v + x) cpd)"
  proof -
    fix cpd :: Word2Double assume c: "?P cpd"
    show "?P (AList.map_default f (0 + x) (\<lambda>v. v + x) cpd)"
      by (rule map_default_rows[where P = "\<lambda>v. 0 < v"]) (use c assms(2) in auto)
  qed
  from map_default_rows[where P = ?P, OF 1 2 3]
  show ?thesis by (simp add: positive_def add_to_def)
qed

lemma keys_ok_map_default2:
  assumes "keys_ok m" "distinct (map fst v)" "\<And>cpd. distinct (map fst cpd) \<Longrightarrow> distinct (map fst (g cpd))"
  shows "keys_ok (AList.map_default e v g m)"
proof -
  have 1: "distinct (map fst (AList.map_default e v g m))"
    using assms(1) by (simp add: keys_ok_def distinct_map_default)
  have 2: "\<forall>r\<in>set m. distinct (map fst (snd r))" using assms(1) by (simp add: keys_ok_def)
  from map_default_rows[where P = "\<lambda>cpd. distinct (map fst cpd)", OF 2 assms(2) assms(3)]
  show ?thesis using 1 by (simp add: keys_ok_def)
qed

lemma keys_ok_add_to: "keys_ok m \<Longrightarrow> keys_ok (add_to m e f x)"
  unfolding add_to_def by (rule keys_ok_map_default2) (simp_all add: distinct_map_default)

lemma keys_ok_assign: "keys_ok m \<Longrightarrow> keys_ok (assign m e f x)"
  unfolding assign_def by (rule keys_ok_map_default2) (simp_all add: distinct_map_default)

lemma lookup2_mem:
  "lookup2 m e f = Some p \<Longrightarrow> \<exists>cpd. (e, cpd) \<in> set m \<and> (f, p) \<in> set cpd"
  by (auto simp: lookup2_def split: option.splits dest: map_of_SomeD)


lemma prob_pos: "positive (ttable T) \<Longrightarrow> 0 < prob T e f"
proof (cases "lookup2 (ttable T) e f")
  case None
  then show ?thesis by (simp add: prob_def)
next
  case (Some p)
  assume "positive (ttable T)"
  with lookup2_mem[OF Some] have "0 < p" by (force simp: positive_def)
  then show ?thesis using Some by (simp add: prob_def)
qed


lemma table_inv_Increment: "table_inv T \<Longrightarrow> 0 < x \<Longrightarrow> table_inv (Increment T e f x)"
  by (simp add: table_inv_def Increment_def positive_add_to keys_ok_add_to)

lemma ttable_Increment: "ttable (Increment T e f x) = ttable T"
  by (simp add: Increment_def)

lemma normalize_row_facts:
  assumes "\<forall>fv\<in>set (snd ec). 0 < snd fv"
  shows "\<forall>r\<in>set (normalize_row ec). fst r = fst ec \<and> map fst (snd r) = map fst (snd ec) \<and>
           (\<forall>fv\<in>set (snd r). 0 < snd fv)"
  using assms by (auto simp: normalize_row_def Let_def comp_def case_prod_beta)

lemma map_fst_concat_normalize:
  "distinct (map fst m) \<Longrightarrow> distinct (map fst (concat (map normalize_row m)))"
proof (induction m)
  case Nil
  then show ?case by simp
next
  case (Cons ec m)
  have "fst ` set (concat (map normalize_row m)) \<subseteq> fst ` set m"
    by (force simp: normalize_row_def Let_def split: if_splits)
  then show ?case using Cons by (auto simp: normalize_row_def Let_def)
qed

lemma table_inv_Normalize:
  assumes "table_inv T"
  shows "table_inv (Normalize T)"
proof -
  have p: "positive (counts T)" and k: "keys_ok (counts T)" using assms by (simp_all add: table_inv_def)
  have rows: "\<forall>r\<in>set (concat (map normalize_row (counts T))).
                 distinct (map fst (snd r)) \<and> (\<forall>fv\<in>set (snd r). 0 < snd fv)"
  proof
    fix r assume "r \<in> set (concat (map normalize_row (counts T)))"
    then obtain ec where ec: "ec \<in> set (counts T)" "r \<in> set (normalize_row ec)" by auto
    from p ec(1) have "\<forall>fv\<in>set (snd ec). 0 < snd fv" by (simp add: positive_def)
    from normalize_row_facts[OF this] ec(2) k ec(1)
    show "distinct (map fst (snd r)) \<and> (\<forall>fv\<in>set (snd r). 0 < snd fv)"
      by (simp add: keys_ok_def)
  qed
  have d: "distinct (map fst (concat (map normalize_row (counts T))))"
    using k by (simp add: keys_ok_def map_fst_concat_normalize)
  show ?thesis using rows d by (simp add: table_inv_def Normalize_def positive_def keys_ok_def)
qed

lemma table_inv_NormalizeVB:
  assumes "table_inv T"
  shows "table_inv (NormalizeVB dg T a)"
proof -
  have k: "keys_ok (counts T)" using assms by (simp add: table_inv_def)
  have f: "map fst (map (normalize_vb_row dg a) (counts T)) = map fst (counts T)"
    by (simp add: normalize_vb_row_def Let_def comp_def)
  have d: "distinct (map fst (map (normalize_vb_row dg a) (counts T)))"
    unfolding f using k by (simp add: keys_ok_def)
  have rows: "\<forall>r\<in>set (map (normalize_vb_row dg a) (counts T)).
                 distinct (map fst (snd r)) \<and> (\<forall>fv\<in>set (snd r). 0 < snd fv)"
    using k by (auto simp: normalize_vb_row_def Let_def comp_def case_prod_beta keys_ok_def)
  show ?thesis using rows d
    by (simp add: table_inv_def NormalizeVB_def positive_def keys_ok_def del: map_map)
qed

lemma prior_at_pos:
  assumes "config_ok cfg" "0 < I"
  shows "0 < prior_at cfg I jt i"
proof (cases "favor_diagonal cfg")
  case True
  have "0 < weight_sum cfg I jt" using assms(2) by (rule weight_sum_pos)
  moreover have "0 < 1 - prob_align_null cfg" using assms(1) True by (simp add: config_ok_def)
  ultimately have "0 < prior_Z cfg I jt" by (simp add: prior_Z_def)
  moreover have "0 < diag_weight cfg I jt (i - 1)" by (simp add: diag_weight_def)
  ultimately show ?thesis using True by (simp add: prior_at_def)
next
  case False
  then show ?thesis using assms(2) by (simp add: prior_at_def)
qed

lemma prior_null_pos: "config_ok cfg \<Longrightarrow> use_null cfg \<Longrightarrow> 0 < prior_null cfg I"
  by (simp add: prior_null_def config_ok_def)

lemma e_step_pos:
  assumes ok: "config_ok cfg" and pos: "positive (ttable T)" and ne: "src \<noteq> []"
    and lp: "length probs = length src + 1" and lb: "length src \<le> length buf"
    and es: "e_step cfg T src trg j buf probs = (probs', sm, buf')"
  shows "0 < sm"
    and "\<forall>i. 1 \<le> i \<and> i \<le> length src \<longrightarrow> 0 < probs' ! i"
    and "use_null cfg \<Longrightarrow> 0 < probs' ! 0"
    and "length probs' = length src + 1"
    and "length buf' = length buf"
proof -
  note E = e_step_char[OF lp lb es]
  let ?jt = "real j / real (length trg)"
  let ?t = "\<lambda>i. prob T (src ! (i - 1)) (trg ! j) * prior_at cfg (length src) ?jt i"
  have I: "0 < length src" using ne by simp
  have t: "\<And>i. 0 < ?t i" using prob_pos[OF pos] prior_at_pos[OF ok I] by simp
  show "length probs' = length src + 1" using E lp by simp
  show "length buf' = length buf" using E by simp
  show "\<forall>i. 1 \<le> i \<and> i \<le> length src \<longrightarrow> 0 < probs' ! i" using E t by simp
  have n: "use_null cfg \<Longrightarrow> 0 < prob T (kNULL cfg) (trg ! j) * prior_null cfg (length src)"
    using prob_pos[OF pos] prior_null_pos[OF ok] by simp
  then show "use_null cfg \<Longrightarrow> 0 < probs' ! 0" using E by simp
  have "{1..length src} \<noteq> {}" using I by (simp add: Suc_le_eq)
  then have "0 < (\<Sum>i = 1..length src. ?t i)"
    by (intro sum_pos) (use t in auto)
  moreover have "0 \<le> (if use_null cfg then prob T (kNULL cfg) (trg ! j) * prior_null cfg (length src) else 0)"
    using n by (simp add: less_imp_le)
  moreover have "sm = (if use_null cfg then prob T (kNULL cfg) (trg ! j) * prior_null cfg (length src) else 0)
            + (\<Sum>i = 1..length src. ?t i)" using E by blast
  ultimately show "0 < sm" by linarith
qed

lemma count_step_inv:
  assumes "table_inv T" "0 < sm" "\<forall>i. 1 \<le> i \<and> i \<le> length src \<longrightarrow> 0 < probs ! i"
    and "use_null cfg \<Longrightarrow> 0 < probs ! 0"
  shows "table_inv (count_step cfg src f probs sm T) \<and>
         ttable (count_step cfg src f probs sm T) = ttable T"
  unfolding count_step_def
proof (rule fold_invariant[where Q = "\<lambda>i. 1 \<le> i \<and> i \<le> length src"
        and P = "\<lambda>T'. table_inv T' \<and> ttable T' = ttable T"])
  show "\<And>x. x \<in> set [1..<length src + 1] \<Longrightarrow> 1 \<le> x \<and> x \<le> length src" by auto
  show "table_inv (if use_null cfg then Increment T (kNULL cfg) f (probs ! 0 / sm) else T) \<and>
        ttable (if use_null cfg then Increment T (kNULL cfg) f (probs ! 0 / sm) else T) = ttable T"
    using assms by (simp add: table_inv_Increment ttable_Increment)
  show "\<And>x s. 1 \<le> x \<and> x \<le> length src \<Longrightarrow> table_inv s \<and> ttable s = ttable T \<Longrightarrow>
          table_inv (Increment s (src ! (x - 1)) f (probs ! x / sm)) \<and>
          ttable (Increment s (src ! (x - 1)) f (probs ! x / sm)) = ttable T"
    using assms by (simp add: table_inv_Increment ttable_Increment)
qed

lemma viterbi_step_inv:
  "state_inv st \<Longrightarrow> state_inv (snd (viterbi_step cfg src j f probs (fa, st)))"
  "unnormed_a_i (snd (viterbi_step cfg src j f probs (fa, st))) = unnormed_a_i st"
  by (simp_all add: viterbi_step_def Let_def case_prod_beta state_inv_def keys_ok_assign)

lemma position_inv:
  assumes ok: "config_ok cfg" and ne: "src \<noteq> []" and li: "loop_inv src pfs"
  shows "loop_inv src (position cfg fin src trg j pfs) \<and>
         ttable (s2t (snd (snd (position cfg fin src trg j pfs)))) = ttable (s2t (snd (snd pfs)))"
proof -
  obtain probs fa st where pfs: "pfs = (probs, fa, st)" by (metis prod_cases3)
  obtain probs' sm buf' where es:
    "e_step cfg (s2t st) src trg j (unnormed_a_i st) probs = (probs', sm, buf')"
    by (metis prod_cases3)
  from li pfs have lp: "length probs = length src + 1" and lb: "length src \<le> length (unnormed_a_i st)"
    and si: "state_inv st" by (simp_all add: loop_inv_def)
  from si have ti: "table_inv (s2t st)" and kv: "keys_ok (s2t_viterbi st)"
    by (simp_all add: state_inv_def)
  from ti have pos: "positive (ttable (s2t st))" by (simp add: table_inv_def)
  note P = e_step_pos[OF ok pos ne lp lb es]
  note C = count_step_inv[OF ti P(1) P(2) P(3), of cfg "trg ! j"]
  let ?st1 = "st\<lparr>unnormed_a_i := buf'\<rparr>"
  have s1: "state_inv ?st1" using si by (simp add: state_inv_def)
  show ?thesis
  proof (cases fin)
    case True
    show ?thesis
    proof (cases "add_viterbi cfg \<or> write_alignments cfg")
      case True
      with \<open>fin\<close> have r: "position cfg fin src trg j (probs, fa, st) =
          (probs', fst (viterbi_step cfg src j (trg ! j) probs' (fa, ?st1)),
           (snd (viterbi_step cfg src j (trg ! j) probs' (fa, ?st1)))
             \<lparr>likelihood := likelihood (snd (viterbi_step cfg src j (trg ! j) probs' (fa, ?st1))) + ln sm\<rparr>)"
        by (simp add: position_def es Let_def case_prod_beta)
      show ?thesis unfolding pfs r
        using viterbi_step_inv(1)[OF s1, of cfg src j "trg ! j" probs' fa]
              viterbi_step_inv(2)[of cfg src j "trg ! j" probs' fa ?st1]
              s2t_viterbi_step[of cfg src j "trg ! j" probs' fa ?st1] P(4) P(5) lb
        by (simp add: loop_inv_def state_inv_def)
    next
      case False
      with \<open>fin\<close> have r: "position cfg fin src trg j (probs, fa, st) =
          (probs', fa, ?st1\<lparr>likelihood := likelihood ?st1 + ln sm\<rparr>)"
        by (simp add: position_def es Let_def case_prod_beta)
      show ?thesis unfolding pfs r using s1 P(4) P(5) lb
        by (simp add: loop_inv_def state_inv_def)
    qed
  next
    case False
    then have r: "position cfg fin src trg j (probs, fa, st) =
          (probs', fa, ?st1\<lparr>s2t := count_step cfg src (trg ! j) probs' sm (s2t st),
                             likelihood := likelihood ?st1 + ln sm\<rparr>)"
      by (simp add: position_def es Let_def case_prod_beta)
    show ?thesis unfolding pfs r using C kv P(4) P(5) lb
      by (simp add: loop_inv_def state_inv_def)
  qed
qed

lemma positions_inv:
  assumes ok: "config_ok cfg" and ne: "src \<noteq> []" and li: "loop_inv src pfs"
  shows "loop_inv src (fold (position cfg fin src trg) js pfs) \<and>
         ttable (s2t (snd (snd (fold (position cfg fin src trg) js pfs)))) = ttable (s2t (snd (snd pfs)))"
  using li
proof (induction js arbitrary: pfs)
  case Nil
  then show ?case by simp
next
  case (Cons j js)
  from position_inv[OF ok ne Cons.prems, of fin trg j]
  have a: "loop_inv src (position cfg fin src trg j pfs)"
    and b: "ttable (s2t (snd (snd (position cfg fin src trg j pfs)))) = ttable (s2t (snd (snd pfs)))"
    by blast+
  from Cons.IH[OF a] b show ?case by simp
qed

lemma length_resize: "length (resize buf n) = n"
  by (simp add: resize_def)

lemma begin_pair_inv:
  assumes "state_inv st"
  shows "loop_inv src (replicate (length src + 1) 0, True, begin_pair iter src trg st)"
    and "s2t (begin_pair iter src trg st) = s2t st"
  using assms by (auto simp: loop_inv_def begin_pair_def Let_def state_inv_def length_resize)

lemma align_pair_eq:
  "fold (position cfg fin src trg) [0..<length trg]
      (replicate (length src + 1) 0, True, begin_pair iter src trg st) = (p, fa, s) \<Longrightarrow>
   align_pair cfg iter fin src trg st =
     (if write_alignments cfg \<and> fin \<and> \<not> hide_training_alignments cfg
      then s\<lparr>cout := cout s @ [Endl]\<rparr> else s)"
  by (simp add: align_pair_def)

lemma align_pair_inv:
  assumes ok: "config_ok cfg" and ne: "src \<noteq> []" and si: "state_inv st"
  shows "state_inv (align_pair cfg iter fin src trg st) \<and>
         ttable (s2t (align_pair cfg iter fin src trg st)) = ttable (s2t st)"
proof -
  obtain p fa s where r: "fold (position cfg fin src trg) [0..<length trg]
               (replicate (length src + 1) 0, True, begin_pair iter src trg st) = (p, fa, s)"
    by (metis prod_cases3)
  from positions_inv[OF ok ne begin_pair_inv(1)[OF si], of fin trg "[0..<length trg]" iter trg]
  have "state_inv s" and "ttable (s2t s) = ttable (s2t st)"
    unfolding r by (simp_all add: begin_pair_inv(2)[OF si] loop_inv_def)
  then show ?thesis
    by (simp add: align_pair_eq[OF r] state_inv_def)
qed

lemma state_inv_count_line: "state_inv (count_line st) = state_inv st"
  by (simp add: count_line_def Let_def state_inv_def)

lemma line_step_inv:
  assumes ok: "config_ok cfg" and v: "valid_line en cfg line" and si: "state_inv st"
  shows "state_inv (line_step en cfg iter fin line st) \<and>
         ttable (s2t (line_step en cfg iter fin line st)) = ttable (s2t st)"
proof -
  have ne: "fst (sides en cfg line) \<noteq> []" using v by (simp add: valid_line_def)
  have si': "state_inv (count_line st)" using si by (simp add: state_inv_count_line)
  from align_pair_inv[OF ok ne si'] show ?thesis
    by (simp add: line_step_def s2t_count_line)
qed

lemma lines_inv:
  assumes ok: "config_ok cfg" and v: "\<forall>l\<in>set lines. valid_line en cfg l" and si: "state_inv st"
  shows "state_inv (fold (line_step en cfg iter fin) lines st) \<and>
         ttable (s2t (fold (line_step en cfg iter fin) lines st)) = ttable (s2t st)"
  using v si
proof (induction lines arbitrary: st)
  case Nil
  then show ?case by simp
next
  case (Cons l ls)
  from Cons.prems have vl: "valid_line en cfg l" and vs: "\<forall>l\<in>set ls. valid_line en cfg l" by simp_all
  from line_step_inv[OF ok vl Cons.prems(2), of iter fin]
  have a: "state_inv (line_step en cfg iter fin l st)"
    and b: "ttable (s2t (line_step en cfg iter fin l st)) = ttable (s2t st)" by blast+
  from Cons.IH[OF vs a] b show ?case by simp
qed

lemma state_inv_init: "state_inv init_state"
  by (simp add: state_inv_def table_inv_def init_state_def empty_TTable_def positive_def keys_ok_def)

lemma state_inv_begin_pass: "state_inv (begin_pass cfg iter st) = state_inv st"
  by (simp add: begin_pass_def state_inv_def)

lemma state_inv_end_of_iteration:
  "state_inv st \<Longrightarrow> state_inv (end_of_iteration en cfg iter fin st)"
  by (simp add: end_of_iteration_def Let_def state_inv_def table_inv_Normalize table_inv_NormalizeVB)

lemma pass_lines_inv:
  assumes ok: "config_ok cfg" and v: "\<forall>l\<in>set (input en). valid_line en cfg l" and si: "state_inv st"
  shows "state_inv (pass_lines en cfg iter st)"
  unfolding pass_lines_def
  using lines_inv[OF ok v, of "begin_pass cfg iter st"] si
  by (simp add: state_inv_begin_pass)

lemma pass_result_inv:
  assumes ok: "config_ok cfg" and v: "\<forall>l\<in>set (input en). valid_line en cfg l" and si: "state_inv st"
  shows "state_inv (pass_result en cfg iter st)"
  unfolding pass_result_def
  by (rule state_inv_end_of_iteration) (rule pass_lines_inv[OF ok v si])


subsection \<open>Alignment output without the NULL word\<close>



















lemma cout_test_scorer_none: "testset_lines en = [] \<Longrightarrow> cout (test_scorer en cfg st) = cout st"
  by (simp add: test_scorer_def)


subsection \<open>The parameter dump\<close>

lemma fold_emit:
  "fold (\<lambda>fi st. if c fi then st\<lparr>cout := cout st @ [g fi]\<rparr> else st) cpd st
     = st\<lparr>cout := cout st @ map g (filter c cpd)\<rparr>"
  by (induction cpd arbitrary: st) simp_all


lemma vit_row_lookup:
  "map_of (case map_of (AList.map_default e [] (\<lambda>v. v) V) e of None \<Rightarrow> [] | Some v \<Rightarrow> v) f
     = lookup2 V e f"
  by (simp add: lookup2_def map_of_map_default split: option.splits)

lemma dump_entry_eq:
  "dump_entry cfg ei st =
     st\<lparr>s2t_viterbi := AList.map_default (fst ei) [] (\<lambda>v. v) (s2t_viterbi st),
        cout := cout st @ row_out cfg (lookup2 (s2t_viterbi st)) ei\<rparr>"
  by (simp add: dump_entry_def Let_def fold_emit vit_row_lookup row_out_def)























subsection \<open>Reverse training and the corpus with exchanged sides\<close>

lemma forward_fields [simp]:
  "reverse (forward cfg) = False" "ITERATIONS (forward cfg) = ITERATIONS cfg"
  "beam_threshold (forward cfg) = beam_threshold cfg" "use_null (forward cfg) = use_null cfg"
  "kNULL (forward cfg) = kNULL cfg" "add_viterbi (forward cfg) = add_viterbi cfg"
  "variational_bayes (forward cfg) = variational_bayes cfg"
  "write_alignments (forward cfg) = write_alignments cfg"
  "diagonal_tension (forward cfg) = diagonal_tension cfg"
  "prob_align_null (forward cfg) = prob_align_null cfg"
  "hide_training_alignments (forward cfg) = hide_training_alignments cfg"
  "testset (forward cfg) = testset cfg" "alpha (forward cfg) = alpha cfg"
  "favor_diagonal (forward cfg) = favor_diagonal cfg"
  by (simp_all add: forward_def)

lemma swap_output_fields [simp]:
  "s2t (swap_output st) = s2t st" "s2t_viterbi (swap_output st) = s2t_viterbi st"
  "tot_len_ratio (swap_output st) = tot_len_ratio st"
  "mean_srclen_multiplier (swap_output st) = mean_srclen_multiplier st"
  "unnormed_a_i (swap_output st) = unnormed_a_i st" "likelihood (swap_output st) = likelihood st"
  "denom (swap_output st) = denom st" "lc (swap_output st) = lc st" "flag (swap_output st) = flag st"
  "cout (swap_output st) = map swap_point (cout st)" "cerr (swap_output st) = cerr st"
  by (simp_all add: swap_output_def)

lemma forward_diag_weights: "diag_weights (forward cfg) = diag_weights cfg"
  by (intro ext) (simp add: diag_weights_def fill_body_def diag_weight_def prob_align_not_null_def)

lemma forward_e_step: "e_step (forward cfg) = e_step cfg"
  by (intro ext)
     (simp add: e_step_def null_candidate_def forward_diag_weights candidates_def cand_body_def)

lemma forward_viterbi_argmax: "viterbi_argmax (forward cfg) = viterbi_argmax cfg"
  by (intro ext) (simp add: viterbi_argmax_def)

lemma forward_count_step: "count_step (forward cfg) = count_step cfg"
  by (intro ext) (simp add: count_step_def)

lemma forward_align_token:
  "reverse cfg \<Longrightarrow> align_token (forward cfg) j mx = swap_point (align_token cfg j mx)"
  by (simp add: align_token_def)

lemma forward_viterbi_step:
  assumes "reverse cfg"
  shows "viterbi_step (forward cfg) src j f probs (fa, swap_output st)
           = (fst (viterbi_step cfg src j f probs (fa, st)),
              swap_output (snd (viterbi_step cfg src j f probs (fa, st))))"
  by (simp add: viterbi_step_def forward_viterbi_argmax forward_align_token[OF assms]
        Let_def case_prod_beta swap_output_def)

lemma forward_position:
  assumes "reverse cfg"
  shows "position (forward cfg) fin src trg j (lift3 pfs) = lift3 (position cfg fin src trg j pfs)"
proof -
  obtain p fa st where pfs: "pfs = (p, fa, st)" by (metis prod_cases3)
  obtain p' sm b' where es: "e_step cfg (s2t st) src trg j (unnormed_a_i st) p = (p', sm, b')"
    by (metis prod_cases3)
  have u: "(swap_output st)\<lparr>unnormed_a_i := b'\<rparr> = swap_output (st\<lparr>unnormed_a_i := b'\<rparr>)"
    by (simp add: swap_output_def)
  show ?thesis
    unfolding pfs lift3_def
    by (simp add: position_def forward_e_step es u forward_viterbi_step[OF assms]
          forward_count_step Let_def case_prod_beta)
qed

lemma forward_positions:
  assumes "reverse cfg"
  shows "fold (position (forward cfg) fin src trg) js (lift3 pfs)
           = lift3 (fold (position cfg fin src trg) js pfs)"
  by (induction js arbitrary: pfs) (simp_all add: forward_position[OF assms])

lemma forward_begin_pair:
  "begin_pair iter src trg (swap_output st) = swap_output (begin_pair iter src trg st)"
  by (simp add: begin_pair_def Let_def swap_output_def)

lemma forward_align_pair:
  assumes "reverse cfg"
  shows "align_pair (forward cfg) iter fin src trg (swap_output st)
           = swap_output (align_pair cfg iter fin src trg st)"
proof -
  have "(replicate (length src + 1) 0, True, begin_pair iter src trg (swap_output st))
          = lift3 (replicate (length src + 1) 0, True, begin_pair iter src trg st)"
    by (simp add: lift3_def forward_begin_pair)
  then have "fold (position (forward cfg) fin src trg) [0..<length trg]
               (replicate (length src + 1) 0, True, begin_pair iter src trg (swap_output st))
          = lift3 (fold (position cfg fin src trg) [0..<length trg]
               (replicate (length src + 1) 0, True, begin_pair iter src trg st))"
    by (simp only: forward_positions[OF assms])
  then show ?thesis
    by (simp add: align_pair_def Let_def case_prod_beta lift3_def)
qed

lemma forward_count_line: "count_line (swap_output st) = swap_output (count_line st)"
  by (simp add: count_line_def Let_def swap_output_def)

lemma forward_begin_pass:
  "begin_pass (forward cfg) iter (swap_output st) = swap_output (begin_pass cfg iter st)"
  by (simp add: begin_pass_def swap_output_def final_iteration_of_def)

lemma forward_end_of_iteration:
  "digamma en' = digamma en \<Longrightarrow>
   end_of_iteration en' (forward cfg) iter fin (swap_output st)
     = swap_output (end_of_iteration en cfg iter fin st)"
  by (simp add: end_of_iteration_def Let_def swap_output_def)

lemma related_mono:
  "related ls ls' r r' \<Longrightarrow> set (zip ls ls') \<subseteq> set (zip ms ms') \<Longrightarrow> related ms ms' r r'"
  by (cases r) (auto simp: related_def)

lemma forward_sides:
  "reverse cfg \<Longrightarrow> swapped_line en en' l l' \<Longrightarrow> sides en' (forward cfg) l' = sides en cfg l"
  by (cases "ReadLine en l") (simp add: sides_def swapped_line_def)

lemma forward_process_line:
  assumes r: "reverse cfg" and s: "swapped_line en en' l l'"
  shows "related [l] [l'] (process_line en cfg iter fin l st)
           (process_line en' (forward cfg) iter fin l' (swap_output st))"
proof (cases "valid_line en cfg l")
  case True
  then have v': "valid_line en' (forward cfg) l'" by (simp add: valid_line_def forward_sides[OF r s])
  show ?thesis
    by (simp add: process_line_valid[OF True] process_line_valid[OF v'] forward_sides[OF r s]
          forward_count_line forward_align_pair[OF r] related_def)
next
  case False
  then have v': "\<not> valid_line en' (forward cfg) l'" by (simp add: valid_line_def forward_sides[OF r s])
  have "process_line en' (forward cfg) iter fin l' (swap_output st)
          = Inl ((swap_output (count_line st))
                   \<lparr>cerr := cerr (count_line st) @ [FormatError (lc (count_line st)) l']\<rparr>)"
    by (simp add: process_line_invalid[OF v'] forward_count_line)
  then show ?thesis
    unfolding process_line_invalid[OF False] related_def by auto
qed

lemma forward_read_loop:
  assumes r: "reverse cfg"
  shows "list_all2 (swapped_line en en') ls ls' \<Longrightarrow>
         related ls ls' (read_loop en cfg iter fin ls st)
           (read_loop en' (forward cfg) iter fin ls' (swap_output st))"
proof (induction ls ls' arbitrary: st rule: list_all2_induct)
  case Nil
  then show ?case by (simp add: related_def)
next
  case (Cons l ls l' ls')
  note P = forward_process_line[OF r Cons.hyps(1), of iter fin st]
  show ?case
  proof (cases "process_line en cfg iter fin l st")
    case (Inl a)
    with P obtain a' where a': "process_line en' (forward cfg) iter fin l' (swap_output st) = Inl a'"
      by (auto simp: related_def)
    have "related [l] [l'] (Inl a) (Inl a')" using P Inl a' by simp
    then have "related (l # ls) (l' # ls') (Inl a) (Inl a')"
      by (rule related_mono) simp
    then show ?thesis by (simp add: Inl a')
  next
    case (Inr s)
    with P have s': "process_line en' (forward cfg) iter fin l' (swap_output st) = Inr (swap_output s)"
      by (simp add: related_def)
    have "related ls ls' (read_loop en cfg iter fin ls s)
            (read_loop en' (forward cfg) iter fin ls' (swap_output s))"
      by (rule Cons.IH)
    then have "related (l # ls) (l' # ls') (read_loop en cfg iter fin ls s)
            (read_loop en' (forward cfg) iter fin ls' (swap_output s))"
      by (rule related_mono) auto
    then show ?thesis by (simp add: Inr s')
  qed
qed

lemma forward_iteration:
  assumes r: "reverse cfg" and c: "swapped_corpus en en'"
  shows "related (input en) (input en') (iteration en cfg iter st)
           (iteration en' (forward cfg) iter (swap_output st))"
proof -
  have l: "list_all2 (swapped_line en en') (input en) (input en')"
    and d: "digamma en' = digamma en" using c by (simp_all add: swapped_corpus_def)
  have f: "final_iteration_of (forward cfg) iter = final_iteration_of cfg iter"
    by (simp add: final_iteration_of_def)
  note R = forward_read_loop[OF r l, of iter "final_iteration_of cfg iter" "begin_pass cfg iter st"]
  show ?thesis
  proof (cases "read_loop en cfg iter (final_iteration_of cfg iter) (input en) (begin_pass cfg iter st)")
    case (Inl a)
    with R obtain a' where a': "read_loop en' (forward cfg) iter (final_iteration_of cfg iter)
        (input en') (swap_output (begin_pass cfg iter st)) = Inl a'"
      by (auto simp: related_def)
    show ?thesis using R by (simp add: iteration_def Let_def f forward_begin_pass Inl a')
  next
    case (Inr s)
    with R have s': "read_loop en' (forward cfg) iter (final_iteration_of cfg iter)
        (input en') (swap_output (begin_pass cfg iter st)) = Inr (swap_output s)"
      by (simp add: related_def)
    show ?thesis
      by (simp add: iteration_def Let_def f forward_begin_pass Inr s'
            forward_end_of_iteration[OF d] related_def)
  qed
qed

lemma forward_iterations:
  assumes r: "reverse cfg" and c: "swapped_corpus en en'"
  shows "related (input en) (input en') (iterations en cfg its st)
           (iterations en' (forward cfg) its (swap_output st))"
proof (induction its arbitrary: st)
  case Nil
  then show ?case by (simp add: related_def)
next
  case (Cons iter its)
  note I = forward_iteration[OF r c, of iter st]
  show ?case
  proof (cases "iteration en cfg iter st")
    case (Inl a)
    with I obtain a' where a': "iteration en' (forward cfg) iter (swap_output st) = Inl a'"
      by (auto simp: related_def)
    show ?thesis using I by (simp add: Inl a')
  next
    case (Inr s)
    with I have "iteration en' (forward cfg) iter (swap_output st) = Inr (swap_output s)"
      by (simp add: related_def)
    then show ?thesis using Cons.IH[of s] by (simp add: Inr)
  qed
qed

lemma forward_training:
  assumes r: "reverse cfg" and c: "swapped_corpus en en'"
  shows "related (input en) (input en') (training en cfg) (training en' (forward cfg))"
proof -
  have "swap_output init_state = init_state" by (simp add: swap_output_def init_state_def)
  with forward_iterations[OF r c, of "[0..<nat (ITERATIONS cfg)]" init_state]
  show ?thesis by (simp add: training_def)
qed

lemma forward_test_candidates: "test_candidates (forward cfg) = test_candidates cfg"
  by (intro ext) (simp add: test_candidates_def test_cand_body_def)

lemma swap_output_update:
  "swap_output (st\<lparr>unnormed_a_i := b\<rparr>) = (swap_output st)\<lparr>unnormed_a_i := b\<rparr>"
  "swap_output (st\<lparr>cout := c\<rparr>) = st\<lparr>cout := map swap_point c\<rparr>"
  "(swap_output st)\<lparr>cout := c\<rparr> = st\<lparr>cout := c\<rparr>"
  by (simp_all add: swap_output_def)

lemma forward_test_position:
  assumes "reverse cfg"
  shows "test_position (forward cfg) src trg j (lp, swap_output st)
           = lift2 (test_position cfg src trg j (lp, st))"
  unfolding test_position_def lift2_def forward_test_candidates forward_diag_weights
  by (simp add: forward_align_token[OF assms] Let_def case_prod_beta swap_output_update)

lemma forward_test_positions:
  assumes "reverse cfg"
  shows "fold (test_position (forward cfg) src trg) js (lift2 ls)
           = lift2 (fold (test_position cfg src trg) js ls)"
proof (induction js arbitrary: ls)
  case Nil
  show ?case by simp
next
  case (Cons j js)
  have "test_position (forward cfg) src trg j (lift2 ls) = lift2 (test_position cfg src trg j ls)"
    using forward_test_position[OF assms, of src trg j "fst ls" "snd ls"]
    by (simp add: lift2_def)
  then show ?case using Cons.IH by simp
qed

lemma forward_begin_test_line:
  assumes r: "reverse cfg" and s: "swapped_line en en' l l'"
  shows "sides en' (forward cfg) l' = sides en cfg l"
    and "begin_test_line en' (forward cfg) l' (swap_output st)
           = swap_output (begin_test_line en cfg l st)"
proof -
  obtain a b where rl: "ReadLine en l = (a, b)" by (metis surj_pair)
  have rl': "ReadLine en' l' = (b, a)" using s rl by (simp add: swapped_line_def)
  show sd: "sides en' (forward cfg) l' = sides en cfg l"
    using r rl rl' by (simp add: sides_def)
  show "begin_test_line en' (forward cfg) l' (swap_output st)
           = swap_output (begin_test_line en cfg l st)"
    unfolding begin_test_line_def sd by (simp add: Let_def rl rl' swap_output_def)
qed

lemma forward_test_line:
  assumes r: "reverse cfg" and s: "swapped_line en en' l l'" and p: "log_poisson en' = log_poisson en"
  shows "test_line en' (forward cfg) l' (lift2 ts) = lift2 (test_line en cfg l ts)"
proof -
  obtain tlp st where ts: "ts = (tlp, st)" by (metis surj_pair)
  let ?src = "fst (sides en cfg l)" and ?trg = "snd (sides en cfg l)"
  let ?lp = "log_poisson en (length ?trg) (5 / 100 + real (length ?src) * mean_srclen_multiplier st)"
  let ?r = "fold (test_position cfg ?src ?trg) [0..<length ?trg] (?lp, begin_test_line en cfg l st)"
  let ?r' = "fold (test_position (forward cfg) ?src ?trg) [0..<length ?trg]
               (?lp, swap_output (begin_test_line en cfg l st))"
  have e: "?r' = lift2 ?r"
    using forward_test_positions[OF r, of ?src ?trg "[0..<length ?trg]"
            "(?lp, begin_test_line en cfg l st)"]
    by (simp add: lift2_def)
  have a: "test_line en cfg l (tlp, st)
             = (tlp + fst ?r, (snd ?r)\<lparr>cout := cout (snd ?r) @ [TestScore (fst ?r)]\<rparr>)"
    by (simp add: test_line_eq Let_def)
  have b: "test_line en' (forward cfg) l' (tlp, swap_output st)
             = (tlp + fst ?r', (snd ?r')\<lparr>cout := cout (snd ?r') @ [TestScore (fst ?r')]\<rparr>)"
    by (simp add: test_line_eq Let_def forward_begin_test_line[OF r s] p)
  have c: "lift2 (tlp, st) = (tlp, swap_output st)" by (simp add: lift2_def)
  show ?thesis
    unfolding ts c b e a by (simp add: lift2_def swap_output_def)
qed

lemma forward_test_lines:
  assumes r: "reverse cfg" and p: "log_poisson en' = log_poisson en"
  shows "list_all2 (swapped_line en en') ls ls' \<Longrightarrow>
         fold (test_line en' (forward cfg)) ls' (lift2 ts) = lift2 (fold (test_line en cfg) ls ts)"
  by (induction ls ls' arbitrary: ts rule: list_all2_induct)
     (simp_all add: forward_test_line[OF r _ p])

lemma forward_test_scorer:
  assumes r: "reverse cfg" and c: "swapped_corpus en en'"
  shows "test_scorer en' (forward cfg) (swap_output st) = swap_output (test_scorer en cfg st)"
proof -
  have l: "list_all2 (swapped_line en en') (testset_lines en) (testset_lines en')"
    and p: "log_poisson en' = log_poisson en" using c by (simp_all add: swapped_corpus_def)
  from forward_test_lines[OF r p l, of "(0, st)"]
  have "fold (test_line en' (forward cfg)) (testset_lines en') (0, swap_output st)
          = lift2 (fold (test_line en cfg) (testset_lines en) (0, st))"
    by (simp add: lift2_def)
  then show ?thesis
    by (simp add: test_scorer_def case_prod_beta lift2_def swap_output_def)
qed

lemma swap_row_out: "map swap_point (row_out cfg look ei) = row_out cfg look ei"
  by (simp add: row_out_def comp_def)

lemma forward_row_out: "row_out (forward cfg) = row_out cfg"
  by (intro ext) (simp add: row_out_def BEAM_THRESHOLD_def)

lemma forward_dump_entry:
  "dump_entry (forward cfg) ei (swap_output st) = swap_output (dump_entry cfg ei st)"
  unfolding dump_entry_eq forward_row_out
  by (simp add: swap_row_out swap_output_def)

lemma forward_dump: "dump (forward cfg) (swap_output st) = swap_output (dump cfg st)"
proof -
  have "fold (dump_entry (forward cfg)) T (swap_output s) = swap_output (fold (dump_entry cfg) T s)"
    for T s
    by (induction T arbitrary: s) (simp_all add: forward_dump_entry)
  then show ?thesis by (simp add: dump_def)
qed

lemma swap_point_involution: "swap_point (swap_point x) = x"
  by (cases x) simp_all

lemma swap_point_twice: "map swap_point (map swap_point xs) = xs"
  by (induction xs) (simp_all add: swap_point_involution)

lemma swap_output_twice: "swap_output (swap_output st) = st"
  by (simp add: swap_output_def comp_def swap_point_involution)

lemma likelihood_reports_error:
  "likelihood_reports (es @ [FormatError n l]) = likelihood_reports es"
  by (simp add: likelihood_reports_def)

lemma forward_main_completed:
  assumes r: "reverse cfg" and c: "swapped_corpus en en'"
    and a: "\<not> (variational_bayes cfg \<and> alpha cfg \<le> 0)"
    and t: "training en cfg = Inr st"
  shows "main en' (forward cfg) = (fst (main en cfg), swap_output (snd (main en cfg)))"
proof -
  have t': "training en' (forward cfg) = Inr (swap_output st)"
    using forward_training[OF r c] t by (simp add: related_def)
  show ?thesis
    using a by (auto simp: main_def t t' Let_def forward_test_scorer[OF r c] forward_dump)
qed

lemma forward_main_aborted:
  assumes r: "reverse cfg" and c: "swapped_corpus en en'"
    and a: "\<not> (variational_bayes cfg \<and> alpha cfg \<le> 0)"
    and t: "training en cfg = Inl sa"
  shows "\<exists>st l l'. main en cfg = (1, st\<lparr>cerr := cerr st @ [FormatError (lc st) l]\<rparr>) \<and>
           main en' (forward cfg)
             = (1, (swap_output st)\<lparr>cerr := cerr st @ [FormatError (lc st) l']\<rparr>)"
proof -
  from forward_training[OF r c] t obtain st l l' where
    sa: "sa = st\<lparr>cerr := cerr st @ [FormatError (lc st) l]\<rparr>" and
    t': "training en' (forward cfg)
           = Inl ((swap_output st)\<lparr>cerr := cerr st @ [FormatError (lc st) l']\<rparr>)"
    by (auto simp: related_def)
  have "main en cfg = (1, st\<lparr>cerr := cerr st @ [FormatError (lc st) l]\<rparr>)"
    using a by (auto simp: main_def t sa)
  moreover have "main en' (forward cfg)
             = (1, (swap_output st)\<lparr>cerr := cerr st @ [FormatError (lc st) l']\<rparr>)"
    using a by (auto simp: main_def t')
  ultimately show ?thesis by blast
qed

lemma forward_main:
  assumes r: "reverse cfg" and c: "swapped_corpus en en'"
  shows "fst (main en' (forward cfg)) = fst (main en cfg)"
    and "cout (snd (main en' (forward cfg))) = map swap_point (cout (snd (main en cfg)))"
    and "likelihood_reports (cerr (snd (main en' (forward cfg))))
           = likelihood_reports (cerr (snd (main en cfg)))"
    and "likelihood (snd (main en' (forward cfg))) = likelihood (snd (main en cfg))"
    and "s2t (snd (main en' (forward cfg))) = s2t (snd (main en cfg))"
proof -
  let ?P = "fst (main en' (forward cfg)) = fst (main en cfg) \<and>
     cout (snd (main en' (forward cfg))) = map swap_point (cout (snd (main en cfg))) \<and>
     likelihood_reports (cerr (snd (main en' (forward cfg))))
           = likelihood_reports (cerr (snd (main en cfg))) \<and>
     likelihood (snd (main en' (forward cfg))) = likelihood (snd (main en cfg)) \<and>
     s2t (snd (main en' (forward cfg))) = s2t (snd (main en cfg))"
  have ?P
  proof (cases "variational_bayes cfg \<and> alpha cfg \<le> 0")
    case True
    then show ?thesis by (simp add: main_def init_state_def)
  next
    case False
    show ?thesis
    proof (cases "training en cfg")
      case (Inl sa)
      from forward_main_aborted[OF r c False Inl] obtain st l l' where
        "main en cfg = (1, st\<lparr>cerr := cerr st @ [FormatError (lc st) l]\<rparr>)"
        "main en' (forward cfg)
             = (1, (swap_output st)\<lparr>cerr := cerr st @ [FormatError (lc st) l']\<rparr>)"
        by blast
      then show ?thesis by (simp add: likelihood_reports_error)
    next
      case (Inr st)
      show ?thesis by (simp add: forward_main_completed[OF r c False Inr])
    qed
  qed
  then show "fst (main en' (forward cfg)) = fst (main en cfg)"
    and "cout (snd (main en' (forward cfg))) = map swap_point (cout (snd (main en cfg)))"
    and "likelihood_reports (cerr (snd (main en' (forward cfg))))
           = likelihood_reports (cerr (snd (main en cfg)))"
    and "likelihood (snd (main en' (forward cfg))) = likelihood (snd (main en cfg))"
    and "s2t (snd (main en' (forward cfg))) = s2t (snd (main en cfg))"
    by simp_all
qed

text \<open>
  C4. Training with \<open>reverse\<close> set on a corpus and training without it on the corpus with the
  two sides of every line exchanged report the same likelihoods and leave the same table, and
  the output of the first run is the output of the second with the two indices of every
  alignment token exchanged. The same holds pair by pair: \<open>align_pair\<close> adds the same amount
  to the likelihood in both runs and emits the exchanged tokens.
\<close>

theorem reverse_round_trip:
  assumes "reverse cfg" and "swapped_corpus en en'"
  shows "fst (main en cfg) = fst (main en' (forward cfg)) \<and>
     cout (snd (main en cfg)) = map swap_point (cout (snd (main en' (forward cfg)))) \<and>
     likelihood_reports (cerr (snd (main en cfg)))
       = likelihood_reports (cerr (snd (main en' (forward cfg)))) \<and>
     likelihood (snd (main en cfg)) = likelihood (snd (main en' (forward cfg))) \<and>
     s2t (snd (main en cfg)) = s2t (snd (main en' (forward cfg))) \<and>
     (\<forall>iter fin src trg st.
        align_pair cfg iter fin src trg st
          = swap_output (align_pair (forward cfg) iter fin src trg (swap_output st)))"
proof -
  have "align_pair cfg iter fin src trg st
          = swap_output (align_pair (forward cfg) iter fin src trg (swap_output st))"
    for iter fin src trg st
    unfolding forward_align_pair[OF assms(1)] swap_output_twice ..
  moreover have "cout (snd (main en cfg)) = map swap_point (cout (snd (main en' (forward cfg))))"
    unfolding forward_main(2)[OF assms] swap_point_twice ..
  ultimately show ?thesis
    using forward_main(1,3,4,5)[OF assms] by simp
qed

theorem reverse_round_trip_witness:
  "cout (snd (main example_env (default_conf\<lparr>reverse := True\<rparr>)))
     = map swap_point
         (cout (snd (main (swapped_env example_env) (forward (default_conf\<lparr>reverse := True\<rparr>)))))"
  using reverse_round_trip[of "default_conf\<lparr>reverse := True\<rparr>" example_env
          "swapped_env example_env"]
  by (simp add: swapped_corpus_def swapped_line_def swapped_env_def example_env_def)

section \<open>Properties of the program over \<open>double\<close>\<close>

subsection \<open>The operations of \<open>double\<close> on real numbers\<close>



lemma ddiv_NaN_right: "ddiv x NaN = NaN"
  by (cases x) simp_all

lemma dless_NaN_right: "\<not> dless x NaN"
  by (cases x) simp_all

lemma ddiv_Fin: "b \<noteq> 0 \<Longrightarrow> ddiv (Fin a) (Fin b) = Fin (a / b)"
  by simp

lemma dsub_Fin: "dsub (Fin a) (Fin b) = Fin (a - b)"
  by (simp add: dsub_def)

lemma dlog_Fin: "0 < a \<Longrightarrow> dlog (Fin a) = Fin (ln a)"
  by simp

lemma dexp_Fin: "exp_ok a \<Longrightarrow> dexp (Fin a) = Fin (exp a)"
proof -
  assume "exp_ok a"
  then have l: "1 / 2 ^ 512 \<le> exp a" and u: "exp a \<le> 2 ^ 512" by (simp_all add: exp_ok_def)
  have c: "(1 :: real) / 2 ^ 1075 < 1 / 2 ^ 512" by simp
  have d: "(2 :: real) ^ 512 < 2 ^ 1024 - 2 ^ 970" by simp
  have "\<not> 2 ^ 1024 - 2 ^ 970 \<le> exp a" using u d by linarith
  moreover have "\<not> exp a \<le> 1 / 2 ^ 1075" using l c by linarith
  ultimately show ?thesis by (simp only: dexp.simps if_False)
qed

lemma exp_ok_between: "exp_ok (- t) \<Longrightarrow> exp_ok t \<Longrightarrow> \<bar>x\<bar> \<le> t \<Longrightarrow> exp_ok x"
proof -
  assume a: "exp_ok (- t)" and b: "exp_ok t" and c: "\<bar>x\<bar> \<le> t"
  have "exp (- t) \<le> exp x" using c by simp
  moreover have "exp x \<le> exp t" using c by simp
  ultimately show "exp_ok x" using a b unfolding exp_ok_def by linarith
qed

lemma dsum_Fin: "dsum (map Fin xs) = Fin (sum_list xs)"
  by (induction xs) (simp_all add: dsum_def)

lemma map_Fin_update: "(map Fin xs)[i := Fin v] = map Fin (xs[i := v])"
  by (simp add: map_update)

subsection \<open>The embedding of maps and tables\<close>

lemma map_of_emb_row: "map_of (emb_row cpd) f = map_option Fin (map_of cpd f)"
  by (induction cpd) (simp_all add: emb_row_def)

lemma map_of_emb_map: "map_of (emb_map m) e = map_option emb_row (map_of m e)"
  by (induction m) (simp_all add: emb_map_def)

lemma lookup2_emb: "lookup2_fp (emb_map m) e f = map_option Fin (lookup2 m e f)"
  by (simp add: lookup2_fp_def lookup2_def map_of_emb_map map_of_emb_row split: option.splits)

lemma prob_emb: "prob_fp (emb_table T) e f = Fin (prob T e f)"
  by (simp add: prob_fp_def prob_def emb_table_def lookup2_emb split: option.splits)

lemma map_default_emb_row:
  "(\<And>y. F (Fin y) = Fin (g y)) \<Longrightarrow>
   AList.map_default f (Fin v) F (emb_row cpd) = emb_row (AList.map_default f v g cpd)"
  by (induction cpd) (simp_all add: emb_row_def)

lemma map_default_emb_map:
  "(\<And>cpd. G (emb_row cpd) = emb_row (g cpd)) \<Longrightarrow>
   AList.map_default e (emb_row v) G (emb_map m) = emb_map (AList.map_default e v g m)"
  by (induction m) (simp_all add: emb_map_def)

lemma add_to_emb: "add_to_fp (emb_map m) e f (Fin x) = emb_map (add_to m e f x)"
proof -
  have r: "AList.map_default f (dadd (Fin 0) (Fin x)) (\<lambda>v. dadd v (Fin x)) (emb_row cpd)
             = emb_row (AList.map_default f (0 + x) (\<lambda>v. v + x) cpd)" for cpd
    using map_default_emb_row[of "\<lambda>v. dadd v (Fin x)" "\<lambda>v. v + x" f "0 + x" cpd] by simp
  have s: "[(f, dadd (Fin 0) (Fin x))] = emb_row [(f, 0 + x)]" by (simp add: emb_row_def)
  show ?thesis
    unfolding add_to_fp_def add_to_def s
    by (rule map_default_emb_map) (rule r)
qed

lemma assign_emb: "assign_fp (emb_map m) e f (Fin x) = emb_map (assign m e f x)"
proof -
  have r: "AList.map_default f (Fin x) (\<lambda>v. Fin x) (emb_row cpd)
             = emb_row (AList.map_default f x (\<lambda>v. x) cpd)" for cpd
    by (rule map_default_emb_row) simp
  have s: "[(f, Fin x)] = emb_row [(f, x)]" by (simp add: emb_row_def)
  show ?thesis
    unfolding assign_fp_def assign_def s
    by (rule map_default_emb_map) (rule r)
qed

lemma Increment_emb: "Increment_fp (emb_table T) e f (Fin x) = emb_table (Increment T e f x)"
  by (simp add: Increment_fp_def Increment_def emb_table_def add_to_emb)

lemma ttable_emb [simp]:
  "ttable_fp (emb_table T) = emb_map (ttable T)" "counts_fp (emb_table T) = emb_map (counts T)"
  by (simp_all add: emb_table_def)

subsection \<open>The E-step on real numbers\<close>

lemma fold_sim:
  "(\<And>x s. x \<in> set xs \<Longrightarrow> g x (E s) = E (f x s)) \<Longrightarrow> fold g xs (E s) = E (fold f xs s)"
  by (induction xs arbitrary: s) simp_all

lemma diag_weight_emb:
  assumes t: "tension_ok cfg" and I: "0 < I" and ta: "ta < I" and j0: "0 \<le> jt" and j1: "jt \<le> 1"
  shows "diag_weight_fp cfg I (Fin jt) ta = Fin (diag_weight cfg I jt ta)"
proof -
  let ?d = "real ta / real I - jt"
  have q0: "0 \<le> real ta / real I" by simp
  have q1: "real ta / real I \<le> 1" using ta I by simp
  have d: "\<bar>?d\<bar> \<le> 1" using q0 q1 j0 j1 by linarith
  have "\<bar>- \<bar>?d\<bar> * diagonal_tension cfg\<bar> = \<bar>?d\<bar> * \<bar>diagonal_tension cfg\<bar>"
    by (simp add: abs_mult)
  also have "\<dots> \<le> 1 * \<bar>diagonal_tension cfg\<bar>"
    using d by (intro mult_right_mono) simp_all
  finally have "\<bar>- \<bar>?d\<bar> * diagonal_tension cfg\<bar> \<le> \<bar>diagonal_tension cfg\<bar>" by simp
  with t have "exp_ok (- \<bar>?d\<bar> * diagonal_tension cfg)"
    unfolding tension_ok_def by (metis exp_ok_between)
  then have "dexp (Fin (- \<bar>?d\<bar> * diagonal_tension cfg)) = Fin (exp (- \<bar>?d\<bar> * diagonal_tension cfg))"
    by (rule dexp_Fin)
  moreover have "real I \<noteq> 0" using I by simp
  ultimately show ?thesis
    by (simp add: diag_weight_fp_def diag_weight_def dsub_Fin)
qed

lemma diag_weights_emb:
  assumes fd: "favor_diagonal cfg \<longrightarrow> tension_ok cfg \<and> prob_align_null cfg \<noteq> 1"
    and I: "0 < I" and j0: "0 \<le> jt" and j1: "jt \<le> 1"
  shows "diag_weights_fp cfg I (Fin jt) (map Fin buf)
           = map_prod (map Fin) Fin (diag_weights cfg I jt buf)"
proof (cases "favor_diagonal cfg")
  case False
  then show ?thesis by (simp add: diag_weights_fp_def diag_weights_def)
next
  case True
  with fd have t: "tension_ok cfg" and p: "prob_align_null cfg \<noteq> 1" by simp_all
  have step: "fill_body_fp cfg I (Fin jt) ta (map_prod (map Fin) Fin s)
                = map_prod (map Fin) Fin (fill_body cfg I jt ta s)"
    if "ta \<in> set [0..<I]" for ta s
  proof -
    have "ta < I" using that by simp
    from diag_weight_emb[OF t I this j0 j1] show ?thesis
      by (cases s) (simp add: fill_body_fp_def fill_body_def map_Fin_update)
  qed
  have "fold (fill_body_fp cfg I (Fin jt)) [0..<I] (map_prod (map Fin) Fin (buf, 0))
          = map_prod (map Fin) Fin (fold (fill_body cfg I jt) [0..<I] (buf, 0))"
    by (rule fold_sim) (rule step)
  then have f: "fold (fill_body_fp cfg I (Fin jt)) [0..<I] (map Fin buf, Fin 0)
          = map_prod (map Fin) Fin (fold (fill_body cfg I jt) [0..<I] (buf, 0))"
    by simp
  have n: "prob_align_not_null cfg \<noteq> 0" using p by (simp add: prob_align_not_null_def)
  show ?thesis
    using True n by (simp add: diag_weights_fp_def diag_weights_def f case_prod_beta)
qed

lemma null_candidate_emb:
  "0 < I \<Longrightarrow>
   null_candidate_fp cfg (emb_table T) I f (map Fin probs)
     = map_prod Fin (map_prod (map Fin) Fin) (null_candidate cfg T I f probs)"
  by (simp add: null_candidate_fp_def null_candidate_def Let_def prob_emb map_Fin_update)

lemma cand_body_emb:
  assumes "favor_diagonal cfg \<longrightarrow> az \<noteq> 0 \<and> i - 1 < length buf"
  shows "cand_body_fp cfg (emb_table T) src f (map Fin buf) (Fin az) i
           (map_prod Fin (map_prod (map Fin) Fin) s)
         = map_prod Fin (map_prod (map Fin) Fin) (cand_body cfg T src f buf az i s)"
  using assms
  by (cases s) (simp add: cand_body_fp_def cand_body_def Let_def prob_emb map_Fin_update)

lemma candidates_emb:
  assumes "favor_diagonal cfg \<longrightarrow> az \<noteq> 0 \<and> length src \<le> length buf"
  shows "candidates_fp cfg (emb_table T) src f (map Fin buf) (Fin az)
           (map_prod Fin (map_prod (map Fin) Fin) s)
         = map_prod Fin (map_prod (map Fin) Fin) (candidates cfg T src f buf az s)"
  unfolding candidates_fp_def candidates_def
proof (rule fold_sim)
  fix i s assume "i \<in> set [1..<length src + 1]"
  then have "i - 1 < length src" by auto
  with assms have "favor_diagonal cfg \<longrightarrow> az \<noteq> 0 \<and> i - 1 < length buf" by auto
  then show "cand_body_fp cfg (emb_table T) src f (map Fin buf) (Fin az) i
           (map_prod Fin (map_prod (map Fin) Fin) s)
         = map_prod Fin (map_prod (map Fin) Fin) (cand_body cfg T src f buf az i s)"
    by (rule cand_body_emb)
qed

lemma e_step_emb:
  assumes ne: "src \<noteq> []" and j: "j < length trg" and lb: "length src \<le> length buf"
    and fd: "favor_diagonal cfg \<longrightarrow> tension_ok cfg \<and> prob_align_null cfg \<noteq> 1"
  shows "e_step_fp cfg (emb_table T) src trg j (map Fin buf) (map Fin probs)
           = map_prod (map Fin) (map_prod Fin (map Fin)) (e_step cfg T src trg j buf probs)"
proof -
  let ?I = "length src" and ?jt = "real j / real (length trg)" and ?f = "trg ! j"
  have I: "0 < ?I" using ne by simp
  have J: "real (length trg) \<noteq> 0" using j by auto
  have j0: "0 \<le> ?jt" by simp
  have j1: "?jt \<le> 1" using j by (simp add: divide_le_eq)
  obtain pa0 probs0 s0 where nc: "null_candidate cfg T ?I ?f probs = (pa0, probs0, s0)"
    by (metis prod_cases3)
  obtain buf1 az where dw: "diag_weights cfg ?I ?jt buf = (buf1, az)"
    by (metis surj_pair)
  have nc': "null_candidate_fp cfg (emb_table T) ?I ?f (map Fin probs)
               = (Fin pa0, map Fin probs0, Fin s0)"
    by (simp add: null_candidate_emb[OF I] nc)
  have dw': "diag_weights_fp cfg ?I (Fin ?jt) (map Fin buf) = (map Fin buf1, Fin az)"
    by (simp add: diag_weights_emb[OF fd I j0 j1] dw)
  note D = diag_weights_facts[OF lb dw]
  have az: "favor_diagonal cfg \<longrightarrow> az \<noteq> 0 \<and> ?I \<le> length buf1"
  proof
    assume t: "favor_diagonal cfg"
    have "0 < weight_sum cfg ?I ?jt" using I by (rule weight_sum_pos)
    moreover have "1 - prob_align_null cfg \<noteq> 0" using fd t by simp
    ultimately have "prior_Z cfg ?I ?jt \<noteq> 0" by (simp add: prior_Z_def)
    then show "az \<noteq> 0 \<and> ?I \<le> length buf1" using D(1) D(3)[OF t] lb by simp
  qed
  have cd': "candidates_fp cfg (emb_table T) src ?f (map Fin buf1) (Fin az)
               (Fin pa0, map Fin probs0, Fin s0)
             = map_prod Fin (map_prod (map Fin) Fin)
                 (candidates cfg T src ?f buf1 az (pa0, probs0, s0))"
    using candidates_emb[OF az, of T ?f "(pa0, probs0, s0)"] by simp
  have jt: "ddiv (Fin (real j)) (Fin (real (length trg))) = Fin ?jt" using J by simp
  show ?thesis
    unfolding e_step_fp_def e_step_def jt
    by (simp only: Let_def nc nc' dw dw' cd' prod.case) (simp add: case_prod_beta)
qed

subsection \<open>One target position on real numbers\<close>

lemma argmax_body_emb:
  "i < length probs \<Longrightarrow>
   argmax_body_fp src (map Fin probs) i (map_prod id (map_prod Fin id) s)
     = map_prod id (map_prod Fin id) (argmax_body src probs i s)"
  by (cases s) (simp add: argmax_body_fp_def argmax_body_def)

lemma viterbi_argmax_emb:
  assumes "length src < length probs"
  shows "viterbi_argmax_fp cfg src (map Fin probs)
           = map_prod id (map_prod Fin id) (viterbi_argmax cfg src probs)"
proof -
  have "0 < length probs" using assms by auto
  then have i: "(if use_null cfg then (kNULL cfg, map Fin probs ! 0, 0) else (0, Fin (- 1), - 1))
          = map_prod id (map_prod Fin id)
              (if use_null cfg then (kNULL cfg, probs ! 0, 0) else (0, - 1, - 1))"
    by simp
  show ?thesis
    unfolding viterbi_argmax_fp_def viterbi_argmax_def i
  proof (rule fold_sim)
    fix i s assume "i \<in> set [1..<length src + 1]"
    then have "i < length probs" using assms by auto
    then show "argmax_body_fp src (map Fin probs) i (map_prod id (map_prod Fin id) s)
                 = map_prod id (map_prod Fin id) (argmax_body src probs i s)"
      by (rule argmax_body_emb)
  qed
qed

lemma align_token_emb: "emb_out (align_token cfg j idx) = align_token_fp cfg j idx"
  by (simp add: align_token_def align_token_fp_def)

lemma viterbi_step_sim:
  assumes s: "sim st sf" and l: "length src < length probs"
  shows "fst (viterbi_step_fp cfg src j f (map Fin probs) (fa, sf))
           = fst (viterbi_step cfg src j f probs (fa, st))"
    and "sim (snd (viterbi_step cfg src j f probs (fa, st)))
             (snd (viterbi_step_fp cfg src j f (map Fin probs) (fa, sf)))"
  using s
  by (simp_all add: viterbi_step_fp_def viterbi_step_def viterbi_argmax_emb[OF l] Let_def
        case_prod_beta sim_def assign_emb align_token_emb)

lemma count_step_emb:
  assumes sm: "sm \<noteq> 0" and l: "length src < length probs"
  shows "count_step_fp cfg src f (map Fin probs) (Fin sm) (emb_table T)
           = emb_table (count_step cfg src f probs sm T)"
proof -
  have "0 < length probs" using l by auto
  then have i: "(if use_null cfg
           then Increment_fp (emb_table T) (kNULL cfg) f (ddiv (map Fin probs ! 0) (Fin sm))
           else emb_table T)
          = emb_table (if use_null cfg then Increment T (kNULL cfg) f (probs ! 0 / sm) else T)"
    using sm by (simp add: Increment_emb)
  show ?thesis
    unfolding count_step_fp_def count_step_def i
  proof (rule fold_sim)
    fix i T1 assume "i \<in> set [1..<length src + 1]"
    then have "i < length probs" using l by auto
    then show "Increment_fp (emb_table T1) (src ! (i - 1)) f (ddiv (map Fin probs ! i) (Fin sm))
                 = emb_table (Increment T1 (src ! (i - 1)) f (probs ! i / sm))"
      using sm by (simp add: Increment_emb)
  qed
qed

lemma position_sim:
  assumes ok: "config_ok cfg" and ne: "src \<noteq> []" and j: "j < length trg"
    and fd: "favor_diagonal cfg \<longrightarrow> tension_ok cfg"
    and li: "loop_inv src pfs" and s3: "sim3 pfs qfs"
  shows "sim3 (position cfg fin src trg j pfs) (position_fp cfg fin src trg j qfs)"
proof -
  obtain probs fa st where pfs: "pfs = (probs, fa, st)" by (metis prod_cases3)
  obtain qp qa sf where qfs: "qfs = (qp, qa, sf)" by (metis prod_cases3)
  from s3 pfs qfs have qp: "qp = map Fin probs" and qa: "qa = fa" and s: "sim st sf"
    by (simp_all add: sim3_def)
  obtain probs' sm buf' where es:
    "e_step cfg (s2t st) src trg j (unnormed_a_i st) probs = (probs', sm, buf')"
    by (metis prod_cases3)
  from li pfs have lp: "length probs = length src + 1" and lb: "length src \<le> length (unnormed_a_i st)"
    and si: "state_inv st" by (simp_all add: loop_inv_def)
  from si have pos: "positive (ttable (s2t st))" by (simp add: state_inv_def table_inv_def)
  note P = e_step_pos[OF ok pos ne lp lb es]
  have fd': "favor_diagonal cfg \<longrightarrow> tension_ok cfg \<and> prob_align_null cfg \<noteq> 1"
    using fd ok by (auto simp: config_ok_def)
  have t: "s2t_fp sf = emb_table (s2t st)" and b: "unnormed_a_i_fp sf = map Fin (unnormed_a_i st)"
    using s by (simp_all add: sim_def)
  have es': "e_step_fp cfg (s2t_fp sf) src trg j (unnormed_a_i_fp sf) (map Fin probs)
               = (map Fin probs', Fin sm, map Fin buf')"
    unfolding t b by (simp add: e_step_emb[OF ne j lb fd'] es)
  let ?st1 = "st\<lparr>unnormed_a_i := buf'\<rparr>" and ?sf1 = "sf\<lparr>unnormed_a_i_fp := map Fin buf'\<rparr>"
  have s1: "sim ?st1 ?sf1" using s by (simp add: sim_def)
  have l': "length src < length probs'" using P(4) by simp
  have lg: "dlog (Fin sm) = Fin (ln sm)" using P(1) by simp
  have sm0: "sm \<noteq> 0" using P(1) by simp
  show ?thesis
  proof (cases fin)
    case True
    show ?thesis
    proof (cases "add_viterbi cfg \<or> write_alignments cfg")
      case True
      let ?r = "viterbi_step cfg src j (trg ! j) probs' (fa, ?st1)"
      let ?q = "viterbi_step_fp cfg src j (trg ! j) (map Fin probs') (fa, ?sf1)"
      from True \<open>fin\<close> have r: "position cfg fin src trg j (probs, fa, st) =
          (probs', fst ?r, (snd ?r)\<lparr>likelihood := likelihood (snd ?r) + ln sm\<rparr>)"
        by (simp add: position_def es Let_def case_prod_beta)
      from True \<open>fin\<close> have q: "position_fp cfg fin src trg j (map Fin probs, fa, sf) =
          (map Fin probs', fst ?q,
           (snd ?q)\<lparr>likelihood_fp := dadd (likelihood_fp (snd ?q)) (dlog (Fin sm))\<rparr>)"
        by (simp add: position_fp_def es' Let_def case_prod_beta)
      note V = viterbi_step_sim[OF s1 l', of cfg j "trg ! j" fa]
      show ?thesis unfolding pfs qfs qp qa r q
        using V lg by (simp add: sim3_def sim_def)
    next
      case False
      with \<open>fin\<close> have r: "position cfg fin src trg j (probs, fa, st) =
          (probs', fa, ?st1\<lparr>likelihood := likelihood ?st1 + ln sm\<rparr>)"
        by (simp add: position_def es Let_def case_prod_beta)
      from False \<open>fin\<close> have q: "position_fp cfg fin src trg j (map Fin probs, fa, sf) =
          (map Fin probs', fa, ?sf1\<lparr>likelihood_fp := dadd (likelihood_fp ?sf1) (dlog (Fin sm))\<rparr>)"
        by (simp add: position_fp_def es' Let_def case_prod_beta)
      show ?thesis unfolding pfs qfs qp qa r q
        using s1 lg by (simp add: sim3_def sim_def)
    qed
  next
    case False
    then have r: "position cfg fin src trg j (probs, fa, st) =
          (probs', fa, ?st1\<lparr>s2t := count_step cfg src (trg ! j) probs' sm (s2t st),
                             likelihood := likelihood ?st1 + ln sm\<rparr>)"
      by (simp add: position_def es Let_def case_prod_beta)
    from False have q: "position_fp cfg fin src trg j (map Fin probs, fa, sf) =
          (map Fin probs', fa,
           ?sf1\<lparr>s2t_fp := count_step_fp cfg src (trg ! j) (map Fin probs') (Fin sm) (s2t_fp sf),
                 likelihood_fp := dadd (likelihood_fp ?sf1) (dlog (Fin sm))\<rparr>)"
      by (simp add: position_fp_def es' Let_def case_prod_beta)
    show ?thesis unfolding pfs qfs qp qa r q t
      using s1 lg by (simp add: sim3_def sim_def count_step_emb[OF sm0 l'])
  qed
qed

lemma rel_fold:
  assumes "R s t" and "P s"
    and "\<And>x s t. x \<in> set xs \<Longrightarrow> R s t \<Longrightarrow> P s \<Longrightarrow> R (f x s) (g x t) \<and> P (f x s)"
  shows "R (fold f xs s) (fold g xs t) \<and> P (fold f xs s)"
  using assms
proof (induction xs arbitrary: s t)
  case Nil
  then show ?case by simp
next
  case (Cons x xs)
  have a: "R (f x s) (g x t) \<and> P (f x s)" using Cons.prems by simp
  have "R (fold f xs (f x s)) (fold g xs (g x t)) \<and> P (fold f xs (f x s))"
    by (rule Cons.IH) (use a Cons.prems(3) in simp_all)
  then show ?case by simp
qed

lemma positions_sim:
  assumes ok: "config_ok cfg" and ne: "src \<noteq> []" and js: "\<forall>j\<in>set js. j < length trg"
    and fd: "favor_diagonal cfg \<longrightarrow> tension_ok cfg"
    and li: "loop_inv src pfs" and s3: "sim3 pfs qfs"
  shows "sim3 (fold (position cfg fin src trg) js pfs) (fold (position_fp cfg fin src trg) js qfs)"
proof -
  have "sim3 (fold (position cfg fin src trg) js pfs) (fold (position_fp cfg fin src trg) js qfs) \<and>
        loop_inv src (fold (position cfg fin src trg) js pfs)"
  proof (rule rel_fold[where R = sim3 and P = "loop_inv src"])
    show "sim3 pfs qfs" by (rule s3)
    show "loop_inv src pfs" by (rule li)
    fix j p q assume "j \<in> set js" "sim3 p q" "loop_inv src p"
    then show "sim3 (position cfg fin src trg j p) (position_fp cfg fin src trg j q) \<and>
               loop_inv src (position cfg fin src trg j p)"
      using position_sim[OF ok ne _ fd, of j trg p q fin] position_inv[OF ok ne, of p fin trg j] js
      by blast
  qed
  then show ?thesis by blast
qed

subsection \<open>Lines, passes and the training on real numbers\<close>

lemma resize_emb: "resize_fp (map Fin buf) n = map Fin (resize buf n)"
  by (simp add: resize_fp_def resize_def take_map)

lemma begin_pair_sim:
  assumes "sim st sf" and "src \<noteq> []"
  shows "sim (begin_pair iter src trg st) (begin_pair_fp iter src trg sf)"
  using assms by (simp add: begin_pair_def begin_pair_fp_def sim_def Let_def resize_emb)

lemma sim_endl: "sim st sf \<Longrightarrow> sim (st\<lparr>cout := cout st @ [Endl]\<rparr>) (sf\<lparr>cout_fp := cout_fp sf @ [Endl_fp]\<rparr>)"
  by (simp add: sim_def)

lemma align_pair_sim:
  assumes ok: "config_ok cfg" and ne: "src \<noteq> []" and fd: "favor_diagonal cfg \<longrightarrow> tension_ok cfg"
    and si: "state_inv st" and s: "sim st sf"
  shows "sim (align_pair cfg iter fin src trg st) (align_pair_fp cfg iter fin src trg sf)"
proof -
  let ?p = "(replicate (length src + 1) 0, True, begin_pair iter src trg st)"
  let ?q = "(replicate (length src + 1) (Fin 0), True, begin_pair_fp iter src trg sf)"
  let ?P = "fold (position cfg fin src trg) [0..<length trg] ?p"
  let ?Q = "fold (position_fp cfg fin src trg) [0..<length trg] ?q"
  have s3: "sim3 ?p ?q"
    using begin_pair_sim[OF s ne, of iter trg] by (simp add: sim3_def)
  have js: "\<forall>j\<in>set [0..<length trg]. j < length trg" by simp
  have "sim3 ?P ?Q" by (rule positions_sim[OF ok ne js fd begin_pair_inv(1)[OF si] s3])
  then have R: "sim (snd (snd ?P)) (snd (snd ?Q))" by (simp only: sim3_def)
  have a: "align_pair cfg iter fin src trg st =
     (if write_alignments cfg \<and> fin \<and> \<not> hide_training_alignments cfg
      then (snd (snd ?P))\<lparr>cout := cout (snd (snd ?P)) @ [Endl]\<rparr> else snd (snd ?P))"
    by (simp add: align_pair_def case_prod_beta)
  have b: "align_pair_fp cfg iter fin src trg sf =
     (if write_alignments cfg \<and> fin \<and> \<not> hide_training_alignments cfg
      then (snd (snd ?Q))\<lparr>cout_fp := cout_fp (snd (snd ?Q)) @ [Endl_fp]\<rparr> else snd (snd ?Q))"
    by (simp add: align_pair_fp_def case_prod_beta)
  show ?thesis
  proof (cases "write_alignments cfg \<and> fin \<and> \<not> hide_training_alignments cfg")
    case True
    show ?thesis unfolding a b if_P[OF True] by (rule sim_endl[OF R])
  next
    case False
    show ?thesis unfolding a b if_not_P[OF False] by (rule R)
  qed
qed

lemma count_line_sim: "sim st sf \<Longrightarrow> sim (count_line st) (count_line_fp sf)"
  by (simp add: count_line_def count_line_fp_def sim_def Let_def)

lemma line_step_sim:
  assumes ok: "config_ok cfg" and fd: "favor_diagonal cfg \<longrightarrow> tension_ok cfg"
    and v: "valid_line en cfg line" and si: "state_inv st" and s: "sim st sf"
  shows "sim (line_step en cfg iter fin line st) (line_step_fp en cfg iter fin line sf)"
proof -
  have ne: "fst (sides en cfg line) \<noteq> []" using v by (simp add: valid_line_def)
  have si': "state_inv (count_line st)" using si by (simp add: state_inv_count_line)
  show ?thesis
    unfolding line_step_def line_step_fp_def
    by (rule align_pair_sim[OF ok ne fd si' count_line_sim[OF s]])
qed

lemma lines_sim:
  assumes ok: "config_ok cfg" and fd: "favor_diagonal cfg \<longrightarrow> tension_ok cfg"
    and v: "\<forall>l\<in>set lines. valid_line en cfg l" and si: "state_inv st" and s: "sim st sf"
  shows "sim (fold (line_step en cfg iter fin) lines st)
             (fold (line_step_fp en cfg iter fin) lines sf)"
proof -
  have "sim (fold (line_step en cfg iter fin) lines st)
            (fold (line_step_fp en cfg iter fin) lines sf) \<and>
        state_inv (fold (line_step en cfg iter fin) lines st)"
  proof (rule rel_fold[where R = sim and P = state_inv])
    show "sim st sf" by (rule s)
    show "state_inv st" by (rule si)
    fix l p q assume "l \<in> set lines" "sim p q" "state_inv p"
    then show "sim (line_step en cfg iter fin l p) (line_step_fp en cfg iter fin l q) \<and>
               state_inv (line_step en cfg iter fin l p)"
      using line_step_sim[OF ok fd] line_step_inv[OF ok] v by blast
  qed
  then show ?thesis by blast
qed

lemma normalize_row_emb:
  "normalize_row_fp (e, emb_row cpd) = emb_map (normalize_row (e, cpd))"
proof -
  let ?s = "sum_list (map snd cpd)"
  have "map snd (emb_row cpd) = map Fin (map snd cpd)" by (simp add: emb_row_def)
  then have d: "dsum (map snd (emb_row cpd)) = Fin ?s" by (simp only: dsum_Fin)
  show ?thesis
  proof (cases "0 < ?s")
    case True
    then have "map (\<lambda>(f, v). (f, ddiv v (Fin ?s))) (emb_row cpd)
                 = emb_row (map (\<lambda>(f, v). (f, v / ?s)) cpd)"
      by (simp add: emb_row_def case_prod_beta)
    then show ?thesis
      using True unfolding normalize_row_fp_def normalize_row_def Let_def snd_conv fst_conv d
      by (simp add: emb_map_def)
  next
    case False
    then show ?thesis
      unfolding normalize_row_fp_def normalize_row_def Let_def snd_conv fst_conv d
      by (simp add: emb_map_def)
  qed
qed

lemma Normalize_emb: "Normalize_fp (emb_table T) = emb_table (Normalize T)"
proof -
  have "concat (map normalize_row_fp (emb_map m)) = emb_map (concat (map normalize_row m))" for m
  proof (induction m)
    case Nil
    show ?case by (simp add: emb_map_def)
  next
    case (Cons ec m)
    have "normalize_row_fp (fst ec, emb_row (snd ec)) = emb_map (normalize_row ec)"
      using normalize_row_emb[of "fst ec" "snd ec"] by simp
    then show ?case using Cons.IH by (simp add: emb_map_def)
  qed
  then show ?thesis by (simp add: Normalize_fp_def Normalize_def emb_table_def emb_map_def)
qed

lemma normalize_vb_row_emb:
  assumes "\<forall>x y. exp_ok (psi x - psi y)"
  shows "normalize_vb_row_fp psi a (e, emb_row cpd) = (e, emb_row (snd (normalize_vb_row psi a (e, cpd))))"
proof -
  let ?s = "sum_list (map snd cpd) + a * real (length cpd)"
  have "map snd (emb_row cpd) = map Fin (map snd cpd)" by (simp add: emb_row_def)
  then have d: "dsum (map snd (emb_row cpd)) = Fin (sum_list (map snd cpd))"
    by (simp only: dsum_Fin)
  have l: "length (emb_row cpd) = length cpd" by (simp add: emb_row_def)
  have c: "dexp (Fin (psi x - psi y)) = Fin (exp (psi x - psi y))" for x y
    by (rule dexp_Fin) (use assms in blast)
  have "dexp (dsub (dlift psi (dadd (Fin v) (Fin a))) (dlift psi (Fin ?s)))
          = Fin (exp (psi (v + a) - psi ?s))" for v
    by (simp only: dadd.simps dlift.simps dsub_Fin c)
  then have "map (\<lambda>(f, v). (f, dexp (dsub (dlift psi (dadd v (Fin a))) (dlift psi (Fin ?s)))))
               (emb_row cpd)
             = emb_row (map (\<lambda>(f, v). (f, exp (psi (v + a) - psi ?s))) cpd)"
    by (simp add: emb_row_def case_prod_beta)
  then show ?thesis
    unfolding normalize_vb_row_fp_def normalize_vb_row_def Let_def snd_conv fst_conv d l
    by (simp only: dadd.simps)
qed

lemma NormalizeVB_emb:
  assumes "\<forall>x y. exp_ok (psi x - psi y)"
  shows "NormalizeVB_fp psi (emb_table T) a = emb_table (NormalizeVB psi T a)"
proof -
  have "normalize_vb_row_fp psi a (fst ec, emb_row (snd ec))
          = (fst (normalize_vb_row psi a ec), emb_row (snd (normalize_vb_row psi a ec)))" for ec
    using normalize_vb_row_emb[OF assms, of a "fst ec" "snd ec"]
    by (simp add: normalize_vb_row_def Let_def)
  then show ?thesis
    by (simp add: NormalizeVB_fp_def NormalizeVB_def emb_table_def emb_map_def)
qed

lemma end_of_iteration_sim:
  assumes r: "range_ok en cfg" and s: "sim st sf"
  shows "sim (end_of_iteration en cfg iter fin st) (end_of_iteration_fp en cfg iter fin sf)"
proof (cases "variational_bayes cfg")
  case True
  with r have "\<forall>x y. exp_ok (digamma en x - digamma en y)" by (simp add: range_ok_def)
  note N = NormalizeVB_emb[OF this]
  show ?thesis
    using s True by (simp add: end_of_iteration_def end_of_iteration_fp_def sim_def Let_def N)
next
  case False
  show ?thesis
    using s False
    by (simp add: end_of_iteration_def end_of_iteration_fp_def sim_def Let_def Normalize_emb)
qed

lemma begin_pass_sim: "sim st sf \<Longrightarrow> sim (begin_pass cfg iter st) (begin_pass_fp cfg iter sf)"
  by (simp add: begin_pass_def begin_pass_fp_def sim_def)

lemma pass_lines_sim:
  assumes ok: "config_ok cfg" and r: "range_ok en cfg"
    and v: "\<forall>l\<in>set (input en). valid_line en cfg l" and si: "state_inv st" and s: "sim st sf"
  shows "sim (pass_lines en cfg iter st) (pass_lines_fp en cfg iter sf)"
proof -
  have fd: "favor_diagonal cfg \<longrightarrow> tension_ok cfg" using r by (simp add: range_ok_def)
  have si': "state_inv (begin_pass cfg iter st)" using si by (simp add: state_inv_begin_pass)
  show ?thesis
    unfolding pass_lines_def pass_lines_fp_def
    by (rule lines_sim[OF ok fd v si' begin_pass_sim[OF s]])
qed

lemma pass_result_sim:
  assumes ok: "config_ok cfg" and r: "range_ok en cfg"
    and v: "\<forall>l\<in>set (input en). valid_line en cfg l" and si: "state_inv st" and s: "sim st sf"
  shows "sim (pass_result en cfg iter st) (pass_result_fp en cfg iter sf)"
  unfolding pass_result_def pass_result_fp_def
  by (rule end_of_iteration_sim[OF r pass_lines_sim[OF ok r v si s]])

lemma passes_sim:
  assumes ok: "config_ok cfg" and r: "range_ok en cfg"
    and v: "\<forall>l\<in>set (input en). valid_line en cfg l" and si: "state_inv st" and s: "sim st sf"
  shows "sim (fold (pass_result en cfg) its st) (fold (pass_result_fp en cfg) its sf)"
proof -
  have "sim (fold (pass_result en cfg) its st) (fold (pass_result_fp en cfg) its sf) \<and>
        state_inv (fold (pass_result en cfg) its st)"
  proof (rule rel_fold[where R = sim and P = state_inv])
    show "sim st sf" by (rule s)
    show "state_inv st" by (rule si)
    fix i p q assume "i \<in> set its" "sim p q" "state_inv p"
    then show "sim (pass_result en cfg i p) (pass_result_fp en cfg i q) \<and>
               state_inv (pass_result en cfg i p)"
      using pass_result_sim[OF ok r v] pass_result_inv[OF ok v] by blast
  qed
  then show ?thesis by blast
qed

lemma sim_init: "sim init_state init_state_fp"
  by (simp add: sim_def init_state_def init_state_fp_def emb_table_def empty_TTable_def
        empty_TTable_fp_def emb_map_def)

subsection \<open>Runs over a corpus of valid lines, over \<open>double\<close>\<close>

lemma process_line_fp_valid:
  "valid_line en cfg line \<Longrightarrow>
   process_line_fp en cfg iter fin line st = Inr (line_step_fp en cfg iter fin line st)"
  by (simp add: process_line_fp_def line_step_fp_def valid_line_def Let_def case_prod_beta)

lemma read_loop_fp_valid:
  "\<forall>l\<in>set lines. valid_line en cfg l \<Longrightarrow>
   read_loop_fp en cfg iter fin lines st = Inr (fold (line_step_fp en cfg iter fin) lines st)"
  by (induction lines arbitrary: st) (simp_all add: process_line_fp_valid)

lemma iteration_fp_valid:
  "\<forall>l\<in>set (input en). valid_line en cfg l \<Longrightarrow>
   iteration_fp en cfg iter st = Inr (pass_result_fp en cfg iter st)"
  by (simp add: iteration_fp_def read_loop_fp_valid pass_result_fp_def pass_lines_fp_def Let_def)

lemma iterations_fp_valid:
  "\<forall>l\<in>set (input en). valid_line en cfg l \<Longrightarrow>
   iterations_fp en cfg its st = Inr (fold (pass_result_fp en cfg) its st)"
  by (induction its arbitrary: st) (simp_all add: iteration_fp_valid)

lemma training_fp_valid:
  "\<forall>l\<in>set (input en). valid_line en cfg l \<Longrightarrow>
   training_fp en cfg = Inr (fold (pass_result_fp en cfg) [0..<nat (ITERATIONS cfg)] init_state_fp)"
  by (simp add: training_fp_def iterations_fp_valid)

text \<open>
  The two readings agree on the training: with positive priors, exponentials in range
  and a corpus of valid lines, both return normally, in states that agree on
  everything but \<open>cerr\<close> and \<open>mean_srclen_multiplier\<close>.
\<close>

lemma training_sim:
  assumes ok: "config_ok cfg" and r: "range_ok en cfg"
    and v: "\<forall>l\<in>set (input en). valid_line en cfg l"
  shows "\<exists>st sf. training en cfg = Inr st \<and> training_fp en cfg = Inr sf \<and> sim st sf"
  by (intro exI conjI)
     (rule training_valid[OF v], rule training_fp_valid[OF v],
      rule passes_sim[OF ok r v state_inv_init sim_init])

subsection \<open>The range of \<open>exp\<close> at the example tensions\<close>







subsection \<open>Positive posteriors where the exponentials are in range\<close>













subsection \<open>Alignment output without the NULL word where the exponentials are in range\<close>











subsection \<open>A run whose weights underflow\<close>












subsection \<open>The diagonal prior where the weights are in range\<close>




subsection \<open>The length ratio over \<open>double\<close>\<close>

lemma outcome_fp_simps [simp]: "outcome_fp (Inl st) = st" "outcome_fp (Inr st) = st"
  by (simp_all add: outcome_fp_def)

lemma scores_simps [simp]:
  "scores [] = []" "scores (xs @ ys) = scores xs @ scores ys"
  "scores (TestScore_fp d # xs) = d # scores xs"
  "scores (AlignPoint_fp a b # xs) = scores xs" "scores (Space_fp # xs) = scores xs"
  "scores (Endl_fp # xs) = scores xs" "scores (TestPair_fp s t # xs) = scores xs"
  "scores (Param_fp e f v # xs) = scores xs"
  by (simp_all add: scores_def)

lemma scores_align_token [simp]: "scores [align_token_fp cfg j idx] = []"
  by (simp add: align_token_fp_def)

lemma dadd_Fin_assoc: "dadd (dadd t (Fin a)) (Fin b) = dadd t (Fin (a + b))"
  by (cases t) simp_all

text \<open>Fields that the loop over the target positions leaves alone.\<close>

lemma position_fp_frame:
  "lc_fp (snd (snd (position_fp cfg fin src trg j (probs, fa, st)))) = lc_fp st"
  "tot_len_ratio_fp (snd (snd (position_fp cfg fin src trg j (probs, fa, st)))) = tot_len_ratio_fp st"
  "mean_srclen_multiplier_fp (snd (snd (position_fp cfg fin src trg j (probs, fa, st))))
     = mean_srclen_multiplier_fp st"
  "scores (cout_fp (snd (snd (position_fp cfg fin src trg j (probs, fa, st))))) = scores (cout_fp st)"
  by (simp_all add: position_fp_def Let_def case_prod_beta viterbi_step_fp_def)

lemma positions_fp_frame:
  "lc_fp (snd (snd (fold (position_fp cfg fin src trg) js pfs))) = lc_fp (snd (snd pfs))"
  "tot_len_ratio_fp (snd (snd (fold (position_fp cfg fin src trg) js pfs)))
     = tot_len_ratio_fp (snd (snd pfs))"
  "mean_srclen_multiplier_fp (snd (snd (fold (position_fp cfg fin src trg) js pfs)))
     = mean_srclen_multiplier_fp (snd (snd pfs))"
  "scores (cout_fp (snd (snd (fold (position_fp cfg fin src trg) js pfs))))
     = scores (cout_fp (snd (snd pfs)))"
proof -
  show "lc_fp (snd (snd (fold (position_fp cfg fin src trg) js pfs))) = lc_fp (snd (snd pfs))"
    by (rule fold_preserves[where g = "\<lambda>pfs. lc_fp (snd (snd pfs))"])
       (metis position_fp_frame(1) prod.collapse)
  show "tot_len_ratio_fp (snd (snd (fold (position_fp cfg fin src trg) js pfs)))
     = tot_len_ratio_fp (snd (snd pfs))"
    by (rule fold_preserves[where g = "\<lambda>pfs. tot_len_ratio_fp (snd (snd pfs))"])
       (metis position_fp_frame(2) prod.collapse)
  show "mean_srclen_multiplier_fp (snd (snd (fold (position_fp cfg fin src trg) js pfs)))
     = mean_srclen_multiplier_fp (snd (snd pfs))"
    by (rule fold_preserves[where g = "\<lambda>pfs. mean_srclen_multiplier_fp (snd (snd pfs))"])
       (metis position_fp_frame(3) prod.collapse)
  show "scores (cout_fp (snd (snd (fold (position_fp cfg fin src trg) js pfs))))
     = scores (cout_fp (snd (snd pfs)))"
    by (rule fold_preserves[where g = "\<lambda>pfs. scores (cout_fp (snd (snd pfs)))"])
       (metis position_fp_frame(4) prod.collapse)
qed

lemma align_pair_fp_frame:
  "lc_fp (align_pair_fp cfg iter fin src trg st) = lc_fp st"
  "mean_srclen_multiplier_fp (align_pair_fp cfg iter fin src trg st) = mean_srclen_multiplier_fp st"
  "scores (cout_fp (align_pair_fp cfg iter fin src trg st)) = scores (cout_fp st)"
  "tot_len_ratio_fp (align_pair_fp cfg iter fin src trg st) =
     (if iter = 0
      then dadd (tot_len_ratio_fp st) (ddiv (Fin (real (length trg))) (Fin (real (length src))))
      else tot_len_ratio_fp st)"
  by (simp_all add: align_pair_fp_def Let_def case_prod_beta positions_fp_frame begin_pair_fp_def)

lemma line_step_fp_frame:
  "lc_fp (line_step_fp en cfg iter fin line st) = lc_fp st + 1"
  "mean_srclen_multiplier_fp (line_step_fp en cfg iter fin line st) = mean_srclen_multiplier_fp st"
  "scores (cout_fp (line_step_fp en cfg iter fin line st)) = scores (cout_fp st)"
  "0 < iter \<Longrightarrow> tot_len_ratio_fp (line_step_fp en cfg iter fin line st) = tot_len_ratio_fp st"
  "valid_line en cfg line \<Longrightarrow>
   tot_len_ratio_fp (line_step_fp en cfg 0 fin line st)
     = dadd (tot_len_ratio_fp st) (Fin (len_ratio en cfg line))"
  by (simp_all add: line_step_fp_def align_pair_fp_frame count_line_fp_def Let_def len_ratio_def
        valid_line_def)

lemma lines_fp_frame:
  "lc_fp (fold (line_step_fp en cfg iter fin) lines st) = lc_fp st + length lines"
  "mean_srclen_multiplier_fp (fold (line_step_fp en cfg iter fin) lines st)
     = mean_srclen_multiplier_fp st"
  "scores (cout_fp (fold (line_step_fp en cfg iter fin) lines st)) = scores (cout_fp st)"
  "0 < iter \<Longrightarrow> tot_len_ratio_fp (fold (line_step_fp en cfg iter fin) lines st) = tot_len_ratio_fp st"
  by (induction lines arbitrary: st) (simp_all add: line_step_fp_frame)

lemma lines_fp_ratio:
  "\<forall>l\<in>set lines. valid_line en cfg l \<Longrightarrow>
   tot_len_ratio_fp (fold (line_step_fp en cfg 0 fin) lines st)
     = dadd (tot_len_ratio_fp st) (Fin (\<Sum>l\<leftarrow>lines. len_ratio en cfg l))"
proof (induction lines arbitrary: st)
  case Nil
  show ?case by (cases "tot_len_ratio_fp st") simp_all
next
  case (Cons l lines)
  then show ?case by (simp add: line_step_fp_frame dadd_Fin_assoc)
qed

lemma pass_result_fp_first:
  assumes "\<forall>l\<in>set (input en). valid_line en cfg l"
  shows "tot_len_ratio_fp (pass_result_fp en cfg 0 st)
           = dadd (tot_len_ratio_fp st) (Fin (\<Sum>l\<leftarrow>input en. len_ratio en cfg l))"
    and "mean_srclen_multiplier_fp (pass_result_fp en cfg 0 st)
           = ddiv (dadd (tot_len_ratio_fp st) (Fin (\<Sum>l\<leftarrow>input en. len_ratio en cfg l)))
               (Fin (real (length (input en))))"
  by (simp_all add: pass_result_fp_def pass_lines_fp_def end_of_iteration_fp_def Let_def
        lines_fp_frame lines_fp_ratio[OF assms] begin_pass_fp_def)

lemma pass_result_fp_later:
  "0 < iter \<Longrightarrow> tot_len_ratio_fp (pass_result_fp en cfg iter st) = tot_len_ratio_fp st"
  "0 < iter \<Longrightarrow> mean_srclen_multiplier_fp (pass_result_fp en cfg iter st)
                   = mean_srclen_multiplier_fp st"
  by (simp_all add: pass_result_fp_def pass_lines_fp_def end_of_iteration_fp_def Let_def
        lines_fp_frame begin_pass_fp_def)

lemma pass_result_fp_scores:
  "scores (cout_fp (pass_result_fp en cfg iter st)) = scores (cout_fp st)"
  by (simp add: pass_result_fp_def pass_lines_fp_def end_of_iteration_fp_def Let_def
        lines_fp_frame begin_pass_fp_def)

lemma len_ratio_fp_iterations:
  assumes valid: "\<forall>l\<in>set (input en). valid_line en cfg l"
  shows "tot_len_ratio_fp (fold (pass_result_fp en cfg) [0..<Suc k] init_state_fp)
           = Fin (\<Sum>l\<leftarrow>input en. len_ratio en cfg l) \<and>
         mean_srclen_multiplier_fp (fold (pass_result_fp en cfg) [0..<Suc k] init_state_fp)
           = ddiv (Fin (\<Sum>l\<leftarrow>input en. len_ratio en cfg l)) (Fin (real (length (input en))))"
proof (induction k)
  case 0
  show ?case by (simp add: pass_result_fp_first[OF valid] init_state_fp_def)
next
  case (Suc k)
  have "fold (pass_result_fp en cfg) [0..<Suc (Suc k)] init_state_fp
          = pass_result_fp en cfg (Suc k) (fold (pass_result_fp en cfg) [0..<Suc k] init_state_fp)"
    by (rule fold_from_0_Suc)
  then show ?case using Suc.IH by (simp only: pass_result_fp_later[of "Suc k"] zero_less_Suc)
qed

lemma passes_fp_scores:
  "scores (cout_fp (fold (pass_result_fp en cfg) its st)) = scores (cout_fp st)"
  by (rule fold_preserves[where g = "\<lambda>st. scores (cout_fp st)"]) (rule pass_result_fp_scores)

subsection \<open>The test scorer over \<open>double\<close>\<close>

lemma test_position_fp_frame:
  "mean_srclen_multiplier_fp (snd (test_position_fp cfg src trg j ls))
     = mean_srclen_multiplier_fp (snd ls)"
  "scores (cout_fp (snd (test_position_fp cfg src trg j ls))) = scores (cout_fp (snd ls))"
  by (simp_all add: test_position_fp_def Let_def case_prod_beta)

lemma test_positions_fp_frame:
  "mean_srclen_multiplier_fp (snd (fold (test_position_fp cfg src trg) js ls))
     = mean_srclen_multiplier_fp (snd ls)"
  "scores (cout_fp (snd (fold (test_position_fp cfg src trg) js ls))) = scores (cout_fp (snd ls))"
proof -
  show "mean_srclen_multiplier_fp (snd (fold (test_position_fp cfg src trg) js ls))
     = mean_srclen_multiplier_fp (snd ls)"
    by (rule fold_preserves[where g = "\<lambda>ls. mean_srclen_multiplier_fp (snd ls)"])
       (rule test_position_fp_frame)
  show "scores (cout_fp (snd (fold (test_position_fp cfg src trg) js ls))) = scores (cout_fp (snd ls))"
    by (rule fold_preserves[where g = "\<lambda>ls. scores (cout_fp (snd ls))"])
       (rule test_position_fp_frame)
qed

lemma begin_test_line_fp_frame:
  "mean_srclen_multiplier_fp (begin_test_line_fp en cfg line st) = mean_srclen_multiplier_fp st"
  "scores (cout_fp (begin_test_line_fp en cfg line st)) = scores (cout_fp st)"
  by (simp_all add: begin_test_line_fp_def Let_def)

lemma test_line_fp_eq:
  "test_line_fp en cfg line (tlp, st) =
     (let src = fst (sides en cfg line); trg = snd (sides en cfg line);
          r = fold (test_position_fp cfg src trg) [0..<length trg]
                (dlift (log_poisson en (length trg))
                   (dadd (Fin (5 / 100))
                      (dmul (Fin (real (length src))) (mean_srclen_multiplier_fp st))),
                 begin_test_line_fp en cfg line st)
      in (dadd tlp (fst r), (snd r)\<lparr>cout_fp := cout_fp (snd r) @ [TestScore_fp (fst r)]\<rparr>))"
  by (simp add: test_line_fp_def sides_def begin_test_line_fp_def Let_def case_prod_beta)

lemma test_line_fp_frame:
  "mean_srclen_multiplier_fp (snd (test_line_fp en cfg line ts)) = mean_srclen_multiplier_fp (snd ts)"
  "scores (cout_fp (snd (test_line_fp en cfg line ts)))
     = scores (cout_fp (snd ts)) @ [line_score en cfg (mean_srclen_multiplier_fp (snd ts)) line (snd ts)]"
proof -
  obtain tlp st where ts: "ts = (tlp, st)" by (metis surj_pair)
  show "mean_srclen_multiplier_fp (snd (test_line_fp en cfg line ts))
          = mean_srclen_multiplier_fp (snd ts)"
    unfolding ts test_line_fp_eq
    by (simp add: Let_def test_positions_fp_frame begin_test_line_fp_frame)
  show "scores (cout_fp (snd (test_line_fp en cfg line ts)))
     = scores (cout_fp (snd ts)) @ [line_score en cfg (mean_srclen_multiplier_fp (snd ts)) line (snd ts)]"
    unfolding ts test_line_fp_eq line_score_def
    by (simp add: Let_def test_positions_fp_frame begin_test_line_fp_frame)
qed

lemma test_lines_fp_mean:
  "mean_srclen_multiplier_fp (snd (fold (test_line_fp en cfg) ls ts)) = mean_srclen_multiplier_fp (snd ts)"
  by (rule fold_preserves[where g = "\<lambda>ts. mean_srclen_multiplier_fp (snd ts)"])
     (rule test_line_fp_frame)

lemma test_lines_fp_scores:
  "scores (cout_fp (snd (fold (test_line_fp en cfg) ls (t0, st)))) =
     scores (cout_fp st) @
     map (\<lambda>k. line_score en cfg (mean_srclen_multiplier_fp st) (ls ! k)
                (snd (fold (test_line_fp en cfg) (take k ls) (t0, st))))
       [0..<length ls]"
proof (induction ls rule: rev_induct)
  case Nil
  show ?case by simp
next
  case (snoc x xs)
  let ?S = "fold (test_line_fp en cfg) xs (t0, st)"
  have m: "mean_srclen_multiplier_fp (snd ?S) = mean_srclen_multiplier_fp st"
    using test_lines_fp_mean[of en cfg xs "(t0, st)"] by simp
  have a: "scores (cout_fp (snd (fold (test_line_fp en cfg) (xs @ [x]) (t0, st))))
             = scores (cout_fp (snd ?S)) @ [line_score en cfg (mean_srclen_multiplier_fp st) x (snd ?S)]"
    by (simp add: test_line_fp_frame m)
  have b: "map (\<lambda>k. line_score en cfg (mean_srclen_multiplier_fp st) ((xs @ [x]) ! k)
                (snd (fold (test_line_fp en cfg) (take k (xs @ [x])) (t0, st))))
             [0..<length xs]
           = map (\<lambda>k. line_score en cfg (mean_srclen_multiplier_fp st) (xs ! k)
                (snd (fold (test_line_fp en cfg) (take k xs) (t0, st))))
             [0..<length xs]"
    by (rule map_cong) (simp_all add: nth_append)
  have c: "[0..<length (xs @ [x])] = [0..<length xs] @ [length xs]" by simp
  show ?case
    unfolding a snoc.IH c map_append b by simp
qed

lemma test_scorer_fp_scores:
  "scores (cout_fp (test_scorer_fp en cfg st)) =
     scores (cout_fp st) @
     map (\<lambda>k. line_score en cfg (mean_srclen_multiplier_fp st) (testset_lines en ! k)
                (scorer_state en cfg st k))
       [0..<length (testset_lines en)]"
  by (simp add: test_scorer_fp_def case_prod_beta test_lines_fp_scores scorer_state_def)

lemma dump_fp_scores: "scores (cout_fp (dump_fp cfg st)) = scores (cout_fp st)"
proof -
  have e: "scores (cout_fp (dump_entry_fp cfg ei s)) = scores (cout_fp s)" for ei s
  proof -
    have "scores (cout_fp (dump_entry_fp cfg ei s))
            = scores (cout_fp (s\<lparr>s2t_viterbi_fp :=
                  AList.map_default (fst ei) [] (\<lambda>v. v) (s2t_viterbi_fp s)\<rparr>))"
      unfolding dump_entry_fp_def Let_def
      by (rule fold_preserves[where g = "\<lambda>st. scores (cout_fp st)"]) simp
    then show ?thesis by simp
  qed
  show ?thesis
    unfolding dump_fp_def
    by (rule fold_preserves[where g = "\<lambda>st. scores (cout_fp st)"]) (rule e)
qed

lemma dump_fp_mean:
  "mean_srclen_multiplier_fp (dump_fp cfg st) = mean_srclen_multiplier_fp st"
proof -
  have e: "mean_srclen_multiplier_fp (dump_entry_fp cfg ei s) = mean_srclen_multiplier_fp s" for ei s
  proof -
    have "mean_srclen_multiplier_fp (dump_entry_fp cfg ei s)
            = mean_srclen_multiplier_fp (s\<lparr>s2t_viterbi_fp :=
                  AList.map_default (fst ei) [] (\<lambda>v. v) (s2t_viterbi_fp s)\<rparr>)"
      unfolding dump_entry_fp_def Let_def
      by (rule fold_preserves[where g = "\<lambda>st. mean_srclen_multiplier_fp st"]) simp
    then show ?thesis by simp
  qed
  show ?thesis
    unfolding dump_fp_def
    by (rule fold_preserves[where g = "\<lambda>st. mean_srclen_multiplier_fp st"]) (rule e)
qed

lemma test_scorer_fp_mean:
  "mean_srclen_multiplier_fp (test_scorer_fp en cfg st) = mean_srclen_multiplier_fp st"
  using test_lines_fp_mean[of en cfg "testset_lines en" "(Fin 0, st)"]
  by (simp add: test_scorer_fp_def case_prod_beta)

text \<open>
  C7. On a corpus of valid lines, after any positive number of iterations
  \<open>tot_len_ratio\<close> is the sum of \<open>|trg| / |src|\<close> over one reading of the corpus and
  \<open>mean_srclen_multiplier\<close> is that sum divided by the number of lines (NaN, as
  \<open>0.0 / 0\<close>, when the corpus is empty); an iteration other than the first changes
  neither. When \<open>main\<close> runs the test scorer after at least one iteration, it returns
  \<open>0\<close>, \<open>mean_srclen_multiplier\<close> still has that value when it returns, and the scores it
  wrote are, line by line of the test set, the result of the loop over the target
  positions started from \<open>log_poisson(|trg|, 0.05 + |src| \<cdot> m)\<close> with that value for
  \<open>m\<close>, in the state in which the scorer reached the line.
\<close>

theorem length_ratio_fixed_after_first_iteration:
  assumes valid: "\<forall>l\<in>set (input en). valid_line en cfg l"
  shows "(\<forall>k. 0 < k \<longrightarrow>
            (\<exists>sf. iterations_fp en cfg [0..<k] init_state_fp = Inr sf \<and>
                   tot_len_ratio_fp sf = Fin (\<Sum>l\<leftarrow>input en. len_ratio en cfg l) \<and>
                   mean_srclen_multiplier_fp sf
                     = ddiv (Fin (\<Sum>l\<leftarrow>input en. len_ratio en cfg l))
                         (Fin (real (length (input en)))))) \<and>
         (\<forall>iter sf. 0 < iter \<longrightarrow>
            tot_len_ratio_fp (outcome_fp (iteration_fp en cfg iter sf)) = tot_len_ratio_fp sf \<and>
            mean_srclen_multiplier_fp (outcome_fp (iteration_fp en cfg iter sf))
              = mean_srclen_multiplier_fp sf) \<and>
         (0 < ITERATIONS cfg \<and> \<not> (variational_bayes cfg \<and> alpha cfg \<le> 0) \<and> testset cfg \<noteq> [] \<longrightarrow>
            (\<exists>sf. training_fp en cfg = Inr sf \<and> fst (main_fp en cfg) = 0 \<and>
                   mean_srclen_multiplier_fp (snd (main_fp en cfg))
                     = ddiv (Fin (\<Sum>l\<leftarrow>input en. len_ratio en cfg l))
                         (Fin (real (length (input en)))) \<and>
                   scores (cout_fp (snd (main_fp en cfg))) =
                     map (\<lambda>k. line_score en cfg
                                (ddiv (Fin (\<Sum>l\<leftarrow>input en. len_ratio en cfg l))
                                   (Fin (real (length (input en)))))
                                (testset_lines en ! k) (scorer_state en cfg sf k))
                       [0..<length (testset_lines en)]))"
proof -
  let ?R = "\<Sum>l\<leftarrow>input en. len_ratio en cfg l"
  let ?M = "ddiv (Fin ?R) (Fin (real (length (input en))))"
  have A: "\<forall>k. 0 < k \<longrightarrow>
            (\<exists>sf. iterations_fp en cfg [0..<k] init_state_fp = Inr sf \<and>
                   tot_len_ratio_fp sf = Fin ?R \<and> mean_srclen_multiplier_fp sf = ?M)"
  proof (intro allI impI)
    fix k :: nat assume "0 < k"
    then obtain k' where k: "k = Suc k'" by (cases k) simp_all
    have "iterations_fp en cfg [0..<k] init_state_fp
            = Inr (fold (pass_result_fp en cfg) [0..<k] init_state_fp)"
      using valid by (rule iterations_fp_valid)
    then show "\<exists>sf. iterations_fp en cfg [0..<k] init_state_fp = Inr sf \<and>
                   tot_len_ratio_fp sf = Fin ?R \<and> mean_srclen_multiplier_fp sf = ?M"
      using len_ratio_fp_iterations[OF valid, of k'] unfolding k by blast
  qed
  have B: "\<forall>iter sf. 0 < iter \<longrightarrow>
            tot_len_ratio_fp (outcome_fp (iteration_fp en cfg iter sf)) = tot_len_ratio_fp sf \<and>
            mean_srclen_multiplier_fp (outcome_fp (iteration_fp en cfg iter sf))
              = mean_srclen_multiplier_fp sf"
    by (simp add: iteration_fp_valid[OF valid] pass_result_fp_later)
  have C: "0 < ITERATIONS cfg \<and> \<not> (variational_bayes cfg \<and> alpha cfg \<le> 0) \<and> testset cfg \<noteq> [] \<longrightarrow>
            (\<exists>sf. training_fp en cfg = Inr sf \<and> fst (main_fp en cfg) = 0 \<and>
                   mean_srclen_multiplier_fp (snd (main_fp en cfg)) = ?M \<and>
                   scores (cout_fp (snd (main_fp en cfg))) =
                     map (\<lambda>k. line_score en cfg ?M (testset_lines en ! k) (scorer_state en cfg sf k))
                       [0..<length (testset_lines en)])"
  proof
    assume h: "0 < ITERATIONS cfg \<and> \<not> (variational_bayes cfg \<and> alpha cfg \<le> 0) \<and> testset cfg \<noteq> []"
    let ?sf = "fold (pass_result_fp en cfg) [0..<nat (ITERATIONS cfg)] init_state_fp"
    from h obtain k' where k: "nat (ITERATIONS cfg) = Suc k'" by (cases "nat (ITERATIONS cfg)") simp_all
    have tr: "training_fp en cfg = Inr ?sf" using valid by (rule training_fp_valid)
    have m: "mean_srclen_multiplier_fp ?sf = ?M"
      using len_ratio_fp_iterations[OF valid, of k'] unfolding k by blast
    have s: "scores (cout_fp ?sf) = []" by (simp add: passes_fp_scores init_state_fp_def)
    let ?t = "test_scorer_fp en cfg ?sf"
    have mn: "main_fp en cfg = (0, if write_alignments cfg then ?t else dump_fp cfg ?t)"
      using h by (auto simp: main_fp_def tr)
    have m': "mean_srclen_multiplier_fp (snd (main_fp en cfg)) = ?M"
      unfolding mn by (simp add: dump_fp_mean test_scorer_fp_mean m)
    have sc: "scores (cout_fp (snd (main_fp en cfg))) =
                     map (\<lambda>k. line_score en cfg ?M (testset_lines en ! k) (scorer_state en cfg ?sf k))
                       [0..<length (testset_lines en)]"
      unfolding mn by (simp add: dump_fp_scores test_scorer_fp_scores s m)
    have f: "fst (main_fp en cfg) = 0" unfolding mn by simp
    show "\<exists>sf. training_fp en cfg = Inr sf \<and> fst (main_fp en cfg) = 0 \<and>
                   mean_srclen_multiplier_fp (snd (main_fp en cfg)) = ?M \<and>
                   scores (cout_fp (snd (main_fp en cfg))) =
                     map (\<lambda>k. line_score en cfg ?M (testset_lines en ! k) (scorer_state en cfg sf k))
                       [0..<length (testset_lines en)]"
      by (intro exI conjI) (rule tr, rule f, rule m', rule sc)
  qed
  show ?thesis using A B C by blast
qed

theorem length_ratio_fixed_after_first_iteration_witness:
  "\<exists>sf. training_fp (example_env\<lparr>testset_lines := [''a ||| x'']\<rparr>)
           (default_conf\<lparr>testset := ''t''\<rparr>) = Inr sf \<and>
        mean_srclen_multiplier_fp
          (snd (main_fp (example_env\<lparr>testset_lines := [''a ||| x'']\<rparr>)
                  (default_conf\<lparr>testset := ''t''\<rparr>))) = Fin 1 \<and>
        scores (cout_fp (snd (main_fp (example_env\<lparr>testset_lines := [''a ||| x'']\<rparr>)
                                (default_conf\<lparr>testset := ''t''\<rparr>))))
          = [line_score (example_env\<lparr>testset_lines := [''a ||| x'']\<rparr>)
               (default_conf\<lparr>testset := ''t''\<rparr>) (Fin 1) ''a ||| x'' sf]"
proof -
  let ?E = "example_env\<lparr>testset_lines := [''a ||| x'']\<rparr>" and ?C = "default_conf\<lparr>testset := ''t''\<rparr>"
  have h: "\<forall>l\<in>set (input ?E). valid_line ?E ?C l"
    by (simp add: valid_line_def sides_def example_env_def example_ReadLine_def default_conf_def)
  have r: "(\<Sum>l\<leftarrow>input ?E. len_ratio ?E ?C l) = 1"
    by (simp add: len_ratio_def sides_def example_env_def example_ReadLine_def default_conf_def)
  have l: "real (length (input ?E)) = 1" by (simp add: example_env_def)
  have t: "testset_lines ?E = [''a ||| x'']" by simp
  have g: "0 < ITERATIONS ?C \<and> \<not> (variational_bayes ?C \<and> alpha ?C \<le> 0) \<and> testset ?C \<noteq> []"
    by (simp add: default_conf_def)
  have d: "ddiv (Fin 1) (Fin 1) = Fin 1" by simp
  from length_ratio_fixed_after_first_iteration[OF h] g
  obtain sf where a: "training_fp ?E ?C = Inr sf"
    and b: "mean_srclen_multiplier_fp (snd (main_fp ?E ?C))
              = ddiv (Fin (\<Sum>l\<leftarrow>input ?E. len_ratio ?E ?C l)) (Fin (real (length (input ?E))))"
    and c: "scores (cout_fp (snd (main_fp ?E ?C))) =
              map (\<lambda>k. line_score ?E ?C
                         (ddiv (Fin (\<Sum>l\<leftarrow>input ?E. len_ratio ?E ?C l))
                            (Fin (real (length (input ?E)))))
                         (testset_lines ?E ! k) (scorer_state ?E ?C sf k))
                [0..<length (testset_lines ?E)]"
    by blast
  have b': "mean_srclen_multiplier_fp (snd (main_fp ?E ?C)) = Fin 1"
    using b unfolding r l d .
  have s0: "scorer_state ?E ?C sf 0 = sf" by (simp add: scorer_state_def)
  have c': "scores (cout_fp (snd (main_fp ?E ?C))) = [line_score ?E ?C (Fin 1) ''a ||| x'' sf]"
    using c unfolding r l d t by (simp add: s0)
  show ?thesis by (intro exI conjI) (rule a, rule b', rule c')
qed

text \<open>On an empty corpus the first iteration sets \<open>mean_srclen_multiplier\<close> to NaN.\<close>

lemma mean_nan_on_empty_corpus:
  assumes "input en = []" and "0 < k"
  shows "\<exists>sf. iterations_fp en cfg [0..<k] init_state_fp = Inr sf \<and>
              mean_srclen_multiplier_fp sf = NaN"
proof -
  have v: "\<forall>l\<in>set (input en). valid_line en cfg l" using assms(1) by simp
  from assms(2) obtain k' where k: "k = Suc k'" by (cases k) simp_all
  have a: "iterations_fp en cfg [0..<k] init_state_fp
            = Inr (fold (pass_result_fp en cfg) [0..<k] init_state_fp)"
    using v by (rule iterations_fp_valid)
  have "mean_srclen_multiplier_fp (fold (pass_result_fp en cfg) [0..<k] init_state_fp) = NaN"
    using len_ratio_fp_iterations[OF v, of k'] unfolding k by (simp add: assms(1))
  with a show ?thesis by blast
qed

end
